(* ===== verification/Prelude.thy ===== *)
theory Prelude
  imports Complex_Main
begin

text \<open>
  Shared vocabulary of the development.

  \<^item> The effect type of the model: an asynchronous TypeScript method that reads and writes
    state and may throw is a function from the state to a result and the new state
    (\<open>('s, 'e, 'a) em\<close>). \<open>bindE\<close>, \<open>catchE\<close> and \<open>finallyE\<close> are \<open>await\<close>, \<open>try/catch\<close> and
    \<open>try/finally\<close>; \<open>atomicE\<close> is a database transaction that is rolled back when its body
    throws; \<open>zoomE\<close> runs a method of a component on the state that embeds it.
  \<^item> \<open>keeps I m\<close>: the method \<open>m\<close> keeps the invariant \<open>I\<close>, whether it returns or throws. Its
    rules are in the collection \<open>keeps_rules\<close>, so an invariant proof of a method
    follows the method's own structure. \<open>throws P m\<close>: every error \<open>m\<close> throws satisfies \<open>P\<close>.
  \<^item> JavaScript's \<open>Map\<close>: an association list in insertion order, with its interface locale.
  \<^item> Decimal printing and reading of integers, as template strings and \<open>parseInt\<close> use it.
\<close>

named_theorems em_simps \<comment> \<open>unfolds the effect combinators\<close>
named_theorems keeps_rules \<comment> \<open>invariant rules, one per combinator and per operation\<close>
named_theorems throws_rules \<comment> \<open>rules for what a method may throw\<close>

section \<open>Methods that read and write state and may throw\<close>

type_synonym ('s, 'e, 'a) em = "'s \<Rightarrow> ('e + 'a) \<times> 's"

definition retE :: "'a \<Rightarrow> ('s, 'e, 'a) em" where
  "retE x = (\<lambda>s. (Inr x, s))"

definition raiseE :: "'e \<Rightarrow> ('s, 'e, 'a) em" where
  "raiseE e = (\<lambda>s. (Inl e, s))"

definition liftE :: "'e + 'a \<Rightarrow> ('s, 'e, 'a) em" where
  "liftE r = (\<lambda>s. (r, s))"

definition getsE :: "('s \<Rightarrow> 'a) \<Rightarrow> ('s, 'e, 'a) em" where
  "getsE f = (\<lambda>s. (Inr (f s), s))"

definition modifyE :: "('s \<Rightarrow> 's) \<Rightarrow> ('s, 'e, unit) em" where
  "modifyE f = (\<lambda>s. (Inr (), f s))"

definition bindE :: "('s, 'e, 'a) em \<Rightarrow> ('a \<Rightarrow> ('s, 'e, 'b) em) \<Rightarrow> ('s, 'e, 'b) em" where
  "bindE m f = (\<lambda>s. case m s of (Inl e, s') \<Rightarrow> (Inl e, s') | (Inr x, s') \<Rightarrow> f x s')"

definition seqE :: "('s, 'e, 'a) em \<Rightarrow> ('s, 'e, 'b) em \<Rightarrow> ('s, 'e, 'b) em" where
  "seqE m n = bindE m (\<lambda>_. n)"

definition catchE :: "('s, 'e, 'a) em \<Rightarrow> ('e \<Rightarrow> ('s, 'e, 'a) em) \<Rightarrow> ('s, 'e, 'a) em" where
  "catchE m h = (\<lambda>s. case m s of (Inl e, s') \<Rightarrow> h e s' | (Inr x, s') \<Rightarrow> (Inr x, s'))"

text \<open>\<open>try m finally f\<close>: an error of \<open>f\<close> replaces the result of \<open>m\<close>.\<close>

definition finallyE :: "('s, 'e, 'a) em \<Rightarrow> ('s, 'e, unit) em \<Rightarrow> ('s, 'e, 'a) em" where
  "finallyE m f = (\<lambda>s. case m s of (r, s') \<Rightarrow>
     (case f s' of (Inl e, s'') \<Rightarrow> (Inl e, s'') | (Inr _, s'') \<Rightarrow> (r, s'')))"

definition whenE :: "bool \<Rightarrow> ('s, 'e, unit) em \<Rightarrow> ('s, 'e, unit) em" where
  "whenE b m = (if b then m else retE ())"

text \<open>\<open>BEGIN \<dots> COMMIT\<close>, with \<open>ROLLBACK\<close> when the body throws.\<close>

definition atomicE :: "('s, 'e, 'a) em \<Rightarrow> ('s, 'e, 'a) em" where
  "atomicE m = (\<lambda>s. case m s of (Inl e, s') \<Rightarrow> (Inl e, s) | (Inr x, s') \<Rightarrow> (Inr x, s'))"

definition zoomE :: "('t \<Rightarrow> 's) \<Rightarrow> ('s \<Rightarrow> 't \<Rightarrow> 't) \<Rightarrow> ('s, 'e, 'a) em \<Rightarrow> ('t, 'e, 'a) em" where
  "zoomE g p m = (\<lambda>t. case m (g t) of (r, s) \<Rightarrow> (r, p s t))"

fun mapE :: "('x \<Rightarrow> ('s, 'e, 'a) em) \<Rightarrow> 'x list \<Rightarrow> ('s, 'e, 'a list) em" where
  "mapE f [] = retE []"
| "mapE f (x # xs) = bindE (f x) (\<lambda>y. bindE (mapE f xs) (\<lambda>ys. retE (y # ys)))"

lemmas em_defs [em_simps] =
  retE_def raiseE_def liftE_def getsE_def modifyE_def bindE_def seqE_def catchE_def
  finallyE_def whenE_def atomicE_def zoomE_def

lemma bindE_retE [simp]: "bindE (retE x) f = f x"
  by (simp add: bindE_def retE_def)

lemma bindE_raiseE [simp]: "bindE (raiseE e) f = raiseE e"
  by (simp add: bindE_def raiseE_def)

lemma bindE_assoc: "bindE (bindE m f) g = bindE m (\<lambda>x. bindE (f x) g)"
  by (rule ext) (auto simp: bindE_def split: prod.splits sum.splits)

lemma bindE_getsE [simp]: "bindE (getsE g) f s = f (g s) s"
  by (simp add: bindE_def getsE_def)

lemma catchE_retE [simp]: "catchE (retE x) h = retE x"
  by (simp add: catchE_def retE_def)

lemma catchE_raiseE [simp]: "catchE (raiseE e) h = h e"
  by (simp add: catchE_def raiseE_def)

lemma bindE_InrD:
  assumes "bindE m f s = (Inr y, t)"
  obtains x u where "m s = (Inr x, u)" "f x u = (Inr y, t)"
  using assms by (auto simp: bindE_def split: prod.splits sum.splits)

lemma bindE_step: "m s = (Inr x, u) \<Longrightarrow> bindE m f s = f x u"
  by (simp add: bindE_def)

lemma bindE_stop: "m s = (Inl e, u) \<Longrightarrow> bindE m f s = (Inl e, u)"
  by (simp add: bindE_def)

text \<open>A handler that only throws: what is returned was returned by the body.\<close>

lemma catchE_rethrow:
  assumes "catchE m h s = (Inr x, t)" "\<And>e. \<exists>e'. h e = raiseE e'"
  shows "m s = (Inr x, t)"
proof (cases "m s")
  case (Pair r u)
  then show ?thesis using assms(1) assms(2) [of "projl r"]
    by (cases r) (auto simp: catchE_def raiseE_def)
qed

lemma catchE_rethrown:
  assumes "catchE m h s = (Inl e, t)" "\<And>e. \<exists>e'. h e = raiseE e'"
  shows "\<exists>e'. m s = (Inl e', t)"
proof (cases "m s")
  case (Pair r u)
  then show ?thesis using assms(1) assms(2) [of "projl r"]
    by (cases r) (auto simp: catchE_def raiseE_def)
qed

lemma seqE_InrD:
  assumes "seqE m n s = (Inr y, t)"
  obtains x u where "m s = (Inr x, u)" "n u = (Inr y, t)"
  using assms unfolding seqE_def by (rule bindE_InrD)

lemma bindE_InlD:
  assumes "bindE m f s = (Inl e, t)"
  obtains (first) "m s = (Inl e, t)" | (second) x u where "m s = (Inr x, u)" "f x u = (Inl e, t)"
  using assms by (auto simp: bindE_def split: prod.splits sum.splits)

lemma seqE_InlD:
  assumes "seqE m n s = (Inl e, t)"
  obtains (first) "m s = (Inl e, t)" | (second) x u where "m s = (Inr x, u)" "n u = (Inl e, t)"
  using assms unfolding seqE_def by (rule bindE_InlD)

section \<open>Invariants of methods\<close>

definition keeps :: "('s \<Rightarrow> bool) \<Rightarrow> ('s, 'e, 'a) em \<Rightarrow> bool" where
  "keeps I m \<longleftrightarrow> (\<forall>s. I s \<longrightarrow> I (snd (m s)))"

lemma keepsI: "(\<And>s. I s \<Longrightarrow> I (snd (m s))) \<Longrightarrow> keeps I m"
  by (simp add: keeps_def)

lemma keepsD: "keeps I m \<Longrightarrow> I s \<Longrightarrow> I (snd (m s))"
  by (simp add: keeps_def)

lemma keeps_result: "keeps I m \<Longrightarrow> I s \<Longrightarrow> m s = (r, t) \<Longrightarrow> I t"
  by (metis keepsD snd_conv)

lemma keeps_ret [keeps_rules]: "keeps I (retE x)"
  and keeps_raise [keeps_rules]: "keeps I (raiseE e)"
  and keeps_lift [keeps_rules]: "keeps I (liftE r)"
  and keeps_gets [keeps_rules]: "keeps I (getsE f)"
  by (simp_all add: keeps_def em_simps)

lemma keeps_modify: "(\<And>s. I s \<Longrightarrow> I (f s)) \<Longrightarrow> keeps I (modifyE f)"
  by (simp add: keeps_def em_simps)

lemma keeps_bind [keeps_rules]:
  assumes "keeps I m" and "\<And>x. keeps I (f x)"
  shows "keeps I (bindE m f)"
proof (rule keepsI)
  fix s assume "I s"
  with assms(1) have "I (snd (m s))" by (rule keepsD)
  with assms(2) show "I (snd (bindE m f s))"
    by (auto simp: bindE_def keeps_def split: prod.splits sum.splits)
qed

lemma keeps_seq [keeps_rules]: "keeps I m \<Longrightarrow> keeps I n \<Longrightarrow> keeps I (seqE m n)"
  by (simp add: seqE_def keeps_bind)

lemma keeps_catch [keeps_rules]:
  assumes "keeps I m" and "\<And>e. keeps I (h e)"
  shows "keeps I (catchE m h)"
proof (rule keepsI)
  fix s assume "I s"
  with assms(1) have "I (snd (m s))" by (rule keepsD)
  with assms(2) show "I (snd (catchE m h s))"
    by (auto simp: catchE_def keeps_def split: prod.splits sum.splits)
qed

lemma keeps_finally [keeps_rules]:
  assumes "keeps I m" and "keeps I f"
  shows "keeps I (finallyE m f)"
proof (rule keepsI)
  fix s assume "I s"
  with assms(1) have "I (snd (m s))" by (rule keepsD)
  with assms(2) have "I (snd (f (snd (m s))))" by (rule keepsD)
  then show "I (snd (finallyE m f s))"
    by (auto simp: finallyE_def split: prod.splits sum.splits)
qed

lemma keeps_when [keeps_rules]: "(b \<Longrightarrow> keeps I m) \<Longrightarrow> keeps I (whenE b m)"
  by (simp add: whenE_def keeps_ret)

lemma keeps_if [keeps_rules]:
  "(b \<Longrightarrow> keeps I m) \<Longrightarrow> (\<not> b \<Longrightarrow> keeps I n) \<Longrightarrow> keeps I (if b then m else n)"
  by simp

lemma keeps_case_option [keeps_rules]:
  "(x = None \<Longrightarrow> keeps I m) \<Longrightarrow> (\<And>y. x = Some y \<Longrightarrow> keeps I (f y)) \<Longrightarrow>
   keeps I (case x of None \<Rightarrow> m | Some y \<Rightarrow> f y)"
  by (cases x) auto

lemma keeps_case_list [keeps_rules]:
  "(xs = [] \<Longrightarrow> keeps I m) \<Longrightarrow> (\<And>y ys. xs = y # ys \<Longrightarrow> keeps I (f y ys)) \<Longrightarrow>
   keeps I (case xs of [] \<Rightarrow> m | y # ys \<Rightarrow> f y ys)"
  by (cases xs) auto

lemma keeps_case_prod [keeps_rules]: "(\<And>a b. x = (a, b) \<Longrightarrow> keeps I (f a b)) \<Longrightarrow> keeps I (case x of (a, b) \<Rightarrow> f a b)"
  by (cases x) auto

lemma keeps_atomic [keeps_rules]: "keeps I m \<Longrightarrow> keeps I (atomicE m)"
  by (rule keepsI) (auto simp: atomicE_def keeps_def split: prod.splits sum.splits)

lemma keeps_zoom:
  assumes "keeps J m" and "\<And>t. I t \<Longrightarrow> J (g t)" and "\<And>t s. I t \<Longrightarrow> J s \<Longrightarrow> I (p s t)"
  shows "keeps I (zoomE g p m)"
  by (rule keepsI) (auto simp: zoomE_def intro: assms keeps_result [OF assms(1)] split: prod.splits)

lemma keeps_map [keeps_rules]: "(\<And>x. keeps I (f x)) \<Longrightarrow> keeps I (mapE f xs)"
  by (induction xs) (auto intro!: keeps_rules)

lemma atomicE_error: "atomicE m s = (Inl e, t) \<Longrightarrow> t = s"
  by (auto simp: atomicE_def split: prod.splits sum.splits)

section \<open>What a method may throw\<close>

definition throws :: "('e \<Rightarrow> bool) \<Rightarrow> ('s, 'e, 'a) em \<Rightarrow> bool" where
  "throws P m \<longleftrightarrow> (\<forall>s e t. m s = (Inl e, t) \<longrightarrow> P e)"

lemma throwsI: "(\<And>s e t. m s = (Inl e, t) \<Longrightarrow> P e) \<Longrightarrow> throws P m"
  by (simp add: throws_def)

lemma throwsD: "throws P m \<Longrightarrow> m s = (Inl e, t) \<Longrightarrow> P e"
  by (auto simp: throws_def)

lemma throws_ret [throws_rules]: "throws P (retE x)"
  and throws_gets [throws_rules]: "throws P (getsE f)"
  and throws_modify [throws_rules]: "throws P (modifyE g)"
  by (simp_all add: throws_def em_simps)

lemma throws_raise: "P e \<Longrightarrow> throws P (raiseE e)"
  by (simp add: throws_def em_simps)

lemma throws_lift: "(\<And>e. r = Inl e \<Longrightarrow> P e) \<Longrightarrow> throws P (liftE r)"
  by (simp add: throws_def em_simps)

lemma throws_bind [throws_rules]: "throws P m \<Longrightarrow> (\<And>x. throws P (f x)) \<Longrightarrow> throws P (bindE m f)"
  by (auto simp: throws_def bindE_def split: prod.splits sum.splits)

lemma throws_seq [throws_rules]: "throws P m \<Longrightarrow> throws P n \<Longrightarrow> throws P (seqE m n)"
  by (simp add: seqE_def throws_bind)

lemma throws_catch: "throws Q m \<Longrightarrow> (\<And>e. Q e \<Longrightarrow> throws P (h e)) \<Longrightarrow> throws P (catchE m h)"
  unfolding throws_def catchE_def by (auto split: prod.splits sum.splits) blast

lemma throws_if [throws_rules]: "(b \<Longrightarrow> throws P m) \<Longrightarrow> (\<not> b \<Longrightarrow> throws P n) \<Longrightarrow> throws P (if b then m else n)"
  by simp

lemma throws_when [throws_rules]: "(b \<Longrightarrow> throws P m) \<Longrightarrow> throws P (whenE b m)"
  by (simp add: whenE_def throws_ret)

lemma throws_case_option [throws_rules]:
  "(x = None \<Longrightarrow> throws P m) \<Longrightarrow> (\<And>y. x = Some y \<Longrightarrow> throws P (f y)) \<Longrightarrow>
   throws P (case x of None \<Rightarrow> m | Some y \<Rightarrow> f y)"
  by (cases x) auto

lemma throws_case_prod [throws_rules]: "(\<And>a b. x = (a, b) \<Longrightarrow> throws P (f a b)) \<Longrightarrow> throws P (case x of (a, b) \<Rightarrow> f a b)"
  by (cases x) auto

lemma throws_zoom [throws_rules]: "throws P m \<Longrightarrow> throws P (zoomE g p m)"
  by (auto simp: throws_def zoomE_def split: prod.splits)

section \<open>Results of pure code that may throw\<close>

definition bindR :: "'e + 'a \<Rightarrow> ('a \<Rightarrow> 'e + 'b) \<Rightarrow> 'e + 'b" where
  "bindR r f = (case r of Inl e \<Rightarrow> Inl e | Inr x \<Rightarrow> f x)"

lemma bindR_simps [simp]: "bindR (Inl e) f = Inl e" "bindR (Inr x) f = f x"
  by (simp_all add: bindR_def)

lemma bindR_cong [fundef_cong]:
  "r = r' \<Longrightarrow> (\<And>x. r' = Inr x \<Longrightarrow> f x = g x) \<Longrightarrow> bindR r f = bindR r' g"
  by (cases r') auto

fun traverse :: "('a \<Rightarrow> 'e + 'b) \<Rightarrow> 'a list \<Rightarrow> 'e + 'b list" where
  "traverse f [] = Inr []"
| "traverse f (x # xs) = bindR (f x) (\<lambda>y. bindR (traverse f xs) (\<lambda>ys. Inr (y # ys)))"

lemma traverse_cong [fundef_cong]:
  "xs = ys \<Longrightarrow> (\<And>x. x \<in> set ys \<Longrightarrow> f x = g x) \<Longrightarrow> traverse f xs = traverse g ys"
  by (induction xs arbitrary: ys) auto

lemma traverse_Inr: "(\<And>x. x \<in> set xs \<Longrightarrow> f x = Inr (g x)) \<Longrightarrow> traverse f xs = Inr (map g xs)"
  by (induction xs) auto

lemma traverse_length: "traverse f xs = Inr ys \<Longrightarrow> length ys = length xs"
  by (induction xs arbitrary: ys) (auto simp: bindR_def split: sum.splits)

lemma traverse_Cons_Inr:
  "traverse f (x # xs) = Inr ys \<longleftrightarrow> (\<exists>z zs. f x = Inr z \<and> traverse f xs = Inr zs \<and> ys = z # zs)"
  by (cases "f x"; cases "traverse f xs") auto

section \<open>JavaScript's Map\<close>

text \<open>
  The interface the components rely on: lookup, insertion and removal by key, and the keys
  in insertion order. The laws are those of a finite map, plus: setting a present key keeps
  the order, setting a new key appends it.
\<close>

locale js_map =
  fixes get :: "'m \<Rightarrow> 'k \<Rightarrow> 'v option"
    and put :: "'k \<Rightarrow> 'v \<Rightarrow> 'm \<Rightarrow> 'm"
    and del :: "'k \<Rightarrow> 'm \<Rightarrow> 'm"
    and keys :: "'m \<Rightarrow> 'k list"
  assumes get_put: "get (put k v m) = (get m)(k \<mapsto> v)"
    and get_del: "get (del k m) = (get m)(k := None)"
    and keys_put: "keys (put k v m) = (if k \<in> set (keys m) then keys m else keys m @ [k])"
    and in_keys: "k \<in> set (keys m) \<longleftrightarrow> get m k \<noteq> None"
begin

lemma put_other: "k \<noteq> k' \<Longrightarrow> get (put k v m) k' = get m k'"
  by (simp add: get_put)

lemma put_put_get: "get (put k v (put k w m)) = get (put k v m)"
  by (simp add: get_put)

text \<open>
  Handing entries back to a buffer without overwriting newer ones, as every \<open>flush\<close> method
  of the program does after a failed write.
\<close>

definition restore :: "('k \<times> 'v) list \<Rightarrow> 'm \<Rightarrow> 'm" where
  "restore xs m = foldl (\<lambda>b (k, v). if get b k = None then put k v b else b) m xs"

lemma get_restore: "get (restore xs m) k = (case get m k of Some v \<Rightarrow> Some v | None \<Rightarrow> map_of xs k)"
proof (induction xs arbitrary: m)
  case Nil
  show ?case by (simp add: restore_def split: option.splits)
next
  case (Cons x xs)
  obtain k' v where x: "x = (k', v)" by (cases x)
  have "restore (x # xs) m = restore xs (if get m k' = None then put k' v m else m)"
    by (simp add: restore_def x)
  then show ?case
    by (auto simp: Cons.IH x get_put split: option.splits)
qed

lemma restore_keeps_newer: "get m k = Some v \<Longrightarrow> get (restore xs m) k = Some v"
  by (simp add: get_restore)

lemma restore_gives_back: "get m k = None \<Longrightarrow> get (restore xs m) k = map_of xs k"
  by (simp add: get_restore)

end

type_synonym ('k, 'v) jmap = "('k \<times> 'v) list"

abbreviation jm_get :: "('k, 'v) jmap \<Rightarrow> 'k \<Rightarrow> 'v option" where
  "jm_get \<equiv> map_of"

fun jm_set :: "'k \<Rightarrow> 'v \<Rightarrow> ('k, 'v) jmap \<Rightarrow> ('k, 'v) jmap" where
  "jm_set k v [] = [(k, v)]"
| "jm_set k v ((k', v') # m) = (if k' = k then (k, v) # m else (k', v') # jm_set k v m)"

definition jm_del :: "'k \<Rightarrow> ('k, 'v) jmap \<Rightarrow> ('k, 'v) jmap" where
  "jm_del k m = filter (\<lambda>(k', _). k' \<noteq> k) m"

definition jm_has :: "('k, 'v) jmap \<Rightarrow> 'k \<Rightarrow> bool" where
  "jm_has m k \<longleftrightarrow> k \<in> fst ` set m"

definition jm_keys :: "('k, 'v) jmap \<Rightarrow> 'k list" where
  "jm_keys m = map fst m"

lemma jm_has_iff: "jm_has m k \<longleftrightarrow> map_of m k \<noteq> None"
  by (simp add: jm_has_def map_of_eq_None_iff)

lemma jm_get_set: "map_of (jm_set k v m) = (map_of m)(k \<mapsto> v)"
  by (induction m) auto

lemma jm_get_del: "map_of (jm_del k m) = (map_of m)(k := None)"
  by (induction m) (auto simp: jm_del_def)

lemma jm_keys_set: "map fst (jm_set k v m) = (if k \<in> fst ` set m then map fst m else map fst m @ [k])"
proof (induction m)
  case (Cons p m)
  then show ?case by (cases p) auto
qed simp

lemma jm_distinct_set: "distinct (map fst m) \<Longrightarrow> distinct (map fst (jm_set k v m))"
  by (simp add: jm_keys_set)

lemma jm_distinct_del: "distinct (map fst m) \<Longrightarrow> distinct (map fst (jm_del k m))"
  by (simp add: jm_del_def distinct_map_filter)

interpretation jm: js_map map_of jm_set jm_del jm_keys
  by unfold_locales
    (auto simp: jm_get_set jm_get_del jm_keys_def jm_keys_set map_of_eq_None_iff fun_eq_iff dom_map_of_conv_image_fst)

definition jm_restore :: "('k, 'v) jmap \<Rightarrow> ('k, 'v) jmap \<Rightarrow> ('k, 'v) jmap" where
  "jm_restore xs m = foldl (\<lambda>b (k, v). if jm_has b k then b else jm_set k v b) m xs"

lemma jm_restore_eq: "jm_restore xs m = jm.restore xs m"
  by (induction xs arbitrary: m) (auto simp: jm_restore_def jm.restore_def jm_has_iff)

lemma jm_get_restore:
  "map_of (jm_restore xs m) k = (case map_of m k of Some v \<Rightarrow> Some v | None \<Rightarrow> map_of xs k)"
  by (simp add: jm_restore_eq jm.get_restore)

section \<open>Decimal numerals\<close>

definition digit :: "nat \<Rightarrow> char" where
  "digit n = ''0123456789'' ! n"

definition digit_val :: "char \<Rightarrow> nat option" where
  "digit_val c = (let n = of_char c in if 48 \<le> n \<and> n \<le> (57 :: nat) then Some (n - 48) else None)"

fun nat_str :: "nat \<Rightarrow> string" where
  "nat_str n = (if n < 10 then [digit n] else nat_str (n div 10) @ [digit (n mod 10)])"

declare nat_str.simps [simp del]

definition int_str :: "int \<Rightarrow> string" where
  "int_str i = (if i < 0 then CHR ''-'' # nat_str (nat (- i)) else nat_str (nat i))"

fun digits_val :: "nat \<Rightarrow> string \<Rightarrow> nat option" where
  "digits_val acc [] = Some acc"
| "digits_val acc (c # cs) =
     (case digit_val c of None \<Rightarrow> None | Some d \<Rightarrow> digits_val (10 * acc + d) cs)"

definition nat_of_str :: "string \<Rightarrow> nat option" where
  "nat_of_str s = (if s = [] then None else digits_val 0 s)"

lemma digit_val_digit [simp]: "n < 10 \<Longrightarrow> digit_val (digit n) = Some n"
proof -
  assume "n < 10"
  then have "n \<in> {0, 1, 2, 3, 4, 5, 6, 7, 8, 9}" by auto
  then show ?thesis by (auto simp: digit_val_def digit_def)
qed

lemma digit_not_minus: "n < 10 \<Longrightarrow> digit n \<noteq> CHR ''-''"
proof -
  assume "n < 10"
  then have "n \<in> {0, 1, 2, 3, 4, 5, 6, 7, 8, 9}" by auto
  then show ?thesis by (auto simp: digit_def)
qed

lemma digits_val_append:
  "digits_val acc (xs @ ys) = (case digits_val acc xs of None \<Rightarrow> None | Some n \<Rightarrow> digits_val n ys)"
  by (induction xs arbitrary: acc) (auto split: option.splits)

lemma nat_str_nonempty [simp]: "nat_str n \<noteq> []"
  by (subst nat_str.simps) simp

lemma digits_val_nat_str: "digits_val 0 (nat_str n) = Some n"
proof (induction n rule: nat_str.induct)
  case (1 n)
  show ?case
  proof (cases "n < 10")
    case True
    then show ?thesis by (subst nat_str.simps) simp
  next
    case False
    with "1.IH" have "digits_val 0 (nat_str (n div 10)) = Some (n div 10)" by simp
    with False show ?thesis by (subst nat_str.simps) (simp add: digits_val_append)
  qed
qed

lemma nat_of_str_nat_str [simp]: "nat_of_str (nat_str n) = Some n"
  by (simp add: nat_of_str_def digits_val_nat_str)

lemma nat_str_inject [simp]: "nat_str m = nat_str n \<longleftrightarrow> m = n"
  by (metis nat_of_str_nat_str option.inject)

lemma digits_val_SomeD: "digits_val acc s = Some n \<Longrightarrow> c \<in> set s \<Longrightarrow> digit_val c \<noteq> None"
  by (induction s arbitrary: acc) (auto split: option.splits)

lemma nat_str_digits: "c \<in> set (nat_str n) \<Longrightarrow> digit_val c \<noteq> None"
  using digits_val_SomeD [OF digits_val_nat_str] by blast

lemma nat_str_no_minus: "CHR ''-'' \<notin> set (nat_str n)"
proof
  assume "CHR ''-'' \<in> set (nat_str n)"
  then have "digit_val (CHR ''-'') \<noteq> None" by (rule nat_str_digits)
  then show False by (simp add: digit_val_def)
qed

lemma int_str_inject [simp]: "int_str i = int_str j \<longleftrightarrow> i = j"
proof -
  have h: "nat_str n \<noteq> CHR ''-'' # xs" for n xs
    using nat_str_no_minus [of n] by auto
  then have "CHR ''-'' # xs \<noteq> nat_str n" for n xs by metis
  with h show ?thesis by (auto simp: int_str_def)
qed

end
