(* ===== verification/Errors.thy ===== *)
theory Errors
  imports Prelude
begin

text \<open>
  The errors of the program (\<open>src/src/error.ts\<close>): one constructor per exception class, with the
  class's constructor arguments; the error of the \<open>pg\<close> client library with the fields the code
  reads; and every other error object (of the application, of an ORM, of the runtime), of which
  the code reads the message, the HTTP status and the places where an ORM puts the SQL state.
  \<open>Diverges\<close> is not an error of the program: it is the model's value for a loop that never ends.
\<close>

record pg_error =
  pe_message :: string
  pe_severity :: "string option"
  pe_code :: "string option"
  pe_detail :: "string option"
  pe_hint :: "string option"
  pe_position :: "string option"
  pe_internalPosition :: "string option"
  pe_internalQuery :: "string option"
  pe_where :: "string option"
  pe_schema :: "string option"
  pe_table :: "string option"
  pe_column :: "string option"
  pe_dataType :: "string option"
  pe_constraint :: "string option"
  pe_file :: "string option"
  pe_line :: "string option"

record js_error =
  je_name :: string
  je_message :: string
  je_status :: "nat option" \<comment> \<open>\<open>error.status\<close>\<close>
  je_code :: "string option" \<comment> \<open>\<open>error.code\<close>\<close>
  je_meta_code :: "string option" \<comment> \<open>\<open>error.meta.code\<close> (Prisma)\<close>
  je_driver_code :: "string option" \<comment> \<open>\<open>error.driverError.code\<close> (TypeORM)\<close>

datatype jserror =
    DBOSError string nat
  | DBOSWorkflowPermissionDeniedError string string
  | DBOSInitializationError string
  | DBOSTopicPermissionDeniedError string string nat string
  | DBOSWorkflowConflictUUIDError string
  | DBOSNotRegisteredError string
  | DBOSPostgresExporterError jserror
  | DBOSDataValidationError string
  | DBOSResponseError string nat
  | DBOSNotAuthorizedError string nat
  | DBOSUndefinedDecoratorInputError string
  | DBOSConfigKeyTypeError string string string
  | DBOSDebuggerError string
  | DBOSNonExistentWorkflowError string
  | DBOSFailLoadOperationsError string
  | DBOSDeadLetterQueueError string nat
  | DBOSFailedSqlTransactionError string string
  | DatabaseError pg_error
  | OtherError js_error
  | Diverges

type_synonym ('s, 'a) meth = "('s, jserror, 'a) em"

section \<open>Messages and codes\<close>

definition pg_line :: "string \<Rightarrow> string option \<Rightarrow> string" where
  "pg_line label v = (case v of None \<Rightarrow> [] | Some s \<Rightarrow> if s = [] then [] else label @ '': '' @ s @ '' '' @ [CHR 0x0A])"

definition formatPgDatabaseError :: "pg_error \<Rightarrow> string" where
  "formatPgDatabaseError err =
     pg_line ''severity'' (pe_severity err) @ pg_line ''code'' (pe_code err) @
     pg_line ''detail'' (pe_detail err) @ pg_line ''hint'' (pe_hint err) @
     pg_line ''position'' (pe_position err) @ pg_line ''internalPosition'' (pe_internalPosition err) @
     pg_line ''internalQuery'' (pe_internalQuery err) @ pg_line ''where'' (pe_where err) @
     pg_line ''schema'' (pe_schema err) @ pg_line ''table'' (pe_table err) @
     pg_line ''column'' (pe_column err) @ pg_line ''dataType'' (pe_dataType err) @
     pg_line ''constraint'' (pe_constraint err) @ pg_line ''file'' (pe_file err) @
     pg_line ''line'' (pe_line err)"

fun err_message :: "jserror \<Rightarrow> string" where
  "err_message (DBOSError msg _) = msg"
| "err_message (DBOSWorkflowPermissionDeniedError runAs workflowName) =
     ''Subject '' @ runAs @ '' does not have permission to run workflow '' @ workflowName"
| "err_message (DBOSInitializationError msg) = msg"
| "err_message (DBOSTopicPermissionDeniedError destinationUUID workflowUUID functionID runAs) =
     ''Subject '' @ runAs @ '' does not have permission on destination UUID '' @ destinationUUID @
     ''.(workflow UUID: '' @ workflowUUID @ '', function ID: '' @ nat_str functionID @ '')''"
| "err_message (DBOSWorkflowConflictUUIDError workflowUUID) = ''Conflicting UUID '' @ workflowUUID"
| "err_message (DBOSNotRegisteredError nm) = ''Operation (Name: '' @ nm @ '') not registered''"
| "err_message (DBOSPostgresExporterError err) =
     ''PostgresExporter error: '' @ err_message err @ '' '' @ [CHR 0x0A] @
     (case err of DatabaseError pe \<Rightarrow> formatPgDatabaseError pe | _ \<Rightarrow> [])"
| "err_message (DBOSDataValidationError msg) = msg"
| "err_message (DBOSResponseError msg _) = msg"
| "err_message (DBOSNotAuthorizedError msg _) = msg"
| "err_message (DBOSUndefinedDecoratorInputError decoratorName) =
     decoratorName @ '' received undefined input. Possible circular dependency?''"
| "err_message (DBOSConfigKeyTypeError configKey expectedType actualType) =
     configKey @ '' should be of type '' @ expectedType @ '', but got '' @ actualType"
| "err_message (DBOSDebuggerError msg) = ''DEBUGGER: '' @ msg"
| "err_message (DBOSNonExistentWorkflowError msg) = msg"
| "err_message (DBOSFailLoadOperationsError msg) = msg"
| "err_message (DBOSDeadLetterQueueError workflowUUID maxRetries) =
     ''Workflow '' @ workflowUUID @ '' has been moved to the dead-letter queue after exceeding the maximum of '' @
     nat_str maxRetries @ '' retries''"
| "err_message (DBOSFailedSqlTransactionError workflowUUID txnName) =
     ''Postgres aborted the '' @ txnName @ '' transaction of Workflow '' @ workflowUUID @ ''.''"
| "err_message (DatabaseError pe) = pe_message pe"
| "err_message (OtherError je) = je_message je"
| "err_message Diverges = []"

text \<open>The codes of \<open>error.ts\<close>, under the names of its constants.\<close>

definition WorkflowPermissionDeniedError :: nat where "WorkflowPermissionDeniedError = 2"
definition TopicPermissionDeniedError :: nat where "TopicPermissionDeniedError = 4"
definition ConflictingUUIDError :: nat where "ConflictingUUIDError = 5"
definition NotRegisteredError :: nat where "NotRegisteredError = 6"
definition DataValidationError :: nat where "DataValidationError = 9"

lemmas error_codes = WorkflowPermissionDeniedError_def TopicPermissionDeniedError_def
  ConflictingUUIDError_def NotRegisteredError_def DataValidationError_def

text \<open>\<open>dbosErrorCode\<close> is a field of \<open>DBOSError\<close> and its subclasses only.\<close>

fun dbosErrorCode :: "jserror \<Rightarrow> nat option" where
  "dbosErrorCode (DBOSError _ code) = Some code"
| "dbosErrorCode (DBOSWorkflowPermissionDeniedError _ _) = Some WorkflowPermissionDeniedError"
| "dbosErrorCode (DBOSInitializationError _) = Some 3"
| "dbosErrorCode (DBOSTopicPermissionDeniedError _ _ _ _) = Some TopicPermissionDeniedError"
| "dbosErrorCode (DBOSWorkflowConflictUUIDError _) = Some ConflictingUUIDError"
| "dbosErrorCode (DBOSNotRegisteredError _) = Some NotRegisteredError"
| "dbosErrorCode (DBOSPostgresExporterError _) = Some 7"
| "dbosErrorCode (DBOSDataValidationError _) = Some DataValidationError"
| "dbosErrorCode (DBOSResponseError _ _) = Some 11"
| "dbosErrorCode (DBOSNotAuthorizedError _ _) = Some 12"
| "dbosErrorCode (DBOSUndefinedDecoratorInputError _) = Some 13"
| "dbosErrorCode (DBOSConfigKeyTypeError _ _ _) = Some 14"
| "dbosErrorCode (DBOSDebuggerError _) = Some 15"
| "dbosErrorCode (DBOSNonExistentWorkflowError _) = Some 16"
| "dbosErrorCode (DBOSFailLoadOperationsError _) = Some 17"
| "dbosErrorCode (DBOSDeadLetterQueueError _ _) = Some 18"
| "dbosErrorCode (DBOSFailedSqlTransactionError _ _) = Some 19"
| "dbosErrorCode _ = None"

definition isClientError :: "nat \<Rightarrow> bool" where
  "isClientError code \<longleftrightarrow>
     code = DataValidationError \<or> code = WorkflowPermissionDeniedError \<or>
     code = TopicPermissionDeniedError \<or> code = ConflictingUUIDError \<or>
     code = NotRegisteredError"

text \<open>\<open>error.status\<close>: set by \<open>DBOSResponseError\<close> and \<open>DBOSNotAuthorizedError\<close>, or by the application.\<close>

fun err_status :: "jserror \<Rightarrow> nat option" where
  "err_status (DBOSResponseError _ st) = Some st"
| "err_status (DBOSNotAuthorizedError _ st) = Some st"
| "err_status (OtherError je) = je_status je"
| "err_status _ = None"

section \<open>Errors raised by Postgres and by the runtime\<close>

definition pg_err :: "string \<Rightarrow> jserror" where
  "pg_err code = DatabaseError \<lparr>pe_message = code, pe_severity = None, pe_code = Some code,
     pe_detail = None, pe_hint = None, pe_position = None, pe_internalPosition = None,
     pe_internalQuery = None, pe_where = None, pe_schema = None, pe_table = None,
     pe_column = None, pe_dataType = None, pe_constraint = None, pe_file = None, pe_line = None\<rparr>"

abbreviation unique_violation :: jserror where "unique_violation \<equiv> pg_err ''23505''"
abbreviation foreign_key_violation :: jserror where "foreign_key_violation \<equiv> pg_err ''23503''"
abbreviation serialization_failure :: jserror where "serialization_failure \<equiv> pg_err ''40001''"
abbreviation undefined_column :: jserror where "undefined_column \<equiv> pg_err ''42703''"

definition runtime_error :: "string \<Rightarrow> string \<Rightarrow> jserror" where
  "runtime_error nm msg = OtherError \<lparr>je_name = nm, je_message = msg, je_status = None,
     je_code = None, je_meta_code = None, je_driver_code = None\<rparr>"

text \<open>\<open>(error as DatabaseError).code\<close>, a property read that any error object allows.\<close>

fun error_code :: "jserror \<Rightarrow> string option" where
  "error_code (DatabaseError pe) = pe_code pe"
| "error_code (OtherError je) = je_code je"
| "error_code _ = None"

lemma error_code_pg_err [simp]: "error_code (pg_err c) = Some c"
  by (simp add: pg_err_def)

lemma pg_err_neq [simp]: "pg_err c \<noteq> DBOSWorkflowConflictUUIDError w"
  "DBOSWorkflowConflictUUIDError w \<noteq> pg_err c" "pg_err c \<noteq> Diverges"
  by (simp_all add: pg_err_def)

lemma pg_err_inject [simp]: "pg_err a = pg_err b \<longleftrightarrow> a = b"
  by (simp add: pg_err_def)

lemma isClientError_cases:
  "isClientError c \<longleftrightarrow> c \<in> {2, 4, 5, 6, 9}"
  by (auto simp: isClientError_def error_codes)

end
