(* ===== verification/Dates.thy ===== *)
theory Dates
  imports Prelude "HOL-Library.Monad_Syntax"
begin

text \<open>
  The part of ECMAScript's \<open>Date\<close> the program uses: \<open>toISOString\<close> of a time value (milliseconds
  since 1970-01-01 UTC) and \<open>Date.parse\<close> of the string it prints. A workflow input or output
  that holds a date is stored as such a string, and the identifier of a scheduled workflow
  contains one. The main fact is \<open>iso_roundtrip\<close>: parsing what \<open>toISOString\<close> prints gives
  the time back, so \<open>toISOString\<close> is injective on the range of valid time values.
\<close>

section \<open>Days and civil dates\<close>

text \<open>
  The proleptic Gregorian calendar, counted in eras of 400 years that start on March 1st. An
  era is four centuries of 36524 days (the last has one more), a century is 25 cycles of four
  years of 1461 days (the last may lack a day), a cycle is four years of 365 days (the last
  has one more). \<open>mp\<close> is the month counted from March.
\<close>

definition era_year :: "int \<Rightarrow> int \<times> int" where
  "era_year doe =
     (let c = min 3 (doe div 36524); r = doe - 36524 * c;
          q = r div 1461; s = r - 1461 * q;
          y = min 3 (s div 365)
      in (100 * c + 4 * q + y, s - 365 * y))"

definition month_of :: "int \<Rightarrow> int" where
  "month_of mp = (if mp < 10 then mp + 3 else mp - 9)"

definition civil_from_days :: "int \<Rightarrow> int \<times> int \<times> int" where
  "civil_from_days z =
     (let z = z + 719468; era = z div 146097;
          (yoe, doy) = era_year (z mod 146097);
          mp = (5 * doy + 2) div 153; d = doy - (153 * mp + 2) div 5 + 1; m = month_of mp
      in (yoe + era * 400 + (if m \<le> 2 then 1 else 0), m, d))"

definition days_from_civil :: "int \<Rightarrow> int \<Rightarrow> int \<Rightarrow> int" where
  "days_from_civil y m d =
     (let y = (if m \<le> 2 then y - 1 else y); era = y div 400; yoe = y mod 400;
          mp = (if m > 2 then m - 3 else m + 9);
          doy = (153 * mp + 2) div 5 + d - 1;
          doe = yoe * 365 + yoe div 4 - yoe div 100 + doy
      in era * 146097 + doe - 719468)"

lemma era_year_correct:
  assumes "0 \<le> doe" "doe < 146097" and e: "era_year doe = (yoe, doy)"
  shows "0 \<le> yoe" "yoe < 400" "0 \<le> doy" "doy \<le> 365"
    "yoe * 365 + yoe div 4 - yoe div 100 + doy = doe"
proof -
  define c r where "c = min 3 (doe div 36524)" and "r = doe - 36524 * c"
  define q s where "q = r div 1461" and "s = r - 1461 * q"
  define y where "y = min 3 (s div 365)"
  have yoe: "yoe = 100 * c + 4 * q + y" and doy: "doy = s - 365 * y"
    using e by (auto simp: era_year_def c_def r_def q_def s_def y_def Let_def)
  have c: "0 \<le> c" "c \<le> 3" and r: "0 \<le> r" "r \<le> 36524"
    using assms(1,2) unfolding r_def c_def by (auto simp: min_def)
  have q: "0 \<le> q" "q \<le> 24" and s: "0 \<le> s" "s \<le> 1460"
    using r unfolding q_def s_def by auto
  have y: "0 \<le> y" "y \<le> 3" and d: "0 \<le> s - 365 * y" "s - 365 * y \<le> 365"
    using s unfolding y_def by (auto simp: min_def)
  show "0 \<le> yoe" "yoe < 400" using yoe c q y by auto
  show "0 \<le> doy" "doy \<le> 365" using doy d by auto
  have "yoe div 4 = 25 * c + q" "yoe div 100 = c" using yoe c q y by auto
  then show "yoe * 365 + yoe div 4 - yoe div 100 + doy = doe"
    using yoe doy by (simp add: s_def r_def)
qed

lemma civil_months:
  assumes "civil_from_days z = (y, m, d)"
  shows "1 \<le> m \<and> m \<le> 12 \<and> 1 \<le> d \<and> d \<le> 31 \<and> days_from_civil y m d = z"
proof -
  define era doe where "era = (z + 719468) div 146097" and "doe = (z + 719468) mod 146097"
  have doe: "0 \<le> doe" "doe < 146097" by (auto simp: doe_def)
  obtain yoe doy where e: "era_year doe = (yoe, doy)" by (cases "era_year doe")
  note b = era_year_correct [OF doe e]
  define mp where "mp = (5 * doy + 2) div 153"
  have mp: "0 \<le> mp" "mp \<le> 11" using b(3,4) by (auto simp: mp_def)
  have m: "m = month_of mp" and d: "d = doy - (153 * mp + 2) div 5 + 1"
    and y: "y = yoe + era * 400 + (if m \<le> 2 then 1 else 0)"
    using assms by (auto simp: civil_from_days_def Let_def era_def doe_def [symmetric] e mp_def)
  have mm: "1 \<le> m" "m \<le> 12" "(if m > 2 then m - 3 else m + 9) = mp"
    using mp by (auto simp: m month_of_def)
  define k where "k = (153 * mp + 2) div 5"
  have "153 * mp \<le> 5 * doy + 2" "5 * doy + 2 < 153 * mp + 153" by (auto simp: mp_def)
  moreover have "5 * k \<le> 153 * mp + 2" "153 * mp + 2 < 5 * k + 5" by (auto simp: k_def)
  ultimately have dd: "1 \<le> d" "d \<le> 31" by (auto simp: d k_def [symmetric])
  have yy: "(if m \<le> 2 then y - 1 else y) = yoe + era * 400" using y by auto
  have "(yoe + era * 400) div 400 = era" "(yoe + era * 400) mod 400 = yoe"
    using b(1,2) by auto
  then have "days_from_civil y m d = era * 146097 + doe - 719468"
    using b(5) unfolding days_from_civil_def Let_def mm(3) yy d by simp
  also have "\<dots> = z" by (simp add: era_def doe_def)
  finally show ?thesis using mm dd by simp
qed

section \<open>toISOString\<close>

fun padn :: "nat \<Rightarrow> nat \<Rightarrow> string" where
  "padn 0 n = []"
| "padn (Suc k) n = padn k (n div 10) @ [digit (n mod 10)]"

definition iso_year :: "int \<Rightarrow> string" where
  "iso_year y =
     (if 0 \<le> y \<and> y \<le> 9999 then padn 4 (nat y)
      else if y < 0 then CHR ''-'' # padn 6 (nat (- y)) else CHR ''+'' # padn 6 (nat y))"

definition toISOString :: "int \<Rightarrow> string" where
  "toISOString t =
     (let (y, m, d) = civil_from_days (t div 86400000); r = nat (t mod 86400000)
      in iso_year y @ ''-'' @ padn 2 (nat m) @ ''-'' @ padn 2 (nat d) @ ''T'' @
         padn 2 (r div 3600000) @ '':'' @ padn 2 (r div 60000 mod 60) @ '':'' @
         padn 2 (r div 1000 mod 60) @ ''.'' @ padn 3 (r mod 1000) @ ''Z'')"

text \<open>Valid time values span 100 million days on each side of the epoch (ECMA-262).\<close>

definition valid_time :: "int \<Rightarrow> bool" where
  "valid_time t \<longleftrightarrow> \<bar>t\<bar> \<le> 8640000000000000"

section \<open>Date.parse of the ISO format\<close>

fun take_digits :: "nat \<Rightarrow> nat \<Rightarrow> string \<Rightarrow> (nat \<times> string) option" where
  "take_digits 0 acc s = Some (acc, s)"
| "take_digits (Suc k) acc [] = None"
| "take_digits (Suc k) acc (c # s) =
     (case digit_val c of None \<Rightarrow> None | Some d \<Rightarrow> take_digits k (10 * acc + d) s)"

fun expect :: "char \<Rightarrow> string \<Rightarrow> string option" where
  "expect c [] = None"
| "expect c (x # s) = (if x = c then Some s else None)"

fun take_year :: "string \<Rightarrow> (int \<times> string) option" where
  "take_year [] = None"
| "take_year (c # s) =
     (if c = CHR ''+'' then map_option (apfst int) (take_digits 6 0 s)
      else if c = CHR ''-'' then map_option (apfst (\<lambda>n. - int n)) (take_digits 6 0 s)
      else map_option (apfst int) (take_digits 4 0 (c # s)))"

definition iso_parse :: "string \<Rightarrow> int option" where
  "iso_parse s = do {
     (y, s) \<leftarrow> take_year s; s \<leftarrow> expect (CHR ''-'') s;
     (m, s) \<leftarrow> take_digits 2 0 s; s \<leftarrow> expect (CHR ''-'') s;
     (d, s) \<leftarrow> take_digits 2 0 s; s \<leftarrow> expect (CHR ''T'') s;
     (h, s) \<leftarrow> take_digits 2 0 s; s \<leftarrow> expect (CHR '':'') s;
     (mi, s) \<leftarrow> take_digits 2 0 s; s \<leftarrow> expect (CHR '':'') s;
     (se, s) \<leftarrow> take_digits 2 0 s; s \<leftarrow> expect (CHR ''.'') s;
     (ms, s) \<leftarrow> take_digits 3 0 s; s \<leftarrow> expect (CHR ''Z'') s;
     if s = [] \<and> 1 \<le> m \<and> m \<le> 12 \<and> 1 \<le> d \<and> d \<le> 31 \<and> h < 24 \<and> mi < 60 \<and> se < 60
     then Some (days_from_civil y (int m) (int d) * 86400000 +
                int (h * 3600000 + mi * 60000 + se * 1000 + ms))
     else None }"

lemma take_digits_padn:
  "n < 10 ^ k \<Longrightarrow> take_digits (k + j) acc (padn k n @ s) = take_digits j (acc * 10 ^ k + n) s"
proof (induction k arbitrary: n acc j s)
  case 0
  then show ?case by simp
next
  case (Suc k)
  then have "n div 10 < 10 ^ k" by (simp add: less_mult_imp_div_less mult.commute)
  with Suc.IH [of "n div 10" "Suc j" acc "digit (n mod 10) # s"] show ?case
    by (simp add: algebra_simps)
qed

lemma take_digits_pad: "n < 10 ^ k \<Longrightarrow> take_digits k 0 (padn k n @ s) = Some (n, s)"
  using take_digits_padn [of n k 0 0 s] by simp

lemma padn_cons: "n < 10 ^ Suc k \<Longrightarrow> \<exists>c cs. padn (Suc k) n = c # cs \<and> digit_val c \<noteq> None"
proof (induction k arbitrary: n)
  case 0
  then show ?case by simp
next
  case (Suc k)
  then have "n div 10 < 10 ^ Suc k" by (simp add: less_mult_imp_div_less mult.commute)
  from Suc.IH [OF this] obtain c cs
    where "padn (Suc k) (n div 10) = c # cs" "digit_val c \<noteq> None" by blast
  moreover have "padn (Suc (Suc k)) n = padn (Suc k) (n div 10) @ [digit (n mod 10)]"
    by (rule padn.simps(2))
  ultimately show ?case by auto
qed

lemma take_year_iso:
  assumes "\<bar>y\<bar> < 1000000"
  shows "take_year (iso_year y @ s) = Some (y, s)"
proof (cases "0 \<le> y \<and> y \<le> 9999")
  case True
  then have n: "nat y < 10 ^ 4" by (auto simp: nat_less_iff)
  from padn_cons [of "nat y" 3] n
  have "\<exists>c cs. padn 4 (nat y) = c # cs \<and> digit_val c \<noteq> None" by (simp del: padn.simps)
  then obtain c cs where c: "padn 4 (nat y) = c # cs" "digit_val c \<noteq> None" by blast
  then have "c \<noteq> CHR ''+''" "c \<noteq> CHR ''-''" by (auto simp: digit_val_def)
  moreover have "take_digits 4 0 ((c # cs) @ s) = Some (nat y, s)"
    using take_digits_pad [OF n, of s] c(1) by simp
  ultimately show ?thesis using True by (simp add: iso_year_def c(1) del: take_digits.simps)
next
  case False
  then have "take_digits 6 0 (padn 6 (nat \<bar>y\<bar>) @ s) = Some (nat \<bar>y\<bar>, s)"
    using assms by (intro take_digits_pad) simp
  with False show ?thesis
    by (auto simp: iso_year_def simp del: padn.simps take_digits.simps)
qed

lemma civil_year_bound:
  assumes "civil_from_days z = (y, m, d)" "\<bar>z\<bar> \<le> 100000000"
  shows "\<bar>y\<bar> < 1000000"
proof -
  obtain yoe doy where e: "era_year ((z + 719468) mod 146097) = (yoe, doy)"
    by (cases "era_year ((z + 719468) mod 146097)")
  have b: "0 \<le> yoe" "yoe < 400" using era_year_correct [OF _ _ e] by auto
  define era where "era = (z + 719468) div 146097"
  have y: "y = yoe + era * 400 \<or> y = yoe + era * 400 + 1"
    using assms(1) by (auto simp: civil_from_days_def Let_def e era_def)
  have "-2000 < era" "era < 2000" using assms(2) unfolding era_def by linarith+
  with b y show ?thesis by auto
qed

lemma iso_parse_parts:
  assumes "\<bar>y\<bar> < 1000000" "1 \<le> m" "m \<le> 12" "1 \<le> d" "d \<le> 31"
    "h < 24" "mi < 60" "se < 60" "ms < 1000"
  shows "iso_parse (iso_year y @ ''-'' @ padn 2 m @ ''-'' @ padn 2 d @ ''T'' @ padn 2 h @ '':'' @
      padn 2 mi @ '':'' @ padn 2 se @ ''.'' @ padn 3 ms @ ''Z'') =
    Some (days_from_civil y (int m) (int d) * 86400000 +
      int (h * 3600000 + mi * 60000 + se * 1000 + ms))"
proof -
  have p2: "take_digits 2 0 (padn 2 n @ s) = Some (n, s)" if "n < 100" for n s
    using that by (intro take_digits_pad) simp
  have p3: "take_digits 3 0 (padn 3 n @ s) = Some (n, s)" if "n < 1000" for n s
    using that by (intro take_digits_pad) simp
  show ?thesis
    using assms by (simp add: iso_parse_def take_year_iso p2 p3 del: padn.simps take_digits.simps)
qed

lemma mixed_radix:
  fixes r :: nat
  assumes "c * 60 + y = b" "b * 60 + x = a" "a * 1000 + z = r"
  shows "c * 3600000 + y * 60000 + x * 1000 + z = r"
  using assms by auto

lemma day_parts:
  fixes r :: nat
  shows "r div 3600000 * 3600000 + r div 60000 mod 60 * 60000 + r div 1000 mod 60 * 1000 + r mod 1000 = r"
proof -
  have m: "r div 60000 = r div 1000 div 60" by (simp add: div_mult2_eq [symmetric])
  have h: "r div 3600000 = r div 1000 div 60 div 60" by (simp add: div_mult2_eq [symmetric])
  show ?thesis
    unfolding h m by (rule mixed_radix [OF div_mult_mod_eq div_mult_mod_eq div_mult_mod_eq])
qed

theorem iso_roundtrip:
  assumes "valid_time t"
  shows "iso_parse (toISOString t) = Some t"
proof -
  obtain y m d where c: "civil_from_days (t div 86400000) = (y, m, d)"
    by (cases "civil_from_days (t div 86400000)")
  note cm = civil_months [OF c]
  have "\<bar>t div 86400000\<bar> \<le> 100000000"
    using assms unfolding valid_time_def by linarith
  then have yb: "\<bar>y\<bar> < 1000000" by (rule civil_year_bound [OF c])
  define r where "r = nat (t mod 86400000)"
  have "r < 86400000" by (simp add: r_def nat_less_iff)
  then have h: "r div 3600000 < 24" by (simp add: div_less_iff_less_mult)
  have md: "1 \<le> nat m" "nat m \<le> 12" "1 \<le> nat d" "nat d \<le> 31" using cm by auto
  have "iso_parse (toISOString t) = Some (days_from_civil y (int (nat m)) (int (nat d)) * 86400000 +
      int (r div 3600000 * 3600000 + r div 60000 mod 60 * 60000 + r div 1000 mod 60 * 1000 + r mod 1000))"
    unfolding toISOString_def c Let_def prod.case r_def [symmetric]
    by (rule iso_parse_parts [OF yb md h]) auto
  also have "\<dots> = Some (days_from_civil y (int (nat m)) (int (nat d)) * 86400000 + int r)"
    by (simp only: day_parts)
  also have "\<dots> = Some t" using cm by (simp add: r_def)
  finally show ?thesis .
qed

corollary toISOString_inject:
  assumes "valid_time s" "valid_time t"
  shows "toISOString s = toISOString t \<longleftrightarrow> s = t"
  using iso_roundtrip [OF assms(1)] iso_roundtrip [OF assms(2)] by (metis option.inject)

end
