(* ===== verification/Json.thy ===== *)
theory Json
  imports Errors Dates
begin

text \<open>
  Serialization (\<open>src/src/utils.ts\<close>): what \<open>DBOSJSON.stringify\<close> writes into a text column and what
  \<open>DBOSJSON.parse\<close> reads back. A JavaScript value is a \<open>jsval\<close>; the text is represented by its
  syntax tree \<open>json\<close>, and a column is a tree or SQL \<open>NULL\<close> (which the client library also writes
  for \<open>undefined\<close>, and which \<open>JSON.parse\<close> reads as \<open>null\<close>). Numbers are the finite ones.
  The main fact is \<open>json_roundtrip\<close>: a storable value is read back as it was written.
\<close>

datatype jsval =
    JUndefined | JNull | JBool bool | JNum rat | JStr string
  | JArr "jsval list" | JObj "(string \<times> jsval) list"
  | JDate "int option" \<comment> \<open>the time value; \<open>None\<close> is NaN, an invalid date\<close>
  | JBigInt int | JBuffer "nat list"

datatype json =
  Null | Bool bool | Num rat | Str string | Arr "json list" | Obj "(string \<times> json) list"

type_synonym column = "json option"

text \<open>
  What is not part of the repository: Node's \<open>Buffer.from\<close>, the implementation-defined part of
  \<open>Date.parse\<close> and of \<open>BigInt\<close>, and the \<open>serialize-error\<close> package.
\<close>

record runtime =
  bufferFrom :: "jsval \<Rightarrow> jserror + nat list"
  dateParseOther :: "jsval \<Rightarrow> int option"
  bigIntOther :: "jsval \<Rightarrow> jserror + int"
  serializeError :: "jserror \<Rightarrow> jsval"
  deserializeError :: "jsval \<Rightarrow> jserror"

section \<open>Writing\<close>

fun toJSON :: "jsval \<Rightarrow> jsval" where
  "toJSON (JDate None) = JNull"
| "toJSON (JDate (Some t)) = JStr (toISOString t)"
| "toJSON (JBuffer bs) = JObj [(''type'', JStr ''Buffer''), (''data'', JArr (map (JNum \<circ> of_nat) bs))]"
| "toJSON v = v"

text \<open>\<open>actualValue\<close> is \<open>this[key]\<close>; \<open>value\<close> is what \<open>JSON.stringify\<close> made of it with \<open>toJSON\<close>.\<close>

fun DBOSReplacer :: "jsval \<Rightarrow> jsval \<Rightarrow> jserror + jsval" where
  "DBOSReplacer (JDate None) value = Inl (runtime_error ''RangeError'' ''Invalid time value'')"
| "DBOSReplacer (JDate (Some t)) value =
     Inr (JObj [(''dbos_type'', JStr ''dbos_Date''), (''dbos_data'', JStr (toISOString t))])"
| "DBOSReplacer (JBigInt n) value =
     Inr (JObj [(''dbos_type'', JStr ''dbos_BigInt''), (''dbos_data'', JStr (int_str n))])"
| "DBOSReplacer actualValue value = Inr value"

text \<open>The replacer is called at every node; it leaves arrays and objects as they are.\<close>

fun replace_all :: "jsval \<Rightarrow> jserror + jsval" where
  "replace_all (JArr xs) = bindR (traverse replace_all xs) (\<lambda>ys. Inr (JArr ys))"
| "replace_all (JObj kvs) =
     bindR (traverse (\<lambda>(k, v). bindR (replace_all v) (\<lambda>w. Inr (k, w))) kvs) (\<lambda>ys. Inr (JObj ys))"
| "replace_all v = DBOSReplacer v (toJSON v)"

text \<open>
  Serialization of replaced values: \<open>undefined\<close> has no text of its own, is \<open>null\<close> in an array and
  is left out of an object.
\<close>

fun jtext :: "jsval \<Rightarrow> json option" where
  "jtext JNull = Some Null"
| "jtext (JBool b) = Some (Bool b)"
| "jtext (JNum q) = Some (Num q)"
| "jtext (JStr s) = Some (Str s)"
| "jtext (JArr xs) = Some (Arr (map (\<lambda>x. case jtext x of None \<Rightarrow> Null | Some j \<Rightarrow> j) xs))"
| "jtext (JObj kvs) =
     Some (Obj (concat (map (\<lambda>(k, x). case jtext x of None \<Rightarrow> [] | Some j \<Rightarrow> [(k, j)]) kvs)))"
| "jtext _ = None"

definition stringify :: "jsval \<Rightarrow> jserror + column" where
  "stringify v = bindR (replace_all v) (\<lambda>w. Inr (jtext w))"

lemma traverse_Inl: "traverse f xs = Inl e \<Longrightarrow> \<exists>x \<in> set xs. f x = Inl e"
  by (induction xs) (auto simp: bindR_def split: sum.splits)

lemma replace_all_error: "replace_all v = Inl e \<Longrightarrow> e = runtime_error ''RangeError'' ''Invalid time value''"
proof (induction v)
  case (JArr xs)
  then show ?case by (auto simp: bindR_def dest!: traverse_Inl split: sum.splits)
next
  case (JObj kvs)
  then show ?case by (fastforce simp: bindR_def dest!: traverse_Inl split: sum.splits)
next
  case (JDate t)
  then show ?case by (cases t) auto
qed auto

text \<open>The only error of writing is an invalid date.\<close>

lemma stringify_error: "stringify v = Inl e \<Longrightarrow> e = runtime_error ''RangeError'' ''Invalid time value''"
  by (auto simp: stringify_def bindR_def dest: replace_all_error split: sum.splits)

section \<open>Reading\<close>

fun getProp :: "jsval \<Rightarrow> string \<Rightarrow> jsval" where
  "getProp (JObj kvs) k = (case map_of kvs k of None \<Rightarrow> JUndefined | Some v \<Rightarrow> v)"
| "getProp _ k = JUndefined"

definition isSerializedBuffer :: "jsval \<Rightarrow> bool" where
  "isSerializedBuffer v \<longleftrightarrow> getProp v ''type'' = JStr ''Buffer''"

definition isSerializedDate :: "jsval \<Rightarrow> bool" where
  "isSerializedDate v \<longleftrightarrow> getProp v ''dbos_type'' = JStr ''dbos_Date''"

definition isSerializedBigInt :: "jsval \<Rightarrow> bool" where
  "isSerializedBigInt v \<longleftrightarrow> getProp v ''dbos_type'' = JStr ''dbos_BigInt''"

definition dateParse :: "runtime \<Rightarrow> jsval \<Rightarrow> int option" where
  "dateParse rt v = (case v of
     JStr s \<Rightarrow> (case iso_parse s of Some t \<Rightarrow> Some t | None \<Rightarrow> dateParseOther rt v)
   | _ \<Rightarrow> dateParseOther rt v)"

definition int_of_str :: "string \<Rightarrow> int option" where
  "int_of_str s = (case s of
     [] \<Rightarrow> None
   | c # cs \<Rightarrow> if c = CHR ''-'' then map_option (\<lambda>n. - int n) (nat_of_str cs)
               else map_option int (nat_of_str s))"

definition bigInt :: "runtime \<Rightarrow> jsval \<Rightarrow> jserror + int" where
  "bigInt rt v = (case v of
     JStr s \<Rightarrow> (case int_of_str s of Some n \<Rightarrow> Inr n | None \<Rightarrow> bigIntOther rt v)
   | _ \<Rightarrow> bigIntOther rt v)"

definition DBOSReviver :: "runtime \<Rightarrow> jsval \<Rightarrow> jserror + jsval" where
  "DBOSReviver rt value =
     (if isSerializedBuffer value then bindR (bufferFrom rt (getProp value ''data'')) (\<lambda>bs. Inr (JBuffer bs))
      else if isSerializedDate value then Inr (JDate (dateParse rt (getProp value ''dbos_data'')))
      else if isSerializedBigInt value then bindR (bigInt rt (getProp value ''dbos_data'')) (\<lambda>n. Inr (JBigInt n))
      else Inr value)"

text \<open>\<open>JSON.parse\<close> calls the reviver bottom-up.\<close>

fun revive :: "runtime \<Rightarrow> json \<Rightarrow> jserror + jsval" where
  "revive rt Null = DBOSReviver rt JNull"
| "revive rt (Bool b) = DBOSReviver rt (JBool b)"
| "revive rt (Num q) = DBOSReviver rt (JNum q)"
| "revive rt (Str s) = DBOSReviver rt (JStr s)"
| "revive rt (Arr xs) = bindR (traverse (revive rt) xs) (\<lambda>ys. DBOSReviver rt (JArr ys))"
| "revive rt (Obj kvs) =
     bindR (traverse (\<lambda>(k, j). bindR (revive rt j) (\<lambda>v. Inr (k, v))) kvs) (\<lambda>ys. DBOSReviver rt (JObj ys))"

definition parse :: "runtime \<Rightarrow> column \<Rightarrow> jserror + jsval" where
  "parse rt col = (case col of None \<Rightarrow> revive rt Null | Some j \<Rightarrow> revive rt j)"

section \<open>Round trip\<close>

text \<open>
  \<open>storable\<close>: no \<open>undefined\<close> inside, dates valid, bytes in range, and no plain object that looks
  like the encoding of a buffer, date or big integer.
\<close>

fun storable :: "jsval \<Rightarrow> bool" where
  "storable JUndefined = False"
| "storable (JArr xs) = (\<forall>x \<in> set xs. storable x)"
| "storable (JObj kvs) =
     ((\<forall>(k, v) \<in> set kvs. storable v) \<and> \<not> isSerializedBuffer (JObj kvs) \<and>
      \<not> isSerializedDate (JObj kvs) \<and> \<not> isSerializedBigInt (JObj kvs))"
| "storable (JDate t) = (case t of None \<Rightarrow> False | Some n \<Rightarrow> valid_time n)"
| "storable (JBuffer bs) = (\<forall>b \<in> set bs. b < 256)"
| "storable v = True"

text \<open>Documented behaviour of Node: a buffer made of an array of bytes holds those bytes.\<close>

definition node_buffers :: "runtime \<Rightarrow> bool" where
  "node_buffers rt \<longleftrightarrow>
     (\<forall>bs. (\<forall>b \<in> set bs. b < 256) \<longrightarrow> bufferFrom rt (JArr (map (JNum \<circ> of_nat) bs)) = Inr bs)"

lemma int_of_str_int_str [simp]: "int_of_str (int_str n) = Some n"
proof (cases "n < 0")
  case True
  then show ?thesis by (simp add: int_of_str_def int_str_def)
next
  case False
  then obtain c cs where c: "nat_str (nat n) = c # cs" by (cases "nat_str (nat n)") auto
  then have "c \<noteq> CHR ''-''" using nat_str_no_minus [of "nat n"] by auto
  moreover have "nat_of_str (c # cs) = Some (nat n)" using nat_of_str_nat_str [of "nat n"] c by simp
  ultimately show ?thesis using False c by (simp add: int_of_str_def int_str_def)
qed

lemma reviver_plain:
  "\<not> isSerializedBuffer v \<Longrightarrow> \<not> isSerializedDate v \<Longrightarrow> \<not> isSerializedBigInt v \<Longrightarrow> DBOSReviver rt v = Inr v"
  by (simp add: DBOSReviver_def)

lemmas serialized_defs = isSerializedBuffer_def isSerializedDate_def isSerializedBigInt_def

lemma reviver_scalar [simp]:
  "DBOSReviver rt JNull = Inr JNull" "DBOSReviver rt (JBool b) = Inr (JBool b)"
  "DBOSReviver rt (JNum q) = Inr (JNum q)" "DBOSReviver rt (JStr s) = Inr (JStr s)"
  "DBOSReviver rt (JArr xs) = Inr (JArr xs)"
  by (simp_all add: reviver_plain serialized_defs)

text \<open>What one storable value is written as, and that reading it gives the value.\<close>

definition writes :: "runtime \<Rightarrow> jsval \<Rightarrow> bool" where
  "writes rt v \<longleftrightarrow> (\<exists>w j. replace_all v = Inr w \<and> jtext w = Some j \<and> revive rt j = Inr v)"

lemma writes_list:
  assumes "\<And>x. x \<in> set xs \<Longrightarrow> writes rt x"
  shows "\<exists>ws js. traverse replace_all xs = Inr ws \<and> map jtext ws = map Some js \<and>
    traverse (revive rt) js = Inr xs"
  using assms
proof (induction xs)
  case Nil
  show ?case by simp
next
  case (Cons x xs)
  from Cons.IH Cons.prems obtain ws js where t: "traverse replace_all xs = Inr ws"
    "map jtext ws = map Some js" "traverse (revive rt) js = Inr xs" by auto
  from Cons.prems [of x] obtain w j where h: "replace_all x = Inr w" "jtext w = Some j" "revive rt j = Inr x"
    by (auto simp: writes_def)
  have "traverse replace_all (x # xs) = Inr (w # ws)" "map jtext (w # ws) = map Some (j # js)"
    "traverse (revive rt) (j # js) = Inr (x # xs)"
    using t h by simp_all
  then show ?case by blast
qed

lemma writes_fields:
  assumes "\<And>k x. (k, x) \<in> set kvs \<Longrightarrow> writes rt x"
  shows "\<exists>ws js. traverse (\<lambda>(k, v). bindR (replace_all v) (\<lambda>w. Inr (k, w))) kvs = Inr ws \<and>
    concat (map (\<lambda>(k, x). case jtext x of None \<Rightarrow> [] | Some j \<Rightarrow> [(k, j)]) ws) = js \<and>
    traverse (\<lambda>(k, j). bindR (revive rt j) (\<lambda>v. Inr (k, v))) js = Inr kvs"
  using assms
proof (induction kvs)
  case Nil
  show ?case by simp
next
  case (Cons p kvs)
  obtain k x where p: "p = (k, x)" by (cases p)
  from Cons.IH Cons.prems obtain ws js where t:
    "traverse (\<lambda>(k, v). bindR (replace_all v) (\<lambda>w. Inr (k, w))) kvs = Inr ws"
    "concat (map (\<lambda>(k, x). case jtext x of None \<Rightarrow> [] | Some j \<Rightarrow> [(k, j)]) ws) = js"
    "traverse (\<lambda>(k, j). bindR (revive rt j) (\<lambda>v. Inr (k, v))) js = Inr kvs" by fastforce
  from Cons.prems [of k x] p obtain w j
    where "replace_all x = Inr w" "jtext w = Some j" "revive rt j = Inr x"
    by (auto simp: writes_def)
  with t p show ?case by (intro exI [of _ "(k, w) # ws"] exI [of _ "(k, j) # js"]) simp
qed

lemma writes_buffer:
  assumes "node_buffers rt" "\<forall>b \<in> set bs. b < 256"
  shows "writes rt (JBuffer bs)"
proof -
  have q: "map (\<lambda>x. case jtext x of None \<Rightarrow> Null | Some j \<Rightarrow> j) (map (JNum \<circ> of_nat) bs) = map (Num \<circ> of_nat) bs"
    by simp
  have t: "traverse (revive rt) (map (Num \<circ> of_nat) bs) = Inr (map (JNum \<circ> of_nat) bs)"
    by (induction bs) simp_all
  have "bufferFrom rt (JArr (map (JNum \<circ> of_nat) bs)) = Inr bs"
    using assms by (simp add: node_buffers_def)
  then show ?thesis
    using q t by (simp add: writes_def DBOSReviver_def serialized_defs comp_def)
qed

lemma storable_writes:
  assumes "node_buffers rt"
  shows "storable v \<Longrightarrow> writes rt v"
proof (induction v)
  case (JArr xs)
  then have "\<And>x. x \<in> set xs \<Longrightarrow> writes rt x" by simp
  from writes_list [OF this] obtain ws js where t: "traverse replace_all xs = Inr ws"
    "map jtext ws = map Some js" "traverse (revive rt) js = Inr xs" by blast
  have "map (\<lambda>x. case jtext x of None \<Rightarrow> Null | Some j \<Rightarrow> j) ws = js"
    using arg_cong [OF t(2), of "map (\<lambda>z. case z of None \<Rightarrow> Null | Some j \<Rightarrow> j)"] by (simp add: comp_def)
  with t show ?case by (simp add: writes_def)
next
  case (JObj kvs)
  then have w: "\<And>k x. (k, x) \<in> set kvs \<Longrightarrow> writes rt x" by fastforce
  obtain ws js where t:
    "traverse (\<lambda>(k, v). bindR (replace_all v) (\<lambda>w. Inr (k, w))) kvs = Inr ws"
    "concat (map (\<lambda>(k, x). case jtext x of None \<Rightarrow> [] | Some j \<Rightarrow> [(k, j)]) ws) = js"
    "traverse (\<lambda>(k, j). bindR (revive rt j) (\<lambda>v. Inr (k, v))) js = Inr kvs"
    using writes_fields [of kvs rt] w by blast
  moreover have "DBOSReviver rt (JObj kvs) = Inr (JObj kvs)"
    using JObj.prems by (simp add: reviver_plain)
  ultimately show ?case by (simp add: writes_def)
next
  case (JDate t)
  then show ?case
    by (auto simp: writes_def DBOSReviver_def serialized_defs dateParse_def iso_roundtrip split: option.splits)
next
  case (JBigInt n)
  show ?case by (simp add: writes_def DBOSReviver_def serialized_defs bigInt_def)
next
  case (JBuffer bs)
  then show ?case using writes_buffer [OF assms] by simp
qed (simp_all add: writes_def)

lemma stringify_storable:
  assumes "node_buffers rt" "storable v"
  obtains j where "stringify v = Inr (Some j)" "parse rt (Some j) = Inr v"
  using storable_writes [OF assms] by (auto simp: writes_def stringify_def parse_def)

lemma parse_stringify:
  assumes "node_buffers rt" "storable v"
  shows "bindR (stringify v) (parse rt) = Inr v"
  using stringify_storable [OF assms] by (metis bindR_simps(2))

lemma stringify_undefined [simp]: "stringify JUndefined = Inr None"
  by (simp add: stringify_def)

lemma parse_null [simp]: "parse rt None = Inr JNull"
  by (simp add: parse_def)

text \<open>A concrete runtime, for evaluation: buffers from arrays of bytes; errors keep their message.\<close>

definition byte_of :: "jsval \<Rightarrow> jserror + nat" where
  "byte_of v = (case v of JNum q \<Rightarrow> Inr (nat \<lfloor>q\<rfloor> mod 256) | _ \<Rightarrow> Inr 0)"

definition demo_rt :: runtime where
  "demo_rt = \<lparr>
     bufferFrom = (\<lambda>v. case v of JArr xs \<Rightarrow> traverse byte_of xs | _ \<Rightarrow> Inl (runtime_error ''TypeError'' ''first argument'')),
     dateParseOther = (\<lambda>_. None),
     bigIntOther = (\<lambda>_. Inl (runtime_error ''SyntaxError'' ''Cannot convert to a BigInt'')),
     serializeError = (\<lambda>e. JObj [(''name'', JStr ''Error''), (''message'', JStr (err_message e))]),
     deserializeError = (\<lambda>v. case getProp v ''message'' of
        JStr m \<Rightarrow> runtime_error ''Error'' m | _ \<Rightarrow> runtime_error ''NonError'' [])\<rparr>"

lemma demo_node_buffers: "node_buffers demo_rt"
proof -
  have "traverse byte_of (map (JNum \<circ> of_nat) bs) = Inr bs" if "\<forall>b \<in> set bs. b < 256" for bs
    using that by (induction bs) (simp_all add: byte_of_def)
  then show ?thesis by (simp add: node_buffers_def demo_rt_def)
qed

section \<open>Plain JSON\<close>

text \<open>\<open>JSON.stringify\<close> without a replacer, up to the text, and \<open>JSON.parse\<close> without a reviver.\<close>

fun plain_all :: "jsval \<Rightarrow> jserror + jsval" where
  "plain_all (JArr xs) = bindR (traverse plain_all xs) (\<lambda>ys. Inr (JArr ys))"
| "plain_all (JObj kvs) =
     bindR (traverse (\<lambda>(k, v). bindR (plain_all v) (\<lambda>w. Inr (k, w))) kvs) (\<lambda>ys. Inr (JObj ys))"
| "plain_all (JBigInt n) = Inl (runtime_error ''TypeError'' ''Do not know how to serialize a BigInt'')"
| "plain_all v = Inr (toJSON v)"

fun plain_parse :: "json \<Rightarrow> jsval" where
  "plain_parse Null = JNull"
| "plain_parse (Bool b) = JBool b"
| "plain_parse (Num q) = JNum q"
| "plain_parse (Str s) = JStr s"
| "plain_parse (Arr xs) = JArr (map plain_parse xs)"
| "plain_parse (Obj kvs) = JObj (map (\<lambda>(k, j). (k, plain_parse j)) kvs)"

end
