(* ===== verification/Tables.thy ===== *)
theory Tables
  imports Prelude
begin

text \<open>
  Relational tables as lists of rows in insertion order. A \<open>SELECT\<close> filters, an \<open>UPDATE\<close> maps,
  a \<open>DELETE\<close> filters out, \<open>INSERT \<dots> ON CONFLICT DO UPDATE\<close> is \<open>row_upsert\<close>. Where the program
  gives no \<open>ORDER BY\<close>, rows come in insertion order, one of the orders Postgres may choose.

  The locale \<open>pk_table\<close> is what a client of a table with a primary key relies on. Its lemmas
  are the frame facts the components use, and it is interpreted on these functions for every
  table of the system database whose rows are scanned (\<open>workflow_status\<close>, \<open>workflow_queue\<close>).
\<close>

definition row_find :: "('r \<Rightarrow> 'k) \<Rightarrow> 'k \<Rightarrow> 'r list \<Rightarrow> 'r option" where
  "row_find key k rows = find (\<lambda>r. key r = k) rows"

definition row_update :: "('r \<Rightarrow> 'k) \<Rightarrow> 'k \<Rightarrow> ('r \<Rightarrow> 'r) \<Rightarrow> 'r list \<Rightarrow> 'r list" where
  "row_update key k f rows = map (\<lambda>r. if key r = k then f r else r) rows"

definition row_upsert :: "('r \<Rightarrow> 'k) \<Rightarrow> 'r \<Rightarrow> ('r \<Rightarrow> 'r) \<Rightarrow> 'r list \<Rightarrow> 'r list" where
  "row_upsert key r f rows =
     (if row_find key (key r) rows = None then rows @ [r] else row_update key (key r) f rows)"

definition row_delete :: "('r \<Rightarrow> 'k) \<Rightarrow> 'k \<Rightarrow> 'r list \<Rightarrow> 'r list" where
  "row_delete key k rows = filter (\<lambda>r. key r \<noteq> k) rows"

definition pk :: "('r \<Rightarrow> 'k) \<Rightarrow> 'r list \<Rightarrow> bool" where
  "pk key rows \<longleftrightarrow> distinct (map key rows)"

locale pk_table =
  fixes key :: "'r \<Rightarrow> 'k"
    and lookup :: "'k \<Rightarrow> 't \<Rightarrow> 'r option"
    and update :: "'k \<Rightarrow> ('r \<Rightarrow> 'r) \<Rightarrow> 't \<Rightarrow> 't"
    and upsert :: "'r \<Rightarrow> ('r \<Rightarrow> 'r) \<Rightarrow> 't \<Rightarrow> 't"
    and remove :: "'k \<Rightarrow> 't \<Rightarrow> 't"
    and wf :: "'t \<Rightarrow> bool"
  assumes lookup_key: "lookup k t = Some r \<Longrightarrow> key r = k"
    and lookup_update: "(\<And>r. key (f r) = key r) \<Longrightarrow>
      lookup k' (update k f t) = (if k' = k then map_option f (lookup k t) else lookup k' t)"
    and lookup_upsert: "(\<And>r. key (f r) = key r) \<Longrightarrow>
      lookup k' (upsert r f t) =
        (if k' = key r then Some (case lookup (key r) t of None \<Rightarrow> r | Some r' \<Rightarrow> f r') else lookup k' t)"
    and lookup_remove: "lookup k' (remove k t) = (if k' = k then None else lookup k' t)"
    and wf_update: "wf t \<Longrightarrow> (\<And>r. key (f r) = key r) \<Longrightarrow> wf (update k f t)"
    and wf_upsert: "wf t \<Longrightarrow> (\<And>r. key (f r) = key r) \<Longrightarrow> wf (upsert r f t)"
    and wf_remove: "wf t \<Longrightarrow> wf (remove k t)"
begin

definition present :: "'k \<Rightarrow> 't \<Rightarrow> bool" where
  "present k t \<longleftrightarrow> lookup k t \<noteq> None"

lemma present_update: "(\<And>r. key (f r) = key r) \<Longrightarrow> present k' (update k f t) = present k' t"
  by (auto simp: present_def lookup_update)

lemma present_upsert: "(\<And>r. key (f r) = key r) \<Longrightarrow> present k' (upsert r f t) = (k' = key r \<or> present k' t)"
  by (auto simp: present_def lookup_upsert)

text \<open>Upserting the same row twice is upserting it and then updating it.\<close>

lemma upsert_upsert:
  assumes "\<And>r. key (f r) = key r"
  shows "lookup k' (upsert r f (upsert r f t)) = lookup k' (update (key r) f (upsert r f t))"
  using assms by (auto simp: lookup_upsert lookup_update)

end

lemma row_find_update:
  "(\<And>r. key (f r) = key r) \<Longrightarrow>
   row_find key k' (row_update key k f t) = (if k' = k then map_option f (row_find key k t) else row_find key k' t)"
  by (induction t) (auto simp: row_find_def row_update_def)

lemma row_find_append: "row_find key k (t @ [r]) = (case row_find key k t of None \<Rightarrow> if key r = k then Some r else None | Some x \<Rightarrow> Some x)"
  by (induction t) (auto simp: row_find_def)

lemma row_find_upsert:
  assumes "\<And>r. key (f r) = key r"
  shows "row_find key k' (row_upsert key r f t) =
    (if k' = key r then Some (case row_find key (key r) t of None \<Rightarrow> r | Some r' \<Rightarrow> f r') else row_find key k' t)"
  using assms by (auto simp: row_upsert_def row_find_append row_find_update split: option.splits)

lemma row_find_delete: "row_find key k' (row_delete key k t) = (if k' = k then None else row_find key k' t)"
  by (induction t) (auto simp: row_find_def row_delete_def)

lemma row_find_key: "row_find key k t = Some r \<Longrightarrow> key r = k"
  by (auto simp: row_find_def find_Some_iff)

lemma row_find_in: "row_find key k t = Some r \<Longrightarrow> r \<in> set t"
  by (auto simp: row_find_def find_Some_iff)

lemma row_find_None: "row_find key k t = None \<longleftrightarrow> k \<notin> key ` set t"
  by (auto simp: row_find_def find_None_iff)

lemma keys_update: "(\<And>r. key (f r) = key r) \<Longrightarrow> map key (row_update key k f t) = map key t"
  by (simp add: row_update_def)

lemma pk_update: "pk key t \<Longrightarrow> (\<And>r. key (f r) = key r) \<Longrightarrow> pk key (row_update key k f t)"
  unfolding pk_def by (subst keys_update) auto

lemma pk_upsert: "pk key t \<Longrightarrow> (\<And>r. key (f r) = key r) \<Longrightarrow> pk key (row_upsert key r f t)"
  by (auto simp: row_upsert_def pk_update row_find_None) (auto simp: pk_def)

lemma pk_delete: "pk key t \<Longrightarrow> pk key (row_delete key k t)"
  by (simp add: pk_def row_delete_def distinct_map_filter)

lemma pk_filter: "pk key t \<Longrightarrow> pk key (filter P t)"
  by (simp add: pk_def distinct_map_filter)

lemma pk_row_find: "pk key t \<Longrightarrow> r \<in> set t \<Longrightarrow> row_find key (key r) t = Some r"
  by (induction t) (auto simp: pk_def row_find_def)

lemma pk_table_rows: "pk_table key (row_find key) (row_update key) (row_upsert key) (row_delete key) (pk key)"
  by (rule pk_table.intro)
    (fact row_find_key row_find_update row_find_upsert row_find_delete pk_update pk_upsert pk_delete)+

end
