(* ===== verification/OpStore.thy ===== *)
theory OpStore
  imports Prelude
begin

text \<open>
  The contract of the operation log, on which every durable operation of a workflow relies: look an
  operation up by workflow and function number, record its output or its error once. \<open>recorded\<close>
  is the abstract content, \<open>canon\<close> and \<open>canonE\<close> what a value and an error are after a round trip
  through storage. \<open>once\<close> is the protocol of the program: look up, otherwise run and record.
  The contract is interpreted on the Postgres system database in \<open>SysDb\<close>, on the one over FoundationDB in
  \<open>Fdb\<close> and, lifted to the state of a workflow, in \<open>WfContext\<close>.
\<close>

locale op_store =
  fixes check :: "'u \<Rightarrow> 'f \<Rightarrow> ('s, 'e, 'v option) em"
    and record_out :: "'u \<Rightarrow> 'f \<Rightarrow> 'v \<Rightarrow> ('s, 'e, unit) em"
    and record_err :: "'u \<Rightarrow> 'f \<Rightarrow> 'e \<Rightarrow> ('s, 'e, unit) em"
    and recorded :: "'s \<Rightarrow> 'u \<times> 'f \<rightharpoonup> 'e + 'v"
    and canon :: "'v \<Rightarrow> 'e + 'v"
    and canonE :: "'e \<Rightarrow> 'e + 'v"
    and conflict :: "'u \<Rightarrow> 'e"
  assumes check_absent: "recorded s (u, f) = None \<Longrightarrow> check u f s = (Inr None, s)"
    and check_value: "recorded s (u, f) = Some (Inr v) \<Longrightarrow> check u f s = (Inr (Some v), s)"
    and check_error: "recorded s (u, f) = Some (Inl e) \<Longrightarrow> check u f s = (Inl e, s)"
    and record_out_ok: "record_out u f v s = (Inr x, t) \<Longrightarrow> recorded t = (recorded s)((u, f) \<mapsto> canon v)"
    and record_err_ok: "record_err u f e s = (Inr x, t) \<Longrightarrow> recorded t = (recorded s)((u, f) \<mapsto> canonE e)"
    and record_out_fails: "record_out u f v s = (Inl e, t) \<Longrightarrow> t = s"
    and record_err_fails: "record_err u f e s = (Inl e', t) \<Longrightarrow> t = s"
    and record_out_conflict: "recorded s (u, f) \<noteq> None \<Longrightarrow> canon v = Inr v' \<Longrightarrow>
      record_out u f v s = (Inl (conflict u), s)"
begin

definition once :: "'u \<Rightarrow> 'f \<Rightarrow> ('s, 'e, 'v) em \<Rightarrow> ('s, 'e, 'v) em" where
  "once u f body =
     bindE (check u f) (\<lambda>c. case c of
       Some v \<Rightarrow> retE v
     | None \<Rightarrow> (\<lambda>s. case body s of
         (Inr v, s') \<Rightarrow> seqE (record_out u f v) (retE v) s'
       | (Inl e, s') \<Rightarrow> seqE (record_err u f e) (raiseE e) s'))"

lemma once_recorded: "recorded s (u, f) = Some r \<Longrightarrow> once u f body s = (r, s)"
  by (cases r) (auto simp: once_def check_value check_error em_simps)

lemma once_fresh:
  assumes "recorded s (u, f) = None" "body s = (Inr v, s')" "record_out u f v s' = (Inr x, t)"
  shows "once u f body s = (Inr v, t)" "recorded t (u, f) = Some (canon v)"
  using assms by (auto simp: once_def check_absent em_simps dest: record_out_ok)

lemma once_fresh_error:
  assumes "recorded s (u, f) = None" "body s = (Inl e, s')" "record_err u f e s' = (Inr x, t)"
  shows "once u f body s = (Inl e, t)" "recorded t (u, f) = Some (canonE e)"
  using assms by (auto simp: once_def check_absent em_simps dest: record_err_ok)

text \<open>A completed operation is never run again, whatever the second body would do.\<close>

lemma once_twice:
  assumes "once u f body s = (Inr v, t)" and "canon v = Inr v"
  shows "once u f body' t = (Inr v, t)"
proof (cases "recorded s (u, f)")
  case None
  then obtain v' s' where b: "body s = (Inr v', s')"
    using assms(1) by (cases "body s"; cases "fst (body s)")
      (auto simp: once_def check_absent em_simps split: prod.splits sum.splits)
  then obtain x where "record_out u f v' s' = (Inr x, t)" "v' = v"
    using assms(1) None by (auto simp: once_def check_absent em_simps split: prod.splits sum.splits)
  then have "recorded t (u, f) = Some (Inr v)"
    using once_fresh(2) [of s u f body v' s' x t] None b assms(2) by simp
  then show ?thesis by (rule once_recorded)
next
  case (Some r)
  from once_recorded [OF this] assms(1) have "t = s" "r = Inr v" by auto
  with Some show ?thesis using once_recorded by blast
qed

end

end
