(* ===== verification/SysDb.thy ===== *)
theory SysDb
  imports Json Tables OpStore
begin

text \<open>
  The system database (\<open>src/src/system_database.ts\<close>, class \<open>PostgresSystemDatabase\<close>; tables from
  \<open>src/schemas/system_db_schema.ts\<close> and the migrations): its tables, the buffers the class keeps in
  memory, and the operations on workflow status, inputs, operation outputs and scheduler state.
  A SQL statement is one atomic change; \<open>now\<close> is the clock both \<open>Date.now()\<close> and the
  database's \<open>now()\<close> read. Messages, events and queues are in \<open>Messaging\<close> and \<open>Queues\<close>.
\<close>

type_synonym uuid = string

datatype status = PENDING | SUCCESS | ERROR | RETRIES_EXCEEDED | CANCELLED | ENQUEUED

fun statusString :: "status \<Rightarrow> string" where
  "statusString PENDING = ''PENDING''"
| "statusString SUCCESS = ''SUCCESS''"
| "statusString ERROR = ''ERROR''"
| "statusString RETRIES_EXCEEDED = ''RETRIES_EXCEEDED''"
| "statusString CANCELLED = ''CANCELLED''"
| "statusString ENQUEUED = ''ENQUEUED''"

record WorkflowStatusInternal =
  wsi_workflowUUID :: uuid
  wsi_status :: status
  wsi_name :: string
  wsi_className :: string
  wsi_configName :: string
  wsi_queueName :: "string option"
  wsi_authenticatedUser :: string
  wsi_output :: jsval
  wsi_error :: column \<comment> \<open>serialized error\<close>
  wsi_assumedRole :: string
  wsi_authenticatedRoles :: "string list"
  wsi_request :: jsval
  wsi_executorID :: string
  wsi_applicationVersion :: string
  wsi_applicationID :: string
  wsi_createdAt :: int
  wsi_maxRetries :: nat
  wsi_recovery :: bool

record workflow_status_row =
  ws_workflow_uuid :: uuid
  ws_status :: status
  ws_name :: string
  ws_class_name :: "string option"
  ws_config_name :: "string option"
  ws_queue_name :: "string option"
  ws_authenticated_user :: string
  ws_assumed_role :: string
  ws_authenticated_roles :: column
  ws_request :: column
  ws_output :: column
  ws_error :: column
  ws_executor_id :: string
  ws_application_version :: string
  ws_application_id :: string
  ws_created_at :: int
  ws_updated_at :: int
  ws_recovery_attempts :: nat

record operation_outputs_row =
  oo_output :: column
  oo_error :: column

record notifications_row =
  nt_destination_uuid :: uuid
  nt_topic :: string
  nt_message :: column
  nt_created_at_epoch_ms :: int

record workflow_queue_row =
  wq_workflow_uuid :: uuid
  wq_queue_name :: string
  wq_created_at_epoch_ms :: int
  wq_started_at_epoch_ms :: "int option"
  wq_completed_at_epoch_ms :: "int option"

record sysdb =
  workflow_status :: "workflow_status_row list"
  operation_outputs :: "uuid \<times> nat \<rightharpoonup> operation_outputs_row"
  workflow_inputs :: "uuid \<rightharpoonup> column"
  notifications :: "notifications_row list"
  workflow_events :: "uuid \<times> string \<rightharpoonup> column"
  scheduler_state :: "string \<rightharpoonup> int"
  workflow_queue :: "workflow_queue_row list"
  workflowStatusBuffer :: "(uuid, WorkflowStatusInternal) jmap"
  workflowInputsBuffer :: "(uuid, jsval list) jmap"
  now :: int

definition empty_sysdb :: "int \<Rightarrow> sysdb" where
  "empty_sysdb t = \<lparr>workflow_status = [], operation_outputs = Map.empty, workflow_inputs = Map.empty,
     notifications = [], workflow_events = Map.empty, scheduler_state = Map.empty, workflow_queue = [],
     workflowStatusBuffer = [], workflowInputsBuffer = [], now = t\<rparr>"

abbreviation find_wf :: "uuid \<Rightarrow> sysdb \<Rightarrow> workflow_status_row option" where
  "find_wf u db \<equiv> row_find ws_workflow_uuid u (workflow_status db)"

definition update_wf :: "uuid \<Rightarrow> (workflow_status_row \<Rightarrow> workflow_status_row) \<Rightarrow> sysdb \<Rightarrow> sysdb" where
  "update_wf u f db = db\<lparr>workflow_status := row_update ws_workflow_uuid u f (workflow_status db)\<rparr>"

definition upsert_wf :: "workflow_status_row \<Rightarrow> (workflow_status_row \<Rightarrow> workflow_status_row) \<Rightarrow> sysdb \<Rightarrow> sysdb" where
  "upsert_wf r f db = db\<lparr>workflow_status := row_upsert ws_workflow_uuid r f (workflow_status db)\<rparr>"

interpretation ws: pk_table ws_workflow_uuid "row_find ws_workflow_uuid" "row_update ws_workflow_uuid"
  "row_upsert ws_workflow_uuid" "row_delete ws_workflow_uuid" "pk ws_workflow_uuid"
  by (rule pk_table_rows)

interpretation wq: pk_table wq_workflow_uuid "row_find wq_workflow_uuid" "row_update wq_workflow_uuid"
  "row_upsert wq_workflow_uuid" "row_delete wq_workflow_uuid" "pk wq_workflow_uuid"
  by (rule pk_table_rows)

section \<open>Workflow status and inputs\<close>

definition roles_val :: "string list \<Rightarrow> jsval" where
  "roles_val rs = JArr (map JStr rs)"

text \<open>The row every \<open>INSERT INTO workflow_status\<close> of the class writes; the columns a statement
  leaves out are filled by their defaults.\<close>

definition status_row ::
    "WorkflowStatusInternal \<Rightarrow> status \<Rightarrow> column \<Rightarrow> column \<Rightarrow> column \<Rightarrow> column \<Rightarrow> int \<Rightarrow> workflow_status_row" where
  "status_row st status roles req output error updated = \<lparr>
     ws_workflow_uuid = wsi_workflowUUID st, ws_status = status, ws_name = wsi_name st,
     ws_class_name = Some (wsi_className st), ws_config_name = Some (wsi_configName st),
     ws_queue_name = wsi_queueName st, ws_authenticated_user = wsi_authenticatedUser st,
     ws_assumed_role = wsi_assumedRole st, ws_authenticated_roles = roles, ws_request = req,
     ws_output = output, ws_error = error, ws_executor_id = wsi_executorID st,
     ws_application_version = wsi_applicationVersion st, ws_application_id = wsi_applicationID st,
     ws_created_at = wsi_createdAt st, ws_updated_at = updated, ws_recovery_attempts = 0\<rparr>"

definition checkWorkflowOutput :: "runtime \<Rightarrow> uuid \<Rightarrow> (sysdb, jsval option) meth" where
  "checkWorkflowOutput rt u =
     bindE (getsE (find_wf u)) (\<lambda>row. case row of
       None \<Rightarrow> retE None
     | Some r \<Rightarrow>
         if ws_status r = PENDING then retE None
         else if ws_status r = ERROR then
           bindE (liftE (parse rt (ws_error r))) (\<lambda>v. raiseE (deserializeError rt v))
         else bindE (liftE (parse rt (ws_output r))) (\<lambda>v. retE (Some v)))"

definition arr_of :: "jsval \<Rightarrow> jsval list" where
  "arr_of v = (case v of JArr xs \<Rightarrow> xs | _ \<Rightarrow> [])"

text \<open>\<open>INSERT INTO workflow_inputs \<dots> ON CONFLICT DO UPDATE \<dots> RETURNING inputs\<close>: the inputs recorded
  first stay, and are returned.\<close>

definition insert_input :: "uuid \<Rightarrow> column \<Rightarrow> (sysdb, column) meth" where
  "insert_input u c = (\<lambda>db. case workflow_inputs db u of
     Some c' \<Rightarrow> (Inr c', db)
   | None \<Rightarrow> if find_wf u db = None then (Inl foreign_key_violation, db)
       else (Inr c, db\<lparr>workflow_inputs := (workflow_inputs db)(u \<mapsto> c)\<rparr>))"

definition initWorkflowStatus :: "runtime \<Rightarrow> WorkflowStatusInternal \<Rightarrow> jsval list \<Rightarrow> (sysdb, jsval list) meth" where
  "initWorkflowStatus rt initStatus args =
     bindE (liftE (stringify (roles_val (wsi_authenticatedRoles initStatus)))) (\<lambda>roles.
     bindE (liftE (stringify (wsi_request initStatus))) (\<lambda>req.
     bindE (getsE now) (\<lambda>t.
     seqE (modifyE (upsert_wf (status_row initStatus (wsi_status initStatus) roles req None None t)
            (\<lambda>r. r\<lparr>ws_recovery_attempts :=
                   (if wsi_recovery initStatus then ws_recovery_attempts r + 1 else ws_recovery_attempts r)\<rparr>)))
     (bindE (getsE (\<lambda>db. case find_wf (wsi_workflowUUID initStatus) db of None \<Rightarrow> 0 | Some r \<Rightarrow> ws_recovery_attempts r))
       (\<lambda>recovery_attempts.
     if wsi_maxRetries initStatus \<le> recovery_attempts \<and> wsi_recovery initStatus then
       seqE (modifyE (update_wf (wsi_workflowUUID initStatus)
              (\<lambda>r. if ws_status r = PENDING then r\<lparr>ws_status := RETRIES_EXCEEDED\<rparr> else r)))
            (raiseE (DBOSDeadLetterQueueError (wsi_workflowUUID initStatus) (wsi_maxRetries initStatus)))
     else
       bindE (liftE (stringify (JArr args))) (\<lambda>inputs.
       bindE (insert_input (wsi_workflowUUID initStatus) inputs) (\<lambda>c.
       bindE (liftE (parse rt c)) (\<lambda>v. retE (arr_of v)))))))))"

definition bufferWorkflowOutput :: "uuid \<Rightarrow> WorkflowStatusInternal \<Rightarrow> (sysdb, unit) meth" where
  "bufferWorkflowOutput u status =
     modifyE (\<lambda>db. db\<lparr>workflowStatusBuffer := jm_set u status (workflowStatusBuffer db)\<rparr>)"

definition recordWorkflowError :: "uuid \<Rightarrow> WorkflowStatusInternal \<Rightarrow> (sysdb, unit) meth" where
  "recordWorkflowError u status =
     bindE (liftE (stringify (roles_val (wsi_authenticatedRoles status)))) (\<lambda>roles.
     bindE (liftE (stringify (wsi_request status))) (\<lambda>req.
     bindE (getsE now) (\<lambda>t.
     modifyE (upsert_wf ((status_row status ERROR roles req None (wsi_error status) t)\<lparr>ws_workflow_uuid := u\<rparr>)
       (\<lambda>r. r\<lparr>ws_status := ERROR, ws_error := wsi_error status, ws_updated_at := t\<rparr>)))))"

definition getPendingWorkflows :: "string \<Rightarrow> (sysdb, uuid list) meth" where
  "getPendingWorkflows executorID =
     getsE (\<lambda>db. map ws_workflow_uuid
       (filter (\<lambda>r. ws_status r = PENDING \<and> ws_executor_id r = executorID) (workflow_status db)))"

definition bufferWorkflowInputs :: "uuid \<Rightarrow> jsval list \<Rightarrow> (sysdb, unit) meth" where
  "bufferWorkflowInputs u args =
     modifyE (\<lambda>db. db\<lparr>workflowInputsBuffer := jm_set u args (workflowInputsBuffer db)\<rparr>)"

definition getWorkflowInputs :: "runtime \<Rightarrow> uuid \<Rightarrow> (sysdb, jsval list option) meth" where
  "getWorkflowInputs rt u =
     bindE (getsE (\<lambda>db. workflow_inputs db u)) (\<lambda>row. case row of
       None \<Rightarrow> retE None
     | Some c \<Rightarrow> bindE (liftE (parse rt c)) (\<lambda>v. retE (Some (arr_of v))))"

definition setWorkflowStatus :: "uuid \<Rightarrow> status \<Rightarrow> bool \<Rightarrow> (sysdb, unit) meth" where
  "setWorkflowStatus u status resetRecoveryAttempts =
     seqE (modifyE (update_wf u (\<lambda>r. r\<lparr>ws_status := status\<rparr>)))
          (whenE resetRecoveryAttempts (modifyE (update_wf u (\<lambda>r. r\<lparr>ws_recovery_attempts := 0\<rparr>))))"

section \<open>Operation outputs\<close>

text \<open>
  \<open>INSERT INTO operation_outputs\<close>: the primary key is (workflow, function), and the workflow must
  have a status row.
\<close>

definition insert_op :: "uuid \<Rightarrow> nat \<Rightarrow> operation_outputs_row \<Rightarrow> (sysdb, unit) meth" where
  "insert_op u fid row = (\<lambda>db.
     if operation_outputs db (u, fid) \<noteq> None then (Inl unique_violation, db)
     else if find_wf u db = None then (Inl foreign_key_violation, db)
     else (Inr (), db\<lparr>operation_outputs := (operation_outputs db)((u, fid) \<mapsto> row)\<rparr>))"

definition checkOperationOutput :: "runtime \<Rightarrow> uuid \<Rightarrow> nat \<Rightarrow> (sysdb, jsval option) meth" where
  "checkOperationOutput rt u fid =
     bindE (getsE (\<lambda>db. operation_outputs db (u, fid))) (\<lambda>row. case row of
       None \<Rightarrow> retE None
     | Some r \<Rightarrow>
         bindE (liftE (parse rt (oo_error r))) (\<lambda>e.
         if e \<noteq> JNull then raiseE (deserializeError rt e)
         else bindE (liftE (parse rt (oo_output r))) (\<lambda>v. retE (Some v))))"

text \<open>The \<open>catch\<close> block the three recording methods share.\<close>

definition conflict_or_rethrow :: "uuid \<Rightarrow> jserror \<Rightarrow> (sysdb, unit) meth" where
  "conflict_or_rethrow u err =
     (if error_code err = Some ''40001'' \<or> error_code err = Some ''23505''
      then raiseE (DBOSWorkflowConflictUUIDError u) else raiseE err)"

definition recordOperationOutput :: "uuid \<Rightarrow> nat \<Rightarrow> jsval \<Rightarrow> (sysdb, unit) meth" where
  "recordOperationOutput u fid output =
     bindE (liftE (stringify output)) (\<lambda>serialOutput.
     catchE (insert_op u fid \<lparr>oo_output = serialOutput, oo_error = None\<rparr>) (conflict_or_rethrow u))"

definition recordOperationError :: "runtime \<Rightarrow> uuid \<Rightarrow> nat \<Rightarrow> jserror \<Rightarrow> (sysdb, unit) meth" where
  "recordOperationError rt u fid error =
     bindE (liftE (stringify (serializeError rt error))) (\<lambda>serialErr.
     catchE (insert_op u fid \<lparr>oo_output = None, oo_error = serialErr\<rparr>) (conflict_or_rethrow u))"

section \<open>Status and result of a workflow\<close>

record WorkflowStatus =
  wst_status :: status
  wst_workflowName :: string
  wst_workflowClassName :: string
  wst_workflowConfigName :: string
  wst_queueName :: "string option"
  wst_authenticatedUser :: string
  wst_assumedRole :: string
  wst_authenticatedRoles :: jsval
  wst_request :: jsval

text \<open>\<open>x || ""\<close> and \<open>x || undefined\<close> on a nullable text column.\<close>

definition or_empty :: "string option \<Rightarrow> string" where
  "or_empty x = (case x of None \<Rightarrow> [] | Some s \<Rightarrow> s)"

definition or_undefined :: "string option \<Rightarrow> string option" where
  "or_undefined x = (case x of None \<Rightarrow> None | Some s \<Rightarrow> if s = [] then None else Some s)"

definition readWorkflowStatus :: "runtime \<Rightarrow> uuid \<Rightarrow> (sysdb, WorkflowStatus option) meth" where
  "readWorkflowStatus rt u =
     bindE (getsE (find_wf u)) (\<lambda>row. case row of
       None \<Rightarrow> retE None
     | Some r \<Rightarrow>
         bindE (liftE (parse rt (ws_authenticated_roles r))) (\<lambda>roles.
         bindE (liftE (parse rt (ws_request r))) (\<lambda>req.
         retE (Some \<lparr>wst_status = ws_status r, wst_workflowName = ws_name r,
           wst_workflowClassName = or_empty (ws_class_name r),
           wst_workflowConfigName = or_empty (ws_config_name r),
           wst_queueName = or_undefined (ws_queue_name r),
           wst_authenticatedUser = ws_authenticated_user r, wst_assumedRole = ws_assumed_role r,
           wst_authenticatedRoles = roles, wst_request = req\<rparr>))))"

text \<open>The JavaScript object a status is, as it is recorded for a calling workflow.\<close>

definition status_val :: "WorkflowStatus option \<Rightarrow> jsval" where
  "status_val s = (case s of None \<Rightarrow> JNull | Some w \<Rightarrow> JObj [
     (''status'', JStr (statusString (wst_status w))), (''workflowName'', JStr (wst_workflowName w)),
     (''workflowClassName'', JStr (wst_workflowClassName w)),
     (''workflowConfigName'', JStr (wst_workflowConfigName w)),
     (''queueName'', case wst_queueName w of None \<Rightarrow> JUndefined | Some q \<Rightarrow> JStr q),
     (''authenticatedUser'', JStr (wst_authenticatedUser w)), (''assumedRole'', JStr (wst_assumedRole w)),
     (''authenticatedRoles'', wst_authenticatedRoles w), (''request'', wst_request w)])"

definition getWorkflowStatus :: "runtime \<Rightarrow> uuid \<Rightarrow> (uuid \<times> nat) option \<Rightarrow> (sysdb, jsval) meth" where
  "getWorkflowStatus rt u caller =
     bindE (getsE (\<lambda>db. case caller of None \<Rightarrow> None | Some c \<Rightarrow> operation_outputs db c)) (\<lambda>prev. case prev of
       Some r \<Rightarrow> liftE (parse rt (oo_output r))
     | None \<Rightarrow>
         bindE (readWorkflowStatus rt u) (\<lambda>st.
         seqE (case caller of None \<Rightarrow> retE () | Some c \<Rightarrow> recordOperationOutput (fst c) (snd c) (status_val st))
              (retE (status_val st))))"

text \<open>
  The polling loop of \<open>getWorkflowResult\<close>: \<open>others\<close> are the changes other sessions make while it
  sleeps, one per turn; a loop that outlives them never ends.
\<close>

text \<open>
  Node's \<open>setTimeout\<close>, on which \<open>sleepms\<close> of \<open>utils.ts\<close> rests: a delay below 1 or above \<open>2\<^sup>3\<^sup>1 - 1\<close>
  milliseconds becomes 1.
\<close>

definition node_timeout :: "int \<Rightarrow> int" where
  "node_timeout d = (if 1 \<le> d \<and> d \<le> 2147483647 then d else 1)"

lemma node_timeout_pos: "1 \<le> node_timeout d"
  by (simp add: node_timeout_def)

definition sleep_clock :: "int \<Rightarrow> sysdb \<Rightarrow> sysdb" where
  "sleep_clock d db = db\<lparr>now := now db + node_timeout d\<rparr>"

fun getWorkflowResult :: "runtime \<Rightarrow> (sysdb \<Rightarrow> sysdb) list \<Rightarrow> uuid \<Rightarrow> (sysdb, jsval) meth" where
  "getWorkflowResult rt others u =
     bindE (getsE (find_wf u)) (\<lambda>row.
     let again = (case others of [] \<Rightarrow> raiseE Diverges
                  | f # fs \<Rightarrow> seqE (modifyE (f \<circ> sleep_clock 1000)) (getWorkflowResult rt fs u))
     in case row of
       None \<Rightarrow> again
     | Some r \<Rightarrow>
         if ws_status r = SUCCESS then liftE (parse rt (ws_output r))
         else if ws_status r = ERROR then
           bindE (liftE (parse rt (ws_error r))) (\<lambda>v. raiseE (deserializeError rt v))
         else again)"

declare getWorkflowResult.simps [simp del]

section \<open>Scheduler state\<close>

definition getLastScheduledTime :: "string \<Rightarrow> (sysdb, int option) meth" where
  "getLastScheduledTime wfn = getsE (\<lambda>db. scheduler_state db wfn)"

definition setLastScheduledTime :: "string \<Rightarrow> int \<Rightarrow> (sysdb, int) meth" where
  "setLastScheduledTime wfn invtime =
     seqE (modifyE (\<lambda>db. db\<lparr>scheduler_state := (scheduler_state db)(wfn \<mapsto>
             (case scheduler_state db wfn of None \<Rightarrow> invtime | Some t \<Rightarrow> max invtime t))\<rparr>))
          (getsE (\<lambda>db. case scheduler_state db wfn of None \<Rightarrow> invtime | Some t \<Rightarrow> t))"

section \<open>The operation log\<close>

definition decode_op :: "runtime \<Rightarrow> operation_outputs_row \<Rightarrow> jserror + jsval" where
  "decode_op rt r =
     bindR (parse rt (oo_error r)) (\<lambda>e. if e \<noteq> JNull then Inl (deserializeError rt e) else parse rt (oo_output r))"

definition recorded_op :: "runtime \<Rightarrow> sysdb \<Rightarrow> uuid \<times> nat \<rightharpoonup> jserror + jsval" where
  "recorded_op rt db = (\<lambda>k. map_option (decode_op rt) (operation_outputs db k))"

definition canon_val :: "runtime \<Rightarrow> jsval \<Rightarrow> jserror + jsval" where
  "canon_val rt v = bindR (stringify v) (parse rt)"

definition canon_err :: "runtime \<Rightarrow> jserror \<Rightarrow> jserror + jsval" where
  "canon_err rt e =
     bindR (stringify (serializeError rt e)) (\<lambda>c. decode_op rt \<lparr>oo_output = None, oo_error = c\<rparr>)"

lemma checkOperationOutput_eq:
  "checkOperationOutput rt u f db =
     (case recorded_op rt db (u, f) of None \<Rightarrow> (Inr None, db)
      | Some (Inl e) \<Rightarrow> (Inl e, db) | Some (Inr v) \<Rightarrow> (Inr (Some v), db))"
  by (auto simp: checkOperationOutput_def recorded_op_def decode_op_def em_simps bindR_def
      split: option.splits sum.splits)

lemma insert_op_ok:
  "insert_op u f row db = (Inr x, t) \<longleftrightarrow>
     operation_outputs db (u, f) = None \<and> find_wf u db \<noteq> None \<and>
     t = db\<lparr>operation_outputs := (operation_outputs db)((u, f) \<mapsto> row)\<rparr>"
  by (auto simp: insert_op_def)

lemma catch_conflict:
  "catchE (insert_op u f row) (conflict_or_rethrow u) db =
     (if operation_outputs db (u, f) \<noteq> None then (Inl (DBOSWorkflowConflictUUIDError u), db)
      else if find_wf u db = None then (Inl foreign_key_violation, db)
      else (Inr (), db\<lparr>operation_outputs := (operation_outputs db)((u, f) \<mapsto> row)\<rparr>))"
  by (simp add: em_simps insert_op_def conflict_or_rethrow_def)

lemma recordOperationOutput_eq:
  "recordOperationOutput u f v db =
     (case stringify v of Inl e \<Rightarrow> (Inl e, db)
      | Inr c \<Rightarrow> if operation_outputs db (u, f) \<noteq> None then (Inl (DBOSWorkflowConflictUUIDError u), db)
         else if find_wf u db = None then (Inl foreign_key_violation, db)
         else (Inr (), db\<lparr>operation_outputs := (operation_outputs db)((u, f) \<mapsto> \<lparr>oo_output = c, oo_error = None\<rparr>)\<rparr>))"
  unfolding recordOperationOutput_def
  by (simp add: bindE_def liftE_def catch_conflict split: sum.splits)

lemma recordOperationError_eq:
  "recordOperationError rt u f e db =
     (case stringify (serializeError rt e) of Inl e' \<Rightarrow> (Inl e', db)
      | Inr c \<Rightarrow> if operation_outputs db (u, f) \<noteq> None then (Inl (DBOSWorkflowConflictUUIDError u), db)
         else if find_wf u db = None then (Inl foreign_key_violation, db)
         else (Inr (), db\<lparr>operation_outputs := (operation_outputs db)((u, f) \<mapsto> \<lparr>oo_output = None, oo_error = c\<rparr>)\<rparr>))"
  unfolding recordOperationError_def
  by (simp add: bindE_def liftE_def catch_conflict split: sum.splits)

lemma decode_output [simp]: "decode_op rt \<lparr>oo_output = c, oo_error = None\<rparr> = parse rt c"
  by (simp add: decode_op_def)

interpretation pg: op_store "checkOperationOutput rt" recordOperationOutput "recordOperationError rt"
  "recorded_op rt" "canon_val rt" "canon_err rt" DBOSWorkflowConflictUUIDError
  for rt :: runtime
proof unfold_locales
  fix s t u f v v' x e e'
  show "recorded_op rt s (u, f) = None \<Longrightarrow> checkOperationOutput rt u f s = (Inr None, s)"
    and "recorded_op rt s (u, f) = Some (Inr v) \<Longrightarrow> checkOperationOutput rt u f s = (Inr (Some v), s)"
    and "recorded_op rt s (u, f) = Some (Inl e) \<Longrightarrow> checkOperationOutput rt u f s = (Inl e, s)"
    by (simp_all add: checkOperationOutput_eq)
  show "recordOperationOutput u f v s = (Inr x, t) \<Longrightarrow> recorded_op rt t = (recorded_op rt s)((u, f) \<mapsto> canon_val rt v)"
    by (auto simp: recordOperationOutput_eq recorded_op_def canon_val_def fun_eq_iff split: sum.splits if_splits)
  show "recordOperationError rt u f e s = (Inr x, t) \<Longrightarrow> recorded_op rt t = (recorded_op rt s)((u, f) \<mapsto> canon_err rt e)"
    by (auto simp: recordOperationError_eq recorded_op_def canon_err_def fun_eq_iff split: sum.splits if_splits)
  show "recordOperationOutput u f v s = (Inl e, t) \<Longrightarrow> t = s"
    and "recordOperationError rt u f e s = (Inl e', t) \<Longrightarrow> t = s"
    by (auto simp: recordOperationOutput_eq recordOperationError_eq split: sum.splits if_splits)
  show "recorded_op rt s (u, f) \<noteq> None \<Longrightarrow> canon_val rt v = Inr v' \<Longrightarrow>
      recordOperationOutput u f v s = (Inl (DBOSWorkflowConflictUUIDError u), s)"
    by (auto simp: recordOperationOutput_eq recorded_op_def canon_val_def bindR_def split: sum.splits)
qed

section \<open>The invariant of the system database\<close>

text \<open>
  Primary keys of the scanned tables, and the foreign keys of the migrations: operation outputs,
  inputs, messages, events and queue entries belong to workflows that have a status row.
\<close>

definition has_wf :: "sysdb \<Rightarrow> uuid \<Rightarrow> bool" where
  "has_wf db u \<longleftrightarrow> find_wf u db \<noteq> None"

definition sys_ok :: "sysdb \<Rightarrow> bool" where
  "sys_ok db \<longleftrightarrow>
     pk ws_workflow_uuid (workflow_status db) \<and> pk wq_workflow_uuid (workflow_queue db) \<and>
     (\<forall>u f. operation_outputs db (u, f) \<noteq> None \<longrightarrow> has_wf db u) \<and>
     (\<forall>u. workflow_inputs db u \<noteq> None \<longrightarrow> has_wf db u) \<and>
     (\<forall>n \<in> set (notifications db). has_wf db (nt_destination_uuid n)) \<and>
     (\<forall>u k. workflow_events db (u, k) \<noteq> None \<longrightarrow> has_wf db u) \<and>
     (\<forall>q \<in> set (workflow_queue db). has_wf db (wq_workflow_uuid q))"

lemma sys_ok_empty: "sys_ok (empty_sysdb t)"
  by (simp add: sys_ok_def empty_sysdb_def pk_def)

lemma has_wf_update: "(\<And>r. ws_workflow_uuid (f r) = ws_workflow_uuid r) \<Longrightarrow> has_wf (update_wf u f db) v = has_wf db v"
  by (simp add: has_wf_def update_wf_def row_find_update)

lemma has_wf_upsert:
  "(\<And>r. ws_workflow_uuid (f r) = ws_workflow_uuid r) \<Longrightarrow>
   has_wf (upsert_wf r f db) v = (v = ws_workflow_uuid r \<or> has_wf db v)"
  by (auto simp: has_wf_def upsert_wf_def row_find_upsert)

lemma update_wf_frame [simp]:
  "operation_outputs (update_wf u f db) = operation_outputs db" "workflow_inputs (update_wf u f db) = workflow_inputs db"
  "notifications (update_wf u f db) = notifications db" "workflow_events (update_wf u f db) = workflow_events db"
  "workflow_queue (update_wf u f db) = workflow_queue db" "now (update_wf u f db) = now db"
  "scheduler_state (update_wf u f db) = scheduler_state db"
  by (simp_all add: update_wf_def)

lemma upsert_wf_frame [simp]:
  "operation_outputs (upsert_wf r f db) = operation_outputs db" "workflow_inputs (upsert_wf r f db) = workflow_inputs db"
  "notifications (upsert_wf r f db) = notifications db" "workflow_events (upsert_wf r f db) = workflow_events db"
  "workflow_queue (upsert_wf r f db) = workflow_queue db" "now (upsert_wf r f db) = now db"
  "scheduler_state (upsert_wf r f db) = scheduler_state db"
  by (simp_all add: upsert_wf_def)

lemma sys_ok_update:
  assumes "sys_ok db" "\<And>r. ws_workflow_uuid (f r) = ws_workflow_uuid r"
  shows "sys_ok (update_wf u f db)"
proof -
  have "pk ws_workflow_uuid (workflow_status (update_wf u f db))"
    using assms by (simp add: update_wf_def sys_ok_def pk_update)
  with assms show ?thesis by (simp add: sys_ok_def has_wf_update)
qed

lemma sys_ok_upsert:
  assumes "sys_ok db" "\<And>r. ws_workflow_uuid (f r) = ws_workflow_uuid r"
  shows "sys_ok (upsert_wf r f db)"
proof -
  have "pk ws_workflow_uuid (workflow_status (upsert_wf r f db))"
    using assms by (simp add: upsert_wf_def sys_ok_def pk_upsert)
  with assms show ?thesis by (auto simp: sys_ok_def has_wf_upsert)
qed

text \<open>Changes that leave the status table alone and give a row to an existing workflow.\<close>

lemma sys_ok_same_wf:
  assumes "sys_ok db" "workflow_status db' = workflow_status db" "pk wq_workflow_uuid (workflow_queue db')"
    and "\<And>u f. operation_outputs db' (u, f) \<noteq> None \<Longrightarrow> has_wf db u"
    and "\<And>u. workflow_inputs db' u \<noteq> None \<Longrightarrow> has_wf db u"
    and "\<And>n. n \<in> set (notifications db') \<Longrightarrow> has_wf db (nt_destination_uuid n)"
    and "\<And>u k. workflow_events db' (u, k) \<noteq> None \<Longrightarrow> has_wf db u"
    and "\<And>q. q \<in> set (workflow_queue db') \<Longrightarrow> has_wf db (wq_workflow_uuid q)"
  shows "sys_ok db'"
proof -
  have h: "has_wf db' = has_wf db" using assms(2) by (simp add: has_wf_def fun_eq_iff)
  show ?thesis unfolding sys_ok_def h using assms by (simp add: sys_ok_def)
qed

lemma sys_okD:
  assumes "sys_ok db"
  shows "pk ws_workflow_uuid (workflow_status db)" "pk wq_workflow_uuid (workflow_queue db)"
    "operation_outputs db (u, f) = Some x \<Longrightarrow> has_wf db u" "workflow_inputs db u = Some y \<Longrightarrow> has_wf db u"
    "n \<in> set (notifications db) \<Longrightarrow> has_wf db (nt_destination_uuid n)"
    "workflow_events db (u, k) = Some z \<Longrightarrow> has_wf db u"
    "q \<in> set (workflow_queue db) \<Longrightarrow> has_wf db (wq_workflow_uuid q)"
  using assms unfolding sys_ok_def by blast+

lemma sys_ok_put_op:
  assumes ok: "sys_ok db" and u: "has_wf db u"
  shows "sys_ok (db\<lparr>operation_outputs := (operation_outputs db)((u, f) \<mapsto> row)\<rparr>)"
  by (rule sys_ok_same_wf [OF ok]) (auto intro: sys_okD [OF ok] u split: if_splits)

lemma keeps_insert_op [keeps_rules]: "keeps sys_ok (insert_op u f row)"
  by (rule keepsI) (auto simp: insert_op_def has_wf_def intro!: sys_ok_put_op)

lemma keeps_sleep_clock: "sys_ok db \<Longrightarrow> sys_ok (sleep_clock d db)"
  by (rule sys_ok_same_wf) (auto simp: sleep_clock_def intro: sys_okD)

lemma keeps_conflict_or_rethrow [keeps_rules]: "keeps I (conflict_or_rethrow u e)"
  by (auto simp: conflict_or_rethrow_def intro!: keeps_rules)

lemma keeps_recordOperationOutput [keeps_rules]: "keeps sys_ok (recordOperationOutput u f v)"
  and keeps_recordOperationError [keeps_rules]: "keeps sys_ok (recordOperationError rt u f e)"
  unfolding recordOperationOutput_def recordOperationError_def by (intro keeps_rules)+

lemma keeps_upsert_wf:
  "(\<And>r. ws_workflow_uuid (f r) = ws_workflow_uuid r) \<Longrightarrow> keeps sys_ok (modifyE (upsert_wf r f))"
  by (simp add: keeps_modify sys_ok_upsert)

lemma keeps_update_wf:
  "(\<And>r. ws_workflow_uuid (f r) = ws_workflow_uuid r) \<Longrightarrow> keeps sys_ok (modifyE (update_wf u f))"
  by (simp add: keeps_modify sys_ok_update)

lemma keeps_setWorkflowStatus [keeps_rules]: "keeps sys_ok (setWorkflowStatus u st b)"
  unfolding setWorkflowStatus_def by (intro keeps_rules keeps_update_wf) auto

lemma keeps_recordWorkflowError [keeps_rules]: "keeps sys_ok (recordWorkflowError u st)"
  unfolding recordWorkflowError_def by (intro keeps_rules keeps_upsert_wf) auto

lemma keeps_getWorkflowStatus [keeps_rules]: "keeps sys_ok (getWorkflowStatus rt u caller)"
  unfolding getWorkflowStatus_def readWorkflowStatus_def by (intro keeps_rules)

lemma keeps_buffers [keeps_rules]:
  "keeps sys_ok (bufferWorkflowOutput u st)" "keeps sys_ok (bufferWorkflowInputs u args)"
  unfolding bufferWorkflowOutput_def bufferWorkflowInputs_def
  by (rule keeps_modify, rule sys_ok_same_wf, auto intro: sys_okD)+

lemma keeps_setLastScheduledTime [keeps_rules]: "keeps sys_ok (setLastScheduledTime wfn t)"
  unfolding setLastScheduledTime_def
  by (intro keeps_rules keeps_modify, rule sys_ok_same_wf, auto intro: sys_okD)

lemma keeps_insert_input [keeps_rules]: "keeps sys_ok (insert_input u c)"
proof (rule keepsI)
  fix db assume ok: "sys_ok db"
  have "sys_ok (db\<lparr>workflow_inputs := (workflow_inputs db)(u \<mapsto> c)\<rparr>)" if "has_wf db u"
    by (rule sys_ok_same_wf [OF ok]) (auto intro: sys_okD [OF ok] that split: if_splits)
  with ok show "sys_ok (snd (insert_input u c db))"
    by (auto simp: insert_input_def has_wf_def split: option.splits)
qed

lemma keeps_initWorkflowStatus [keeps_rules]: "keeps sys_ok (initWorkflowStatus rt st args)"
  unfolding initWorkflowStatus_def by (intro keeps_rules keeps_upsert_wf keeps_update_wf) auto

lemma keeps_getWorkflowResult:
  "(\<And>f db. f \<in> set others \<Longrightarrow> sys_ok db \<Longrightarrow> sys_ok (f db)) \<Longrightarrow> keeps sys_ok (getWorkflowResult rt others u)"
proof (induction others)
  case Nil
  show ?case by (subst getWorkflowResult.simps) (auto simp: Let_def intro!: keeps_rules)
next
  case (Cons f fs)
  have "keeps sys_ok (modifyE (f \<circ> sleep_clock 1000))"
    by (rule keeps_modify) (simp add: Cons.prems keeps_sleep_clock)
  with Cons show ?case by (subst getWorkflowResult.simps) (auto simp: Let_def intro!: keeps_rules)
qed

section \<open>Starting a workflow\<close>

text \<open>What \<open>initWorkflowStatus\<close> leaves of an existing row: everything but the recovery counter and,
  past the limit, a pending status.\<close>

lemma find_wf_frame [simp]: "find_wf u (db\<lparr>workflow_inputs := x\<rparr>) = find_wf u db"
  by simp

lemma initWorkflowStatus_first:
  assumes "find_wf (wsi_workflowUUID st) db = None" "workflow_inputs db (wsi_workflowUUID st) = None"
    and "\<not> (wsi_recovery st \<and> wsi_maxRetries st = 0)"
    and "stringify (wsi_request st) = Inr req" "stringify (roles_val (wsi_authenticatedRoles st)) = Inr roles"
    and "stringify (JArr args) = Inr c" "parse rt c = Inr (JArr args)"
  shows "initWorkflowStatus rt st args db = (Inr args,
    (upsert_wf (status_row st (wsi_status st) roles req None None (now db)) id db)
      \<lparr>workflow_inputs := (workflow_inputs db)(wsi_workflowUUID st \<mapsto> c)\<rparr>)"
proof -
  have k: "ws_workflow_uuid (status_row st (wsi_status st) roles req None None (now db)) = wsi_workflowUUID st"
    "ws_recovery_attempts (status_row st (wsi_status st) roles req None None (now db)) = 0"
    by (simp_all add: status_row_def)
  show ?thesis using assms k
    by (auto simp: initWorkflowStatus_def em_simps upsert_wf_def row_upsert_def row_find_append
        insert_input_def arr_of_def)
qed

definition attempts_after :: "bool \<Rightarrow> workflow_status_row \<Rightarrow> nat" where
  "attempts_after recovery r = (if recovery then ws_recovery_attempts r + 1 else ws_recovery_attempts r)"

lemma initWorkflowStatus_again:
  assumes f: "find_wf (wsi_workflowUUID st) db = Some r" and c: "workflow_inputs db (wsi_workflowUUID st) = Some c"
    and s: "stringify (wsi_request st) = Inr req" "stringify (roles_val (wsi_authenticatedRoles st)) = Inr roles"
      "stringify (JArr args) = Inr c'" and p: "parse rt c = Inr (JArr args')"
  shows "initWorkflowStatus rt st args db =
    (if wsi_maxRetries st \<le> attempts_after (wsi_recovery st) r \<and> wsi_recovery st
     then (Inl (DBOSDeadLetterQueueError (wsi_workflowUUID st) (wsi_maxRetries st)),
       update_wf (wsi_workflowUUID st) (\<lambda>r. if ws_status r = PENDING then r\<lparr>ws_status := RETRIES_EXCEEDED\<rparr> else r)
        (update_wf (wsi_workflowUUID st) (\<lambda>r. r\<lparr>ws_recovery_attempts := attempts_after (wsi_recovery st) r\<rparr>) db))
     else (Inr args', update_wf (wsi_workflowUUID st) (\<lambda>r. r\<lparr>ws_recovery_attempts := attempts_after (wsi_recovery st) r\<rparr>) db))"
proof -
  let ?u = "wsi_workflowUUID st"
  let ?row = "status_row st (wsi_status st) roles req None None (now db)"
  let ?f = "\<lambda>r. r\<lparr>ws_recovery_attempts := attempts_after (wsi_recovery st) r\<rparr>"
  have k: "ws_workflow_uuid ?row = ?u" by (simp add: status_row_def)
  have u: "upsert_wf ?row ?f db = update_wf ?u ?f db" using f by (simp add: upsert_wf_def update_wf_def row_upsert_def k)
  have g: "find_wf ?u (update_wf ?u ?f db) = Some (?f r)" using f by (simp add: update_wf_def row_find_update)
  show ?thesis
    using s c p by (simp add: initWorkflowStatus_def bindE_def liftE_def getsE_def seqE_def modifyE_def raiseE_def
        retE_def u [unfolded attempts_after_def] g [unfolded attempts_after_def] insert_input_def arr_of_def attempts_after_def)
qed

text \<open>A finished workflow stays finished, whoever starts it again.\<close>

lemma initWorkflowStatus_keeps_final:
  assumes "find_wf u db = Some r" "ws_status r \<noteq> PENDING"
  shows "\<exists>r'. find_wf u (snd (initWorkflowStatus rt st args db)) = Some r' \<and>
    ws_status r' = ws_status r \<and> ws_output r' = ws_output r \<and> ws_error r' = ws_error r"
proof -
  define P where "P = (\<lambda>d. \<exists>r'. find_wf u d = Some r' \<and> ws_status r' = ws_status r \<and> ws_output r' = ws_output r \<and>
      ws_error r' = ws_error r)"
  have up: "P (upsert_wf x (\<lambda>r. r\<lparr>ws_recovery_attempts := g r\<rparr>) d)" if "P d" for x d g
    using that by (auto simp: P_def upsert_wf_def row_find_upsert)
  have up2: "P (update_wf v (\<lambda>r. if ws_status r = PENDING then r\<lparr>ws_status := RETRIES_EXCEEDED\<rparr> else r) d)" if "P d" for v d
  proof -
    from that obtain r' where r': "find_wf u d = Some r'" "ws_status r' = ws_status r" "ws_output r' = ws_output r"
      "ws_error r' = ws_error r" by (auto simp: P_def)
    with assms(2) have "find_wf u (update_wf v (\<lambda>r. if ws_status r = PENDING then r\<lparr>ws_status := RETRIES_EXCEEDED\<rparr> else r) d) = Some r'"
      by (cases "u = v") (simp_all add: update_wf_def row_find_update)
    with r' show ?thesis by (auto simp: P_def)
  qed
  have ins: "keeps P (insert_input v c)" for v c
    by (rule keepsI) (auto simp: insert_input_def P_def split: option.splits)
  have "keeps P (initWorkflowStatus rt st args)" unfolding initWorkflowStatus_def
    by (intro keeps_rules keeps_modify ins up up2)
  moreover have "P db" using assms by (simp add: P_def)
  ultimately show ?thesis unfolding P_def by (rule keepsD)
qed

end
