(* ===== verification/Messaging.thy ===== *)
theory Messaging
  imports SysDb
begin

text \<open>
  Messages, events and durable sleep of \<open>PostgresSystemDatabase\<close>: \<open>sleepms\<close>, \<open>send\<close>, \<open>recv\<close>,
  \<open>setEvent\<close>, \<open>getEvent\<close>, and the listener that wakes their waiters.

  A wait is a race between a notification and a timer. How it ends is a parameter (\<open>wake\<close>): woken
  after some time, or timed out, together with what other sessions committed meanwhile. The timer's
  row in the operation log is written before the wait begins.
\<close>

definition nullTopic :: string where
  "nullTopic = ''__null__topic__''"

definition topic_or_null :: "string option \<Rightarrow> string" where
  "topic_or_null topic = (case topic of None \<Rightarrow> nullTopic | Some t \<Rightarrow> t)"

section \<open>Durable sleep\<close>

definition num_of :: "jsval \<Rightarrow> int" where
  "num_of v = (case v of JNum q \<Rightarrow> \<lfloor>q\<rfloor> | _ \<Rightarrow> 0)"

text \<open>\<open>INSERT \<dots> ON CONFLICT DO NOTHING\<close>\<close>

definition insert_op_if_absent :: "uuid \<Rightarrow> nat \<Rightarrow> operation_outputs_row \<Rightarrow> (sysdb, unit) meth" where
  "insert_op_if_absent u fid row =
     bindE (getsE (\<lambda>db. operation_outputs db (u, fid))) (\<lambda>r. case r of Some _ \<Rightarrow> retE () | None \<Rightarrow> insert_op u fid row)"

text \<open>The wake-up time: the recorded one, or a new one, which is recorded.\<close>

definition sleep_until :: "runtime \<Rightarrow> uuid \<Rightarrow> nat \<Rightarrow> int \<Rightarrow> (sysdb, int) meth" where
  "sleep_until rt u fid durationMS =
     bindE (getsE (\<lambda>db. operation_outputs db (u, fid))) (\<lambda>row. case row of
       Some r \<Rightarrow> bindE (liftE (parse rt (oo_output r))) (\<lambda>v. retE (num_of v))
     | None \<Rightarrow>
         bindE (getsE now) (\<lambda>t.
         bindE (liftE (stringify (JNum (of_int (t + durationMS))))) (\<lambda>c.
         seqE (insert_op_if_absent u fid \<lparr>oo_output = c, oo_error = None\<rparr>) (retE (t + durationMS)))))"

definition sleepms :: "runtime \<Rightarrow> uuid \<Rightarrow> nat \<Rightarrow> int \<Rightarrow> (sysdb, unit) meth" where
  "sleepms rt u fid durationMS =
     bindE (sleep_until rt u fid durationMS) (\<lambda>endTimeMs.
     modifyE (\<lambda>db. sleep_clock (max (endTimeMs - now db) 0) db))"

datatype wake = Notified int "sysdb \<Rightarrow> sysdb" | TimedOut "sysdb \<Rightarrow> sysdb"

definition race :: "wake \<Rightarrow> int \<Rightarrow> (sysdb, unit) meth" where
  "race w endTimeMs = modifyE (\<lambda>db. case w of
     Notified elapsed others \<Rightarrow> others (db\<lparr>now := now db + max 0 (min elapsed (node_timeout (endTimeMs - now db)))\<rparr>)
   | TimedOut others \<Rightarrow> others (sleep_clock (max (endTimeMs - now db) 0) db))"

definition sleep_or_fail :: "runtime \<Rightarrow> uuid \<Rightarrow> nat \<Rightarrow> int \<Rightarrow> (sysdb, int) meth" where
  "sleep_or_fail rt u fid durationMS =
     catchE (sleep_until rt u fid durationMS) (\<lambda>_. raiseE (runtime_error ''Error'' ''sleepms failed''))"

section \<open>Messages\<close>

definition recordNotificationOutput :: "uuid \<Rightarrow> nat \<Rightarrow> jsval \<Rightarrow> (sysdb, unit) meth" where
  "recordNotificationOutput u fid output =
     catchE (bindE (liftE (stringify output)) (\<lambda>c. insert_op u fid \<lparr>oo_output = c, oo_error = None\<rparr>))
       (conflict_or_rethrow u)"

definition insert_notification :: "uuid \<Rightarrow> string \<Rightarrow> column \<Rightarrow> (sysdb, unit) meth" where
  "insert_notification dest topic msg = (\<lambda>db.
     if find_wf dest db = None then (Inl foreign_key_violation, db)
     else (Inr (), db\<lparr>notifications := notifications db @
       [\<lparr>nt_destination_uuid = dest, nt_topic = topic, nt_message = msg, nt_created_at_epoch_ms = now db\<rparr>]\<rparr>))"

definition send :: "uuid \<Rightarrow> nat \<Rightarrow> uuid \<Rightarrow> jsval \<Rightarrow> string option \<Rightarrow> (sysdb, unit) meth" where
  "send u fid dest message topic = atomicE (
     bindE (getsE (\<lambda>db. operation_outputs db (u, fid))) (\<lambda>row. case row of
       Some _ \<Rightarrow> retE ()
     | None \<Rightarrow>
         seqE (catchE
                (bindE (liftE (stringify message)) (\<lambda>c. insert_notification dest (topic_or_null topic) c))
                (\<lambda>err. if error_code err = Some ''23503''
                   then raiseE (DBOSNonExistentWorkflowError (''Sent to non-existent destination workflow UUID: '' @ dest))
                   else raiseE err))
              (recordNotificationOutput u fid JUndefined)))"

definition matches :: "uuid \<Rightarrow> string \<Rightarrow> notifications_row \<Rightarrow> bool" where
  "matches u topic n \<longleftrightarrow> nt_destination_uuid n = u \<and> nt_topic n = topic"

text \<open>\<open>ORDER BY created_at_epoch_ms ASC LIMIT 1\<close>\<close>

fun oldest :: "notifications_row list \<Rightarrow> notifications_row option" where
  "oldest [] = None"
| "oldest (n # ns) = (case oldest ns of None \<Rightarrow> Some n
     | Some m \<Rightarrow> if nt_created_at_epoch_ms n \<le> nt_created_at_epoch_ms m then Some n else Some m)"

text \<open>The \<open>DELETE \<dots> USING oldest_entry \<dots> RETURNING\<close>: the rows it removes, and the others.\<close>

definition consumed :: "uuid \<Rightarrow> string \<Rightarrow> notifications_row list \<Rightarrow> notifications_row \<Rightarrow> bool" where
  "consumed u topic ns n \<longleftrightarrow> (case oldest (filter (matches u topic) ns) of None \<Rightarrow> False
     | Some o' \<Rightarrow> matches u topic n \<and> nt_created_at_epoch_ms n = nt_created_at_epoch_ms o')"

definition consume :: "runtime \<Rightarrow> uuid \<Rightarrow> nat \<Rightarrow> string \<Rightarrow> (sysdb, jsval) meth" where
  "consume rt u fid topic = atomicE (
     bindE (getsE (\<lambda>db. filter (consumed u topic (notifications db)) (notifications db))) (\<lambda>finalRecvRows.
     seqE (modifyE (\<lambda>db. db\<lparr>notifications := filter (\<lambda>n. \<not> consumed u topic (notifications db) n) (notifications db)\<rparr>))
     (bindE (case finalRecvRows of [] \<Rightarrow> retE JNull | n # _ \<Rightarrow> liftE (parse rt (nt_message n))) (\<lambda>message.
     seqE (recordNotificationOutput u fid message) (retE message)))))"

definition recv ::
    "runtime \<Rightarrow> wake \<Rightarrow> uuid \<Rightarrow> nat \<Rightarrow> nat \<Rightarrow> string option \<Rightarrow> int \<Rightarrow> (sysdb, jsval) meth" where
  "recv rt w u fid timeoutFid topic timeoutSeconds =
     bindE (getsE (\<lambda>db. operation_outputs db (u, fid))) (\<lambda>row. case row of
       Some r \<Rightarrow> liftE (parse rt (oo_output r))
     | None \<Rightarrow>
         bindE (getsE (\<lambda>db. filter (matches u (topic_or_null topic)) (notifications db))) (\<lambda>initRecvRows.
         seqE (if initRecvRows = [] then bindE (sleep_or_fail rt u timeoutFid (timeoutSeconds * 1000)) (race w)
               else retE ())
              (consume rt u fid (topic_or_null topic))))"

section \<open>Events\<close>

definition upsert_event :: "uuid \<Rightarrow> string \<Rightarrow> column \<Rightarrow> (sysdb, unit) meth" where
  "upsert_event u key c = (\<lambda>db.
     if find_wf u db = None then (Inl foreign_key_violation, db)
     else (Inr (), db\<lparr>workflow_events := (workflow_events db)((u, key) \<mapsto> c)\<rparr>))"

definition setEvent :: "uuid \<Rightarrow> nat \<Rightarrow> string \<Rightarrow> jsval \<Rightarrow> (sysdb, unit) meth" where
  "setEvent u fid key message = atomicE (
     bindE (getsE (\<lambda>db. operation_outputs db (u, fid))) (\<lambda>row. case row of
       Some _ \<Rightarrow> retE ()
     | None \<Rightarrow>
         bindE (liftE (stringify message)) (\<lambda>c.
         seqE (upsert_event u key c) (recordNotificationOutput u fid JUndefined))))"

record callerWorkflow =
  cw_workflowUUID :: uuid
  cw_functionID :: nat
  cw_timeoutFunctionID :: nat

definition event_value :: "runtime \<Rightarrow> uuid \<Rightarrow> string \<Rightarrow> (sysdb, jsval option) meth" where
  "event_value rt u key =
     bindE (getsE (\<lambda>db. workflow_events db (u, key))) (\<lambda>row. case row of
       None \<Rightarrow> retE None
     | Some c \<Rightarrow> bindE (liftE (parse rt c)) (\<lambda>v. retE (Some v)))"

definition getEvent ::
    "runtime \<Rightarrow> wake \<Rightarrow> uuid \<Rightarrow> string \<Rightarrow> int \<Rightarrow> callerWorkflow option \<Rightarrow> (sysdb, jsval) meth" where
  "getEvent rt w u key timeoutSeconds caller =
     bindE (getsE (\<lambda>db. case caller of None \<Rightarrow> None
                     | Some cw \<Rightarrow> operation_outputs db (cw_workflowUUID cw, cw_functionID cw))) (\<lambda>row. case row of
       Some r \<Rightarrow> liftE (parse rt (oo_output r))
     | None \<Rightarrow>
         bindE (event_value rt u key) (\<lambda>initRecv.
         bindE (case initRecv of
             Some v \<Rightarrow> retE v
           | None \<Rightarrow>
               seqE (bindE (case caller of
                        Some cw \<Rightarrow> sleep_or_fail rt (cw_workflowUUID cw) (cw_timeoutFunctionID cw) (timeoutSeconds * 1000)
                      | None \<Rightarrow> getsE (\<lambda>db. now db + timeoutSeconds * 1000)) (race w))
               (bindE (event_value rt u key) (\<lambda>finalRecv.
                retE (case finalRecv of None \<Rightarrow> JNull | Some v \<Rightarrow> v)))) (\<lambda>value.
         seqE (case caller of None \<Rightarrow> retE ()
               | Some cw \<Rightarrow> recordOperationOutput (cw_workflowUUID cw) (cw_functionID cw) value)
              (retE value))))"

section \<open>The listener\<close>

text \<open>
  Waiters are registered under \<open>uuid::topic\<close> or \<open>uuid::key\<close>; a waiter is a number that stands for its
  resolver. A notification wakes the waiter registered at that moment.
\<close>

record listener =
  notificationsMap :: "(string, nat) jmap"
  workflowEventsMap :: "(string, nat) jmap"
  resolved :: "nat list"

definition payload :: "string \<Rightarrow> string \<Rightarrow> string" where
  "payload u key = u @ ''::'' @ key"

definition listenForNotifications :: "string \<Rightarrow> string \<Rightarrow> listener \<Rightarrow> listener" where
  "listenForNotifications channel msg l =
     (let m = (if channel = ''dbos_notifications_channel'' then notificationsMap l else workflowEventsMap l)
      in if msg \<noteq> [] \<and> jm_has m msg
         then (case jm_get m msg of None \<Rightarrow> l | Some k \<Rightarrow> l\<lparr>resolved := resolved l @ [k]\<rparr>)
         else l)"

definition register_event :: "string \<Rightarrow> nat \<Rightarrow> listener \<Rightarrow> listener" where
  "register_event p k l = l\<lparr>workflowEventsMap := jm_set p k (workflowEventsMap l)\<rparr>"

definition unregister_event :: "string \<Rightarrow> listener \<Rightarrow> listener" where
  "unregister_event p l = l\<lparr>workflowEventsMap := jm_del p (workflowEventsMap l)\<rparr>"

section \<open>Invariant\<close>

primrec others_of :: "wake \<Rightarrow> sysdb \<Rightarrow> sysdb" where
  "others_of (Notified d f) = f"
| "others_of (TimedOut f) = f"

lemma keeps_insert_op_if_absent [keeps_rules]: "keeps sys_ok (insert_op_if_absent u f row)"
  unfolding insert_op_if_absent_def by (intro keeps_rules)

lemma keeps_sleep_until [keeps_rules]: "keeps sys_ok (sleep_until rt u f d)"
  unfolding sleep_until_def by (intro keeps_rules)

lemma keeps_sleepms [keeps_rules]: "keeps sys_ok (sleepms rt u f d)"
  unfolding sleepms_def by (intro keeps_rules keeps_modify keeps_sleep_clock)

lemma keeps_sleep_or_fail [keeps_rules]: "keeps sys_ok (sleep_or_fail rt u f d)"
  unfolding sleep_or_fail_def by (intro keeps_rules)

lemma sys_ok_time: "sys_ok db \<Longrightarrow> sys_ok (db\<lparr>now := t\<rparr>)"
  by (rule sys_ok_same_wf) (auto intro: sys_okD)

lemma keeps_race: "(\<And>db. sys_ok db \<Longrightarrow> sys_ok (others_of w db)) \<Longrightarrow> keeps sys_ok (race w e)"
  unfolding race_def by (rule keeps_modify) (cases w; simp add: keeps_sleep_clock sys_ok_time)

lemma keeps_recordNotificationOutput [keeps_rules]: "keeps sys_ok (recordNotificationOutput u f v)"
  unfolding recordNotificationOutput_def by (intro keeps_rules)

lemma keeps_insert_notification [keeps_rules]: "keeps sys_ok (insert_notification u t m)"
proof (rule keepsI)
  fix db assume ok: "sys_ok db"
  have "sys_ok (db\<lparr>notifications := notifications db @ [n]\<rparr>)" if "has_wf db (nt_destination_uuid n)" for n
    by (rule sys_ok_same_wf [OF ok]) (auto intro: sys_okD [OF ok] that)
  with ok show "sys_ok (snd (insert_notification u t m db))"
    by (auto simp: insert_notification_def has_wf_def)
qed

lemma keeps_send [keeps_rules]: "keeps sys_ok (send u f d m t)"
  unfolding send_def by (intro keeps_rules)

lemma keeps_consume [keeps_rules]: "keeps sys_ok (consume rt u f t)"
proof -
  have "keeps sys_ok (modifyE (\<lambda>db. db\<lparr>notifications := filter (P db) (notifications db)\<rparr>))" for P
    by (rule keeps_modify, rule sys_ok_same_wf) (auto intro: sys_okD)
  then show ?thesis unfolding consume_def by (intro keeps_rules)
qed

lemma keeps_recv: "(\<And>db. sys_ok db \<Longrightarrow> sys_ok (others_of w db)) \<Longrightarrow> keeps sys_ok (recv rt w u f tf t s)"
  unfolding recv_def by (intro keeps_rules keeps_race)

lemma keeps_upsert_event [keeps_rules]: "keeps sys_ok (upsert_event u k c)"
proof (rule keepsI)
  fix db assume ok: "sys_ok db"
  have "sys_ok (db\<lparr>workflow_events := (workflow_events db)((u, k) \<mapsto> c)\<rparr>)" if "has_wf db u"
    by (rule sys_ok_same_wf [OF ok]) (auto intro: sys_okD [OF ok] that split: if_splits)
  with ok show "sys_ok (snd (upsert_event u k c db))" by (auto simp: upsert_event_def has_wf_def)
qed

lemma keeps_setEvent [keeps_rules]: "keeps sys_ok (setEvent u f k m)"
  unfolding setEvent_def by (intro keeps_rules)

lemma keeps_getEvent: "(\<And>db. sys_ok db \<Longrightarrow> sys_ok (others_of w db)) \<Longrightarrow> keeps sys_ok (getEvent rt w u k s caller)"
  unfolding getEvent_def event_value_def by (intro keeps_rules keeps_race)

section \<open>Exactly-once messages\<close>

lemma record_notification_eq:
  "recordNotificationOutput u f v db =
     (case stringify v of Inl e \<Rightarrow> (Inl e, db)
      | Inr c \<Rightarrow> if operation_outputs db (u, f) \<noteq> None then (Inl (DBOSWorkflowConflictUUIDError u), db)
         else if find_wf u db = None then (Inl foreign_key_violation, db)
         else (Inr (), db\<lparr>operation_outputs := (operation_outputs db)((u, f) \<mapsto> \<lparr>oo_output = c, oo_error = None\<rparr>)\<rparr>))"
proof (cases "stringify v")
  case (Inl e)
  then have "e = runtime_error ''RangeError'' ''Invalid time value''" by (rule stringify_error)
  with Inl show ?thesis
    by (simp add: recordNotificationOutput_def em_simps conflict_or_rethrow_def runtime_error_def)
next
  case (Inr c)
  then show ?thesis
    by (simp add: recordNotificationOutput_def em_simps insert_op_def conflict_or_rethrow_def)
qed

lemma send_eq:
  "send u f dest m topic db =
     (if operation_outputs db (u, f) \<noteq> None then (Inr (), db)
      else case stringify m of Inl e \<Rightarrow> (Inl e, db)
      | Inr c \<Rightarrow>
        if find_wf dest db = None
        then (Inl (DBOSNonExistentWorkflowError (''Sent to non-existent destination workflow UUID: '' @ dest)), db)
        else if find_wf u db = None then (Inl foreign_key_violation, db)
        else (Inr (), db\<lparr>notifications := notifications db @ [\<lparr>nt_destination_uuid = dest, nt_topic = topic_or_null topic,
                 nt_message = c, nt_created_at_epoch_ms = now db\<rparr>],
               operation_outputs := (operation_outputs db)((u, f) \<mapsto> \<lparr>oo_output = None, oo_error = None\<rparr>)\<rparr>))"
proof (cases "stringify m")
  case (Inl e)
  then have "e = runtime_error ''RangeError'' ''Invalid time value''" by (rule stringify_error)
  with Inl show ?thesis by (auto simp: send_def em_simps runtime_error_def)
next
  case (Inr c)
  then show ?thesis
    by (auto simp: send_def em_simps insert_notification_def record_notification_eq)
qed

text \<open>Sending is atomic: it fails without a trace, or delivers one message and records it.\<close>

lemma send_atomic: "send u f dest m topic db = (Inl e, db') \<Longrightarrow> db' = db"
  unfolding send_def by (rule atomicE_error)

lemma send_again:
  assumes "send u f dest m topic db = (Inr x, db')"
  shows "send u f dest' m' topic' db' = (Inr (), db')"
proof -
  have "operation_outputs db' (u, f) \<noteq> None"
    using assms by (auto simp: send_eq split: if_splits sum.splits)
  then show ?thesis by (simp add: send_eq)
qed

section \<open>Receiving\<close>

lemma oldest_in: "oldest ns = Some n \<Longrightarrow> n \<in> set ns"
  by (induction ns arbitrary: n) (auto split: option.splits if_splits)

lemma oldest_None: "oldest ns = None \<longleftrightarrow> ns = []"
  by (cases ns) (auto split: option.splits)

lemma oldest_le: "oldest ns = Some n \<Longrightarrow> m \<in> set ns \<Longrightarrow> nt_created_at_epoch_ms n \<le> nt_created_at_epoch_ms m"
proof (induction ns arbitrary: n)
  case (Cons a ns)
  show ?case
  proof (cases "oldest ns")
    case None
    then show ?thesis using Cons.prems oldest_None [of ns] by simp
  next
    case (Some o')
    then show ?thesis using Cons by (auto intro: order_trans split: if_splits)
  qed
qed simp

lemma consumed_matches: "consumed u t ns n \<Longrightarrow> matches u t n"
  by (auto simp: consumed_def split: option.splits)

lemma consumed_oldest: "consumed u t ns n \<Longrightarrow> m \<in> set ns \<Longrightarrow> matches u t m \<Longrightarrow>
    nt_created_at_epoch_ms n \<le> nt_created_at_epoch_ms m"
  by (auto simp: consumed_def dest!: oldest_le split: option.splits)

lemma consumed_some: "m \<in> set ns \<Longrightarrow> matches u t m \<Longrightarrow> \<exists>n \<in> set ns. consumed u t ns n"
proof -
  assume m: "m \<in> set ns" "matches u t m"
  then have "filter (matches u t) ns \<noteq> []" by (auto simp: filter_empty_conv)
  then obtain n where n: "oldest (filter (matches u t) ns) = Some n" using oldest_None by blast
  from oldest_in [OF this] have "n \<in> set ns" "matches u t n" by auto
  with n show ?thesis by (intro bexI [of _ n]) (simp_all add: consumed_def)
qed

lemma consumed_unique:
  assumes "distinct (map nt_created_at_epoch_ms (filter (matches u t) ns))"
    and "n \<in> set ns" "n' \<in> set ns" "consumed u t ns n" "consumed u t ns n'"
  shows "n = n'"
proof -
  have "nt_created_at_epoch_ms n = nt_created_at_epoch_ms n'"
    using assms(4,5) by (auto simp: consumed_def split: option.splits)
  moreover have "n \<in> set (filter (matches u t) ns)" "n' \<in> set (filter (matches u t) ns)"
    using assms(2-5) by (auto dest: consumed_matches)
  ultimately show ?thesis using assms(1) by (auto simp: distinct_map dest: inj_onD)
qed

lemma consume_ok:
  assumes "consume rt u f t db = (Inr v, db')"
  defines "taken \<equiv> filter (consumed u t (notifications db)) (notifications db)"
  shows "notifications db' = filter (\<lambda>n. \<not> consumed u t (notifications db) n) (notifications db)"
    and "case taken of [] \<Rightarrow> v = JNull | n # _ \<Rightarrow> parse rt (nt_message n) = Inr v"
    and "\<exists>c. stringify v = Inr c \<and> operation_outputs db' =
           (operation_outputs db)((u, f) \<mapsto> \<lparr>oo_output = c, oo_error = None\<rparr>)"
    and "operation_outputs db (u, f) = None"
  using assms(1) unfolding taken_def
  by (auto simp: consume_def em_simps record_notification_eq split: prod.splits sum.splits list.splits if_splits)

lemma consume_fails: "consume rt u f t db = (Inl e, db') \<Longrightarrow> db' = db"
  unfolding consume_def by (rule atomicE_error)

lemma recv_again:
  assumes "recv rt w u f tf t s db = (Inr v, db')" "operation_outputs db (u, f) = None" "canon_val rt v = Inr v"
  shows "recv rt w' u f tf t s' db' = (Inr v, db')"
proof -
  from assms(1,2) obtain d where "consume rt u f (topic_or_null t) d = (Inr v, db')"
    by (auto simp: recv_def bindE_def getsE_def seqE_def split: prod.splits sum.splits if_splits)
  from consume_ok(3) [OF this] obtain c where
    "stringify v = Inr c" "operation_outputs db' (u, f) = Some \<lparr>oo_output = c, oo_error = None\<rparr>" by auto
  with assms(3) show ?thesis by (simp add: recv_def em_simps canon_val_def)
qed

section \<open>Sleeping\<close>

lemma sleepms_wakes:
  assumes "operation_outputs db (u, f) = None" "find_wf u db \<noteq> None" "0 \<le> d"
  shows "\<exists>db'. sleepms rt u f d db = (Inr (), db') \<and> now db' = now db + node_timeout d \<and>
     operation_outputs db' (u, f) = Some \<lparr>oo_output = Some (Num (of_int (now db + d))), oo_error = None\<rparr>"
  using assms by (auto simp: sleepms_def sleep_until_def insert_op_if_absent_def insert_op_def em_simps
      stringify_def sleep_clock_def)

text \<open>A sleep that is resumed after a crash ends at the time first set, not a full duration later.\<close>

lemma sleepms_resumed:
  assumes "operation_outputs db (u, f) = Some \<lparr>oo_output = Some (Num (of_int t)), oo_error = e\<rparr>"
  shows "sleepms rt u f d db = (Inr (), db\<lparr>now := now db + node_timeout (max (t - now db) 0)\<rparr>)"
  using assms by (simp add: sleepms_def sleep_until_def em_simps parse_def DBOSReviver_def isSerializedBuffer_def
      isSerializedDate_def isSerializedBigInt_def num_of_def sleep_clock_def)

section \<open>Events\<close>

lemma setEvent_eq:
  "setEvent u f k m db =
     (if operation_outputs db (u, f) \<noteq> None then (Inr (), db)
      else case stringify m of Inl e \<Rightarrow> (Inl e, db)
      | Inr c \<Rightarrow> if find_wf u db = None then (Inl foreign_key_violation, db)
        else (Inr (), db\<lparr>workflow_events := (workflow_events db)((u, k) \<mapsto> c),
               operation_outputs := (operation_outputs db)((u, f) \<mapsto> \<lparr>oo_output = None, oo_error = None\<rparr>)\<rparr>))"
  by (auto simp: setEvent_def em_simps upsert_event_def record_notification_eq split: sum.splits)

text \<open>An event that is set is what every later reader outside a workflow gets, without waiting.\<close>

lemma getEvent_set:
  assumes "setEvent u f k m db = (Inr x, db')" "operation_outputs db (u, f) = None" "canon_val rt m = Inr m"
  shows "getEvent rt w u k s None db' = (Inr m, db')"
  using assms by (auto simp: setEvent_eq getEvent_def event_value_def em_simps canon_val_def split: sum.splits if_splits)

lemma getEvent_again:
  assumes "getEvent rt w u k s (Some cw) db = (Inr v, db')" "canon_val rt v = Inr v"
    and "operation_outputs db (cw_workflowUUID cw, cw_functionID cw) = None"
  shows "getEvent rt w' u k s' (Some cw) db' = (Inr v, db')"
proof -
  from assms(1,3) obtain d where "recordOperationOutput (cw_workflowUUID cw) (cw_functionID cw) v d = (Inr (), db')"
    unfolding getEvent_def
    by (auto simp: seqE_def retE_def getsE_def elim!: bindE_InrD)
  then obtain c where "stringify v = Inr c"
    "operation_outputs db' (cw_workflowUUID cw, cw_functionID cw) = Some \<lparr>oo_output = c, oo_error = None\<rparr>"
    by (auto simp: recordOperationOutput_eq split: sum.splits if_splits)
  with assms(2) show ?thesis by (simp add: getEvent_def em_simps canon_val_def)
qed

section \<open>Waking waiters\<close>

lemma waiter_is_woken:
  assumes "payload u k \<noteq> []"
  shows "n \<in> set (resolved (listenForNotifications ''dbos_workflow_events_channel'' (payload u k)
    (register_event (payload u k) n l)))"
  by (simp add: listenForNotifications_def register_event_def jm_has_iff jm_get_set payload_def)

text \<open>
  Two waiters for one event share a key: when the first leaves, the second is no longer registered
  and a notification wakes nobody.
\<close>

lemma second_waiter_not_woken:
  "resolved (listenForNotifications ''dbos_workflow_events_channel'' p
     (unregister_event p (register_event p n2 (register_event p n1 l)))) = resolved l"
  by (simp add: listenForNotifications_def register_event_def unregister_event_def jm_has_iff jm_get_del)

end
