(* ===== verification/UserDb.thy ===== *)
theory UserDb
  imports SysDb
begin

text \<open>
  The application's database (\<open>src/src/user_database.ts\<close>, \<open>schemas/user_db_schema.ts\<close>): the five
  drivers, how each classifies errors and passes the settings of a transaction on, the set-up of the
  \<open>dbos\<close> schema, and transactions.

  The application's own tables are a type parameter. A driver is third-party code: the error object
  it throws for a SQL state is a parameter (\<open>sqlError\<close>), and \<open>driver_errors\<close> is what its
  documentation says of it. A commit may fail; the faults of coming commits are part of the state.
\<close>

datatype UserDatabaseName = PGNODE | PRISMA | TYPEORM | KNEX | DRIZZLE

datatype IsolationLevel = ReadUncommitted | ReadCommitted | RepeatableRead | Serializable

record TransactionConfig =
  tc_isolationLevel :: "IsolationLevel option"
  tc_readOnly :: "bool option"

section \<open>Classification of errors\<close>

fun is_pg_error :: "jserror \<Rightarrow> bool" where
  "is_pg_error (DatabaseError _) = True"
| "is_pg_error _ = False"

fun meta_code :: "jserror \<Rightarrow> string option" where
  "meta_code (OtherError je) = je_meta_code je"
| "meta_code _ = None"

fun driver_code :: "jserror \<Rightarrow> string option" where
  "driver_code (OtherError je) = je_driver_code je"
| "driver_code _ = None"

text \<open>
  \<open>getPostgresErrorCode\<close> of each driver, and the comparison its three predicates make with it; the
  \<open>pg\<close> driver also wants an error of its own class.
\<close>

definition PGNode_has_code :: "string \<Rightarrow> jserror \<Rightarrow> bool" where
  [simp]: "PGNode_has_code code err \<longleftrightarrow> is_pg_error err \<and> or_undefined (error_code err) = Some code"

definition Prisma_has_code :: "string \<Rightarrow> jserror \<Rightarrow> bool" where
  [simp]: "Prisma_has_code code err \<longleftrightarrow> meta_code err = Some code"

definition TypeORM_has_code :: "string \<Rightarrow> jserror \<Rightarrow> bool" where
  [simp]: "TypeORM_has_code code err \<longleftrightarrow> or_undefined (driver_code err) = Some code"

definition Knex_has_code :: "string \<Rightarrow> jserror \<Rightarrow> bool" where
  [simp]: "Knex_has_code code err \<longleftrightarrow> or_undefined (error_code err) = Some code"

definition Drizzle_has_code :: "string \<Rightarrow> jserror \<Rightarrow> bool" where
  [simp]: "Drizzle_has_code code err \<longleftrightarrow> or_undefined (error_code err) = Some code"

definition has_code :: "UserDatabaseName \<Rightarrow> string \<Rightarrow> jserror \<Rightarrow> bool" where
  "has_code kind code err = (case kind of
     PGNODE \<Rightarrow> PGNode_has_code code err | PRISMA \<Rightarrow> Prisma_has_code code err | TYPEORM \<Rightarrow> TypeORM_has_code code err
   | KNEX \<Rightarrow> Knex_has_code code err | DRIZZLE \<Rightarrow> Drizzle_has_code code err)"

definition isRetriableTransactionError :: "UserDatabaseName \<Rightarrow> jserror \<Rightarrow> bool" where
  "isRetriableTransactionError kind err = has_code kind ''40001'' err"

definition isKeyConflictError :: "UserDatabaseName \<Rightarrow> jserror \<Rightarrow> bool" where
  "isKeyConflictError kind err = has_code kind ''23505'' err"

definition isFailedSqlTransactionError :: "UserDatabaseName \<Rightarrow> jserror \<Rightarrow> bool" where
  "isFailedSqlTransactionError kind err = has_code kind ''25P02'' err"

definition pgNodeIsKeyConflictError :: "jserror \<Rightarrow> bool" where
  "pgNodeIsKeyConflictError err \<longleftrightarrow> is_pg_error err \<and> or_undefined (error_code err) = Some ''23505''"

definition driver_errors :: "UserDatabaseName \<Rightarrow> (string \<Rightarrow> jserror) \<Rightarrow> bool" where
  "driver_errors kind sqlError \<longleftrightarrow> (\<forall>code. code \<noteq> [] \<longrightarrow> has_code kind code (sqlError code))"

text \<open>The kinds of error exclude each other, whatever the driver.\<close>

lemma has_code_unique: "has_code kind c err \<Longrightarrow> has_code kind c' err \<Longrightarrow> c = c'"
  by (simp add: has_code_def split: UserDatabaseName.splits)

lemma dbos_error_has_no_code:
  "dbosErrorCode err \<noteq> None \<Longrightarrow> \<not> has_code kind code err"
  by (cases kind; cases err) (simp_all add: has_code_def or_undefined_def)

lemma pg_errors_are_driver_errors: "driver_errors PGNODE pg_err" "driver_errors KNEX pg_err" "driver_errors DRIZZLE pg_err"
  by (simp_all add: driver_errors_def has_code_def or_undefined_def) (simp add: pg_err_def)

section \<open>Settings of a transaction\<close>

text \<open>The isolation level and the access mode a driver asks the database for.\<close>

definition default_level :: "IsolationLevel option \<Rightarrow> IsolationLevel" where
  "default_level l = (case l of None \<Rightarrow> Serializable | Some x \<Rightarrow> x)"

text \<open>The isolation level and the read-only mode each driver's \<open>transaction\<close> begins with.\<close>

definition PGNode_begin :: "TransactionConfig \<Rightarrow> IsolationLevel \<times> bool" where
  [simp]: "PGNode_begin config = (default_level (tc_isolationLevel config), tc_readOnly config = Some True)"

definition chosen_level :: "IsolationLevel option \<Rightarrow> IsolationLevel" where
  [simp]: "chosen_level l =
     (if l = Some ReadUncommitted then ReadUncommitted
      else if l = Some ReadCommitted then ReadCommitted
      else if l = Some RepeatableRead then RepeatableRead
      else Serializable)"

definition Prisma_begin :: "TransactionConfig \<Rightarrow> IsolationLevel \<times> bool" where
  [simp]: "Prisma_begin config = (chosen_level (tc_isolationLevel config), False)"

definition TypeORM_begin :: "TransactionConfig \<Rightarrow> IsolationLevel \<times> bool" where
  [simp]: "TypeORM_begin config = (default_level (tc_isolationLevel config), False)"

definition Knex_begin :: "TransactionConfig \<Rightarrow> IsolationLevel \<times> bool" where
  [simp]: "Knex_begin config = (chosen_level (tc_isolationLevel config), tc_readOnly config = Some True)"

definition Drizzle_begin :: "TransactionConfig \<Rightarrow> IsolationLevel \<times> bool" where
  [simp]: "Drizzle_begin config = (chosen_level (tc_isolationLevel config), tc_readOnly config = Some True)"

fun begin_settings :: "UserDatabaseName \<Rightarrow> TransactionConfig \<Rightarrow> IsolationLevel \<times> bool" where
  "begin_settings PGNODE config = PGNode_begin config"
| "begin_settings PRISMA config = Prisma_begin config"
| "begin_settings TYPEORM config = TypeORM_begin config"
| "begin_settings KNEX config = Knex_begin config"
| "begin_settings DRIZZLE config = Drizzle_begin config"

lemma begin_isolation: "fst (begin_settings kind config) = default_level (tc_isolationLevel config)"
  by (cases kind; cases "tc_isolationLevel config"; cases "the (tc_isolationLevel config)")
    (simp_all add: default_level_def)

lemma begin_readonly:
  "snd (begin_settings kind config) \<longleftrightarrow> tc_readOnly config = Some True \<and> kind \<noteq> PRISMA \<and> kind \<noteq> TYPEORM"
  by (cases kind) simp_all

section \<open>Set-up of the schema\<close>

record db_schema =
  schemaExists :: bool
  txnOutputTableExists :: bool
  txnIndexExists :: bool
  dataSourceInitialized :: bool

definition create_schema :: "(db_schema, unit) meth" where
  "create_schema = modifyE (\<lambda>s. s\<lparr>schemaExists := True\<rparr>)"

definition create_table :: "(db_schema, unit) meth" where
  "create_table = (\<lambda>s. if schemaExists s then (Inr (), s\<lparr>txnOutputTableExists := True\<rparr>) else (Inl (pg_err ''3F000''), s))"

definition create_index :: "(db_schema, unit) meth" where
  "create_index = (\<lambda>s. if txnOutputTableExists s then (Inr (), s\<lparr>txnIndexExists := True\<rparr>) else (Inl (pg_err ''42P01''), s))"

definition init_tables :: "(db_schema, unit) meth" where
  "init_tables =
     bindE (getsE schemaExists) (\<lambda>e1. seqE (whenE (\<not> e1) create_schema)
     (bindE (getsE txnOutputTableExists) (\<lambda>e2. seqE (whenE (\<not> e2) create_table)
     (bindE (getsE txnIndexExists) (\<lambda>e3. whenE (\<not> e3) create_index)))))"

definition PGNode_init :: "bool \<Rightarrow> (db_schema, unit) meth" where
  [simp]: "PGNode_init debugMode = whenE (\<not> debugMode) init_tables"

definition Prisma_init :: "bool \<Rightarrow> (db_schema, unit) meth" where
  [simp]: "Prisma_init debugMode = whenE (\<not> debugMode) init_tables"

definition TypeORM_init :: "bool \<Rightarrow> (db_schema, unit) meth" where
  [simp]: "TypeORM_init debugMode =
     seqE (modifyE (\<lambda>s. s\<lparr>dataSourceInitialized := True\<rparr>)) (whenE (\<not> debugMode) init_tables)"

definition Knex_init :: "bool \<Rightarrow> (db_schema, unit) meth" where
  [simp]: "Knex_init debugMode = whenE (\<not> debugMode) init_tables"

definition Drizzle_init :: "bool \<Rightarrow> (db_schema, unit) meth" where
  [simp]: "Drizzle_init debugMode = whenE (\<not> debugMode) init_tables"

fun init_userdb :: "UserDatabaseName \<Rightarrow> bool \<Rightarrow> (db_schema, unit) meth" where
  "init_userdb PGNODE debugMode = PGNode_init debugMode"
| "init_userdb PRISMA debugMode = Prisma_init debugMode"
| "init_userdb TYPEORM debugMode = TypeORM_init debugMode"
| "init_userdb KNEX debugMode = Knex_init debugMode"
| "init_userdb DRIZZLE debugMode = Drizzle_init debugMode"

text \<open>Whatever was there, after \<open>init\<close> the schema, the table and its index exist; a second \<open>init\<close>
  changes nothing; the debugger's \<open>init\<close> creates nothing.\<close>

lemma init_tables_all:
  "schemaExists s \<or> \<not> txnOutputTableExists s \<Longrightarrow>
   init_tables s = (Inr (), s\<lparr>schemaExists := True, txnOutputTableExists := True, txnIndexExists := True\<rparr>)"
  by (cases s) (auto simp: init_tables_def create_schema_def create_table_def create_index_def em_simps)

lemma init_debug: "schemaExists (snd (init_userdb kind True s)) = schemaExists s"
  "txnOutputTableExists (snd (init_userdb kind True s)) = txnOutputTableExists s"
  "txnIndexExists (snd (init_userdb kind True s)) = txnIndexExists s"
  by (cases kind; simp add: em_simps)+

section \<open>Transactions\<close>

record transaction_outputs_row =
  to_output :: column
  to_error :: column
  to_txn_id :: "string option"
  to_txn_snapshot :: string
  to_created_at :: "int option"

record 'u userdb =
  ud_app :: 'u
  transaction_outputs :: "uuid \<times> nat \<rightharpoonup> transaction_outputs_row"
  ud_aborted :: bool \<comment> \<open>the open transaction failed a statement\<close>
  ud_xid :: nat
  commit_faults :: "jserror option list"

definition pg_current_snapshot :: "'u userdb \<Rightarrow> string" where
  "pg_current_snapshot db = nat_str (ud_xid db)"

definition next_fault :: "'u userdb \<Rightarrow> jserror option" where
  "next_fault db = (case commit_faults db of [] \<Rightarrow> None | f # _ \<Rightarrow> f)"

text \<open>
  \<open>transaction\<close> of every driver: begin, run, commit, and roll the database back when the body or
  the commit throws. Committing a transaction that failed a statement rolls it back without an error.
  The body may also change state outside the database (\<open>g\<close> and \<open>p\<close> read and write the database
  in the larger state), which a rollback does not undo.
\<close>

definition begin_txn :: "'u userdb \<Rightarrow> 'u userdb" where
  "begin_txn db = db\<lparr>ud_aborted := False, ud_xid := Suc (ud_xid db)\<rparr>"

definition rollback :: "'u userdb \<Rightarrow> 'u userdb \<Rightarrow> 'u userdb" where
  "rollback before db = db\<lparr>ud_app := ud_app before, transaction_outputs := transaction_outputs before, ud_aborted := False\<rparr>"

definition pop_fault :: "'u userdb \<Rightarrow> 'u userdb" where
  "pop_fault db = db\<lparr>commit_faults := tl (commit_faults db)\<rparr>"

definition db_transaction ::
    "('s \<Rightarrow> 'u userdb) \<Rightarrow> ('u userdb \<Rightarrow> 's \<Rightarrow> 's) \<Rightarrow> ('s, 'a) meth \<Rightarrow> ('s, 'a) meth" where
  "db_transaction g p body = (\<lambda>s.
     case body (p (begin_txn (g s)) s) of
       (Inl e, s') \<Rightarrow> (Inl e, p (rollback (g s) (g s')) s')
     | (Inr x, s') \<Rightarrow>
         (case next_fault (g s') of
            Some e \<Rightarrow> (Inl e, p (pop_fault (rollback (g s) (g s'))) s')
          | None \<Rightarrow> if ud_aborted (g s') then (Inr x, p (pop_fault (rollback (g s) (g s'))) s')
                    else (Inr x, p (pop_fault (g s')) s')))"

definition run_sql :: "(string \<Rightarrow> jserror) \<Rightarrow> ('u userdb, 'a) meth \<Rightarrow> ('u userdb, 'a) meth" where
  "run_sql sqlError stmt = (\<lambda>db.
     if ud_aborted db then (Inl (sqlError ''25P02''), db)
     else case stmt db of (Inl e, db') \<Rightarrow> (Inl e, db'\<lparr>ud_aborted := True\<rparr>) | (Inr x, db') \<Rightarrow> (Inr x, db'))"

definition insert_txn_output ::
    "(string \<Rightarrow> jserror) \<Rightarrow> uuid \<Rightarrow> nat \<Rightarrow> transaction_outputs_row \<Rightarrow> ('u userdb, unit) meth" where
  "insert_txn_output sqlError u fid row = (\<lambda>db.
     if transaction_outputs db (u, fid) \<noteq> None then (Inl (sqlError ''23505''), db)
     else (Inr (), db\<lparr>transaction_outputs := (transaction_outputs db)((u, fid) \<mapsto> row)\<rparr>))"

section \<open>Parameters of SQL statements\<close>

text \<open>
  \<open>KnexUserDatabase.queryWithClient\<close>: every \<open>$n\<close> becomes \<open>?\<close> and \<open>undefined\<close> becomes \<open>null\<close>. The
  other drivers bind \<open>$n\<close> to the n-th parameter; \<open>?\<close> binds by position.
\<close>

fun skip_digits :: "string \<Rightarrow> string" where
  "skip_digits [] = []"
| "skip_digits (c # cs) = (if digit_val c = None then c # cs else skip_digits cs)"

lemma skip_digits_length [termination_simp]: "length (skip_digits s) < Suc (Suc (length s))"
  by (induction s) auto

fun knexSql :: "string \<Rightarrow> string" where
  "knexSql [] = []"
| "knexSql [c] = [c]"
| "knexSql (c # d # cs) =
     (if c = CHR ''$'' \<and> digit_val d \<noteq> None then CHR ''?'' # knexSql (skip_digits cs) else c # knexSql (d # cs))"

fun leading_digits :: "string \<Rightarrow> string" where
  "leading_digits [] = []"
| "leading_digits (c # cs) = (if digit_val c = None then [] else c # leading_digits cs)"

text \<open>The numbers of the placeholders, in the order of the text.\<close>

fun placeholders :: "string \<Rightarrow> nat list" where
  "placeholders [] = []"
| "placeholders [c] = []"
| "placeholders (c # d # cs) =
     (if c = CHR ''$'' \<and> digit_val d \<noteq> None
      then (case nat_of_str (d # leading_digits cs) of None \<Rightarrow> 0 | Some n \<Rightarrow> n) # placeholders (skip_digits cs)
      else placeholders (d # cs))"

definition bind_numbered :: "string \<Rightarrow> 'p list \<Rightarrow> 'p list" where
  "bind_numbered sql params = map (\<lambda>n. params ! (n - 1)) (placeholders sql)"

definition null_for_undefined :: "jsval \<Rightarrow> jsval" where
  "null_for_undefined v = (if v = JUndefined then JNull else v)"

definition bind_knex :: "string \<Rightarrow> jsval list \<Rightarrow> jsval list" where
  "bind_knex sql params = take (length (placeholders sql)) (map null_for_undefined params)"

text \<open>The two agree on statements that use \<open>$1, $2, \<dots>\<close> once each and in order.\<close>

lemma bind_knex_in_order:
  assumes "placeholders sql = [1..<Suc (length params)]"
  shows "bind_knex sql params = map null_for_undefined (bind_numbered sql params)"
proof -
  have "map (\<lambda>n. params ! (n - 1)) [1..<Suc (length params)] = params"
    by (rule nth_equalityI) (simp_all del: upt_Suc)
  then show ?thesis by (simp add: bind_knex_def bind_numbered_def assms del: upt_Suc)
qed

text \<open>The parameters of a \<open>query\<close>, by driver.\<close>

definition query_params :: "UserDatabaseName \<Rightarrow> string \<Rightarrow> jsval list \<Rightarrow> jsval list" where
  "query_params kind sql params = (if kind = KNEX then bind_knex sql params else bind_numbered sql params)"

section \<open>Functions that only query, and the application's schema\<close>

text \<open>
  \<open>queryFunction\<close>: Knex runs the function in a read-only transaction, the others run it as it is. (The \<open>pg\<close> driver gives the connection back
  before the function has ended, since its result is not awaited; the model has no pool.)
\<close>

definition queryFunction ::
    "UserDatabaseName \<Rightarrow> ('s \<Rightarrow> 'u userdb) \<Rightarrow> ('u userdb \<Rightarrow> 's \<Rightarrow> 's) \<Rightarrow> ('s, 'a) meth \<Rightarrow> ('s, 'a) meth" where
  "queryFunction kind g p func = (if kind = KNEX then db_transaction g p func else func)"

definition unsupported :: "string \<Rightarrow> UserDatabaseName \<Rightarrow> jserror" where
  "unsupported nm kind = runtime_error ''Error'' (nm @ ''() is not supported in '' @
     (case kind of PGNODE \<Rightarrow> ''PG'' | PRISMA \<Rightarrow> ''Prisma'' | TYPEORM \<Rightarrow> ''TypeORM'' | KNEX \<Rightarrow> ''Knex'' | DRIZZLE \<Rightarrow> ''Drizzle'') @ '' user database.'')"

text \<open>Only TypeORM can create and drop the tables of the application; what its data source does is a parameter.\<close>

definition createSchema :: "UserDatabaseName \<Rightarrow> ('s, unit) meth \<Rightarrow> ('s, unit) meth" where
  "createSchema kind synchronize = (if kind = TYPEORM then synchronize else raiseE (unsupported ''createSchema'' kind))"

definition dropSchema :: "UserDatabaseName \<Rightarrow> ('s, unit) meth \<Rightarrow> ('s, unit) meth" where
  "dropSchema kind dropDatabase = (if kind = TYPEORM then dropDatabase else raiseE (unsupported ''dropSchema'' kind))"

text \<open>A querying function that throws leaves the application's data as they were, if the driver is Knex; the others keep what it wrote.\<close>

lemma queryFunction_fails:
  assumes "\<And>x s. g (p x s) = x" "queryFunction KNEX g p func s = (Inl e, t)"
  shows "ud_app (g t) = ud_app (g s) \<and> transaction_outputs (g t) = transaction_outputs (g s)"
  using assms by (auto simp: queryFunction_def db_transaction_def rollback_def pop_fault_def split: prod.splits sum.splits option.splits if_splits)

end
