(* ===== verification/WfContext.thy ===== *)
theory WfContext
  imports Messaging UserDb
begin

text \<open>
  The workflow context (\<open>src/src/workflow.ts\<close>, class \<open>WorkflowContextImpl\<close>): the operations a
  workflow calls. The state \<open>dbos\<close> holds the application's database, the system database, the
  outside world steps act on (a type parameter), and the fields of the context of the workflow that
  runs: the number of its next operation and the buffered outputs of its read-only transactions.

  Transactions, steps and procedures of the application are functions in the registries of
  \<open>dbosExec\<close>. The retry loop of a transaction has no bound in the code: it takes fuel, and
  \<open>Diverges\<close> means the fuel ran out; \<open>txn_attempts_fuel\<close> says how much is enough.
\<close>

record BufferedResult =
  br_output :: "jsval option" \<comment> \<open>\<open>None\<close> is \<open>dbosNull\<close>\<close>
  br_txn_snapshot :: string
  br_created_at :: "int option"

record ('u, 'x) dbos =
  userDatabase :: "'u userdb"
  systemDatabase :: sysdb
  outside :: 'x
  functionID :: nat
  resultBuffer :: "(nat, BufferedResult) jmap"
  txn_snapshot :: string \<comment> \<open>the variable the attempts of a transaction share\<close>
  workflowResultBuffer :: "(uuid, (nat, BufferedResult) jmap) jmap"
  uuidCount :: nat

text \<open>A transaction function sees the application's tables and whether its SQL transaction has failed.\<close>

record 'u TransactionInfo =
  ti_name :: string
  ti_config :: TransactionConfig
  ti_transaction :: "jsval list \<Rightarrow> ('u \<times> bool, jsval) meth"

record StepConfig =
  sc_retriesAllowed :: "bool option"
  sc_intervalSeconds :: "rat option"
  sc_maxAttempts :: "nat option"
  sc_backoffRate :: "rat option"

record 'x StepInfo =
  si_name :: string
  si_config :: StepConfig
  si_step :: "jsval list \<Rightarrow> ('x, jsval) meth"

record ReturnValue =
  rv_output :: jsval
  rv_error :: "jsval option"
  rv_txn_id :: "string option"
  rv_txn_snapshot :: "string option"
  rv_created_at :: "int option"

record 'u ProcedureInfo =
  pi_name :: string
  pi_config :: TransactionConfig
  pi_executeLocally :: "bool option"
  pi_procedure :: "jsval list \<Rightarrow> ('u \<times> bool, jsval) meth"
  pi_remote :: "uuid \<Rightarrow> nat \<Rightarrow> bool \<Rightarrow> (nat \<times> BufferedResult) list option \<Rightarrow> jsval list \<Rightarrow> ('u userdb, ReturnValue) meth"

record ('u, 'x) dbosExec =
  ex_runtime :: runtime
  ex_kind :: UserDatabaseName
  ex_sqlError :: "string \<Rightarrow> jserror"
  transactionInfoMap :: "string \<rightharpoonup> 'u TransactionInfo"
  stepInfoMap :: "string \<rightharpoonup> 'x StepInfo"
  procedureInfoMap :: "string \<rightharpoonup> 'u ProcedureInfo"

record wctx =
  workflowUUID :: uuid
  presetUUID :: bool

section \<open>Access to the databases\<close>

definition on_user :: "('u userdb, 'a) meth \<Rightarrow> (('u, 'x) dbos, 'a) meth" where
  "on_user m = zoomE userDatabase (\<lambda>d s. s\<lparr>userDatabase := d\<rparr>) m"

definition on_sys :: "(sysdb, 'a) meth \<Rightarrow> (('u, 'x) dbos, 'a) meth" where
  "on_sys m = zoomE systemDatabase (\<lambda>d s. s\<lparr>systemDatabase := d\<rparr>) m"

definition on_outside :: "('x, 'a) meth \<Rightarrow> (('u, 'x) dbos, 'a) meth" where
  "on_outside m = zoomE outside (\<lambda>d s. s\<lparr>outside := d\<rparr>) m"

definition in_txn :: "(('u, 'x) dbos, 'a) meth \<Rightarrow> (('u, 'x) dbos, 'a) meth" where
  "in_txn m = db_transaction userDatabase (\<lambda>d s. s\<lparr>userDatabase := d\<rparr>) m"

definition run_body :: "('u \<times> bool, 'a) meth \<Rightarrow> ('u userdb, 'a) meth" where
  "run_body body = zoomE (\<lambda>db. (ud_app db, ud_aborted db)) (\<lambda>(a, b) db. db\<lparr>ud_app := a, ud_aborted := b\<rparr>) body"

definition nowE :: "(('u, 'x) dbos, int) meth" where
  "nowE = getsE (\<lambda>s. now (systemDatabase s))"

definition sleep_rat :: "rat \<Rightarrow> (('u, 'x) dbos, unit) meth" where
  "sleep_rat ms = on_sys (modifyE (sleep_clock \<lfloor>ms\<rfloor>))"

definition functionIDGetIncrement :: "(('u, 'x) dbos, nat) meth" where
  "functionIDGetIncrement =
     bindE (getsE functionID) (\<lambda>n. seqE (modifyE (\<lambda>s. s\<lparr>functionID := Suc n\<rparr>)) (retE n))"

definition clear_buffer :: "(('u, 'x) dbos, unit) meth" where
  "clear_buffer = modifyE (\<lambda>s. s\<lparr>resultBuffer := []\<rparr>)"

definition set_snapshot :: "string \<Rightarrow> (('u, 'x) dbos, unit) meth" where
  "set_snapshot t = modifyE (\<lambda>s. s\<lparr>txn_snapshot := t\<rparr>)"

section \<open>Recorded outputs of transactions\<close>

definition retrieveSnapshot :: "('u, 'x) dbosExec \<Rightarrow> (('u, 'x) dbos, string) meth" where
  "retrieveSnapshot ex = on_user (run_sql (ex_sqlError ex) (getsE pg_current_snapshot))"

definition checkExecution :: "('u, 'x) dbosExec \<Rightarrow> wctx \<Rightarrow> nat \<Rightarrow> (('u, 'x) dbos, BufferedResult) meth" where
  "checkExecution ex ctx funcID =
     bindE (on_user (run_sql (ex_sqlError ex)
              (getsE (\<lambda>db. (transaction_outputs db (workflowUUID ctx, funcID), pg_current_snapshot db))))) (\<lambda>(row, snap).
     case row of
       None \<Rightarrow> retE \<lparr>br_output = None, br_txn_snapshot = snap, br_created_at = None\<rparr>
     | Some r \<Rightarrow>
         bindE (liftE (parse (ex_runtime ex) (to_error r))) (\<lambda>e.
         if e \<noteq> JNull then raiseE (deserializeError (ex_runtime ex) e)
         else bindE (liftE (parse (ex_runtime ex) (to_output r))) (\<lambda>v.
              retE \<lparr>br_output = Some v, br_txn_snapshot = snap, br_created_at = None\<rparr>)))"

text \<open>
  One \<open>INSERT\<close> of all buffered outputs. (The statement lists them in the order of their numbers as
  strings; the order has no effect.)
\<close>

definition insert_txn_outputs ::
    "(string \<Rightarrow> jserror) \<Rightarrow> uuid \<Rightarrow> (nat \<times> transaction_outputs_row) list \<Rightarrow> ('u userdb, unit) meth" where
  "insert_txn_outputs sqlError u rows = (\<lambda>db.
     if list_ex (\<lambda>(f, _). transaction_outputs db (u, f) \<noteq> None) rows then (Inl (sqlError ''23505''), db)
     else (Inr (), db\<lparr>transaction_outputs := foldl (\<lambda>m (f, r). m((u, f) \<mapsto> r)) (transaction_outputs db) rows\<rparr>))"

definition buffered_output :: "BufferedResult \<Rightarrow> jsval" where
  "buffered_output b = (case br_output b of None \<Rightarrow> JNull | Some v \<Rightarrow> v)"

definition buffer_rows :: "(nat, BufferedResult) jmap \<Rightarrow> jserror + (nat \<times> transaction_outputs_row) list" where
  "buffer_rows buf = traverse (\<lambda>(f, b).
     bindR (stringify (buffered_output b)) (\<lambda>c. Inr (f, \<lparr>to_output = c, to_error = Some Null, to_txn_id = None,
       to_txn_snapshot = br_txn_snapshot b, to_created_at = br_created_at b\<rparr>))) buf"

definition conflict_on :: "(jserror \<Rightarrow> bool) \<Rightarrow> wctx \<Rightarrow> jserror \<Rightarrow> (('u, 'x) dbos, 'a) meth" where
  "conflict_on isKeyConflict ctx err =
     (if isKeyConflict err then raiseE (DBOSWorkflowConflictUUIDError (workflowUUID ctx)) else raiseE err)"

definition flushResultBuffer :: "('u, 'x) dbosExec \<Rightarrow> wctx \<Rightarrow> (jserror \<Rightarrow> bool) \<Rightarrow> (('u, 'x) dbos, unit) meth" where
  "flushResultBuffer ex ctx isKeyConflict =
     bindE (getsE resultBuffer) (\<lambda>buf.
     if buf = [] then retE ()
     else catchE (bindE (liftE (buffer_rows buf)) (\<lambda>rows.
            on_user (run_sql (ex_sqlError ex) (insert_txn_outputs (ex_sqlError ex) (workflowUUID ctx) rows))))
          (conflict_on isKeyConflict ctx))"

definition recordOutput ::
    "('u, 'x) dbosExec \<Rightarrow> wctx \<Rightarrow> nat \<Rightarrow> string \<Rightarrow> jsval \<Rightarrow> (jserror \<Rightarrow> bool) \<Rightarrow> (('u, 'x) dbos, string) meth" where
  "recordOutput ex ctx funcID snap output isKeyConflict =
     catchE (bindE (liftE (stringify output)) (\<lambda>c. bindE nowE (\<lambda>t.
       bindE (getsE (\<lambda>s. nat_str (ud_xid (userDatabase s)))) (\<lambda>xid.
       seqE (on_user (run_sql (ex_sqlError ex) (insert_txn_output (ex_sqlError ex) (workflowUUID ctx) funcID
               \<lparr>to_output = c, to_error = None, to_txn_id = Some xid, to_txn_snapshot = snap, to_created_at = Some t\<rparr>)))
            (retE xid)))))
     (conflict_on isKeyConflict ctx)"

definition recordError ::
    "('u, 'x) dbosExec \<Rightarrow> wctx \<Rightarrow> nat \<Rightarrow> string \<Rightarrow> jserror \<Rightarrow> (jserror \<Rightarrow> bool) \<Rightarrow> (('u, 'x) dbos, unit) meth" where
  "recordError ex ctx funcID snap err isKeyConflict =
     catchE (bindE (liftE (stringify (serializeError (ex_runtime ex) err))) (\<lambda>c. bindE nowE (\<lambda>t.
       on_user (run_sql (ex_sqlError ex) (insert_txn_output (ex_sqlError ex) (workflowUUID ctx) funcID
         \<lparr>to_output = None, to_error = c, to_txn_id = None, to_txn_snapshot = snap, to_created_at = Some t\<rparr>)))))
     (conflict_on isKeyConflict ctx)"

text \<open>The three lines \<open>send\<close>, \<open>recv\<close>, \<open>setEvent\<close> and \<open>external\<close> begin with.\<close>

definition flush_in_txn :: "('u, 'x) dbosExec \<Rightarrow> wctx \<Rightarrow> (('u, 'x) dbos, unit) meth" where
  "flush_in_txn ex ctx =
     seqE (in_txn (flushResultBuffer ex ctx (isKeyConflictError (ex_kind ex)))) clear_buffer"

section \<open>Transactions\<close>

definition next_wait :: "rat \<Rightarrow> rat" where
  "next_wait w = (let w' = w * (3 / 2) in if w' < 2000 then w' else 2000)"

definition is_readOnly :: "TransactionConfig \<Rightarrow> bool" where
  "is_readOnly c = (case tc_readOnly c of None \<Rightarrow> False | Some b \<Rightarrow> b)"

text \<open>The part of \<open>wrappedTransaction\<close> that runs the function of the application and records its output.\<close>

definition txn_body ::
    "('u, 'x) dbosExec \<Rightarrow> wctx \<Rightarrow> 'u TransactionInfo \<Rightarrow> jsval list \<Rightarrow> (('u, 'x) dbos, jsval) meth" where
  "txn_body ex ctx info args =
     seqE (whenE (\<not> is_readOnly (ti_config info)) (flushResultBuffer ex ctx (isKeyConflictError (ex_kind ex))))
          (on_user (run_body (ti_transaction info args)))"

definition buffer_result :: "nat \<Rightarrow> jsval \<Rightarrow> (('u, 'x) dbos, jsval) meth" where
  "buffer_result funcId result =
     bindE nowE (\<lambda>t.
     seqE (modifyE (\<lambda>s. s\<lparr>resultBuffer := jm_set funcId
              \<lparr>br_output = Some result, br_txn_snapshot = txn_snapshot s, br_created_at = Some t\<rparr> (resultBuffer s)\<rparr>))
          (retE result))"

definition record_result ::
    "('u, 'x) dbosExec \<Rightarrow> wctx \<Rightarrow> 'u TransactionInfo \<Rightarrow> nat \<Rightarrow> jsval \<Rightarrow> (('u, 'x) dbos, jsval) meth" where
  "record_result ex ctx info funcId result =
     seqE (catchE (bindE (getsE txn_snapshot) (\<lambda>snap.
               seqE (recordOutput ex ctx funcId snap result (isKeyConflictError (ex_kind ex))) clear_buffer))
            (\<lambda>error. if isFailedSqlTransactionError (ex_kind ex) error
               then raiseE (DBOSFailedSqlTransactionError (workflowUUID ctx) (ti_name info)) else raiseE error))
          (retE result)"

definition run_and_record ::
    "('u, 'x) dbosExec \<Rightarrow> wctx \<Rightarrow> 'u TransactionInfo \<Rightarrow> nat \<Rightarrow> jsval list \<Rightarrow> (('u, 'x) dbos, jsval) meth" where
  "run_and_record ex ctx info funcId args =
     bindE (txn_body ex ctx info args) (\<lambda>result.
     if is_readOnly (ti_config info) then buffer_result funcId result else record_result ex ctx info funcId result)"

definition wrappedTransaction ::
    "('u, 'x) dbosExec \<Rightarrow> wctx \<Rightarrow> 'u TransactionInfo \<Rightarrow> nat \<Rightarrow> jsval list \<Rightarrow> (('u, 'x) dbos, jsval) meth" where
  "wrappedTransaction ex ctx info funcId args =
     bindE (if presetUUID ctx
            then bindE (checkExecution ex ctx funcId) (\<lambda>check.
                 seqE (set_snapshot (br_txn_snapshot check)) (retE (br_output check)))
            else bindE (retrieveSnapshot ex) (\<lambda>snap. seqE (set_snapshot snap) (retE None))) (\<lambda>cached.
     case cached of
       Some v \<Rightarrow> retE v
     | None \<Rightarrow> run_and_record ex ctx info funcId args)"

definition record_txn_error :: "('u, 'x) dbosExec \<Rightarrow> wctx \<Rightarrow> nat \<Rightarrow> jserror \<Rightarrow> (('u, 'x) dbos, 'a) meth" where
  "record_txn_error ex ctx funcId err =
     seqE (in_txn (seqE (flushResultBuffer ex ctx (isKeyConflictError (ex_kind ex)))
             (bindE (getsE txn_snapshot) (\<lambda>snap. recordError ex ctx funcId snap err (isKeyConflictError (ex_kind ex))))))
     (seqE clear_buffer (raiseE err))"

fun txn_attempts ::
    "('u, 'x) dbosExec \<Rightarrow> wctx \<Rightarrow> 'u TransactionInfo \<Rightarrow> nat \<Rightarrow> jsval list \<Rightarrow> nat \<Rightarrow> rat \<Rightarrow> (('u, 'x) dbos, jsval) meth" where
  "txn_attempts ex ctx info funcId args 0 retryWaitMillis = raiseE Diverges"
| "txn_attempts ex ctx info funcId args (Suc fuel) retryWaitMillis =
     seqE (set_snapshot ''invalid'')
     (catchE (in_txn (wrappedTransaction ex ctx info funcId args))
       (\<lambda>err. if isRetriableTransactionError (ex_kind ex) err
          then seqE (sleep_rat retryWaitMillis) (txn_attempts ex ctx info funcId args fuel (next_wait retryWaitMillis))
          else record_txn_error ex ctx funcId err))"

definition transaction ::
    "('u, 'x) dbosExec \<Rightarrow> wctx \<Rightarrow> nat \<Rightarrow> string \<Rightarrow> jsval list \<Rightarrow> (('u, 'x) dbos, jsval) meth" where
  "transaction ex ctx fuel name args =
     (case transactionInfoMap ex name of
        None \<Rightarrow> raiseE (DBOSNotRegisteredError name)
      | Some info \<Rightarrow> bindE functionIDGetIncrement (\<lambda>funcId. txn_attempts ex ctx info funcId args fuel 1))"

section \<open>Steps\<close>

definition maxRetryIntervalSec :: rat where
  "maxRetryIntervalSec = 3600"

definition retriesAllowed :: "StepConfig \<Rightarrow> bool" where
  "retriesAllowed c = (case sc_retriesAllowed c of None \<Rightarrow> True | Some b \<Rightarrow> b)"

definition intervalSeconds :: "StepConfig \<Rightarrow> rat" where
  "intervalSeconds c = (case sc_intervalSeconds c of None \<Rightarrow> 1 | Some r \<Rightarrow> r)"

definition maxAttempts :: "StepConfig \<Rightarrow> nat" where
  "maxAttempts c = (case sc_maxAttempts c of None \<Rightarrow> 3 | Some n \<Rightarrow> n)"

definition backoffRate :: "StepConfig \<Rightarrow> rat" where
  "backoffRate c = (case sc_backoffRate c of None \<Rightarrow> 2 | Some r \<Rightarrow> r)"

definition next_interval :: "rat \<Rightarrow> rat \<Rightarrow> rat" where
  "next_interval rate i = (let i' = i * rate in if i' < maxRetryIntervalSec then i' else maxRetryIntervalSec)"

text \<open>The retry loop; its counter is the number of attempts left.\<close>

fun step_attempts :: "('x, jsval) meth \<Rightarrow> rat \<Rightarrow> nat \<Rightarrow> rat \<Rightarrow> (('u, 'x) dbos, jsval option) meth" where
  "step_attempts body rate 0 interval = retE None"
| "step_attempts body rate (Suc left) interval =
     catchE (bindE (on_outside body) (\<lambda>v. retE (Some v)))
       (\<lambda>error. if 0 < left
          then seqE (sleep_rat (interval * 1000)) (step_attempts body rate left (next_interval rate interval))
          else retE None)"

definition run_step :: "'x StepInfo \<Rightarrow> jsval list \<Rightarrow> (('u, 'x) dbos, jsval) meth" where
  "run_step info args =
     (if retriesAllowed (si_config info) then
        bindE (step_attempts (si_step info args) (backoffRate (si_config info)) (maxAttempts (si_config info))
                 (intervalSeconds (si_config info))) (\<lambda>r. case r of
          Some v \<Rightarrow> retE v
        | None \<Rightarrow> raiseE (DBOSError ''Step reached maximum retries.'' 1))
      else on_outside (si_step info args))"

definition external ::
    "('u, 'x) dbosExec \<Rightarrow> wctx \<Rightarrow> string \<Rightarrow> jsval list \<Rightarrow> (('u, 'x) dbos, jsval) meth" where
  "external ex ctx name args =
     (case stepInfoMap ex name of
        None \<Rightarrow> raiseE (DBOSNotRegisteredError name)
      | Some info \<Rightarrow>
          bindE functionIDGetIncrement (\<lambda>funcID.
          seqE (flush_in_txn ex ctx)
          (bindE (on_sys (checkOperationOutput (ex_runtime ex) (workflowUUID ctx) funcID)) (\<lambda>check. case check of
             Some v \<Rightarrow> retE v
           | None \<Rightarrow> (\<lambda>s. case run_step info args s of
               (Inl err, s') \<Rightarrow>
                 seqE (on_sys (recordOperationError (ex_runtime ex) (workflowUUID ctx) funcID err)) (raiseE err) s'
             | (Inr result, s') \<Rightarrow>
                 seqE (on_sys (recordOperationOutput (workflowUUID ctx) funcID result)) (retE result) s')))))"

section \<open>Messages, events, sleep, handles\<close>

definition ctx_send ::
    "('u, 'x) dbosExec \<Rightarrow> wctx \<Rightarrow> uuid \<Rightarrow> jsval \<Rightarrow> string option \<Rightarrow> (('u, 'x) dbos, unit) meth" where
  "ctx_send ex ctx dest message topic =
     bindE functionIDGetIncrement (\<lambda>fid.
     seqE (flush_in_txn ex ctx) (on_sys (send (workflowUUID ctx) fid dest message topic)))"

definition ctx_recv ::
    "('u, 'x) dbosExec \<Rightarrow> wctx \<Rightarrow> wake \<Rightarrow> string option \<Rightarrow> int \<Rightarrow> (('u, 'x) dbos, jsval) meth" where
  "ctx_recv ex ctx w topic timeoutSeconds =
     bindE functionIDGetIncrement (\<lambda>fid. bindE functionIDGetIncrement (\<lambda>tfid.
     seqE (flush_in_txn ex ctx) (on_sys (recv (ex_runtime ex) w (workflowUUID ctx) fid tfid topic timeoutSeconds))))"

definition ctx_setEvent ::
    "('u, 'x) dbosExec \<Rightarrow> wctx \<Rightarrow> string \<Rightarrow> jsval \<Rightarrow> (('u, 'x) dbos, unit) meth" where
  "ctx_setEvent ex ctx key value =
     bindE functionIDGetIncrement (\<lambda>fid.
     seqE (flush_in_txn ex ctx) (on_sys (setEvent (workflowUUID ctx) fid key value)))"

definition ctx_getEvent ::
    "('u, 'x) dbosExec \<Rightarrow> wctx \<Rightarrow> wake \<Rightarrow> uuid \<Rightarrow> string \<Rightarrow> int \<Rightarrow> (('u, 'x) dbos, jsval) meth" where
  "ctx_getEvent ex ctx w target key timeoutSeconds =
     bindE functionIDGetIncrement (\<lambda>fid. bindE functionIDGetIncrement (\<lambda>tfid.
     on_sys (getEvent (ex_runtime ex) w target key timeoutSeconds
       (Some \<lparr>cw_workflowUUID = workflowUUID ctx, cw_functionID = fid, cw_timeoutFunctionID = tfid\<rparr>))))"

definition ctx_sleepms :: "('u, 'x) dbosExec \<Rightarrow> wctx \<Rightarrow> int \<Rightarrow> (('u, 'x) dbos, unit) meth" where
  "ctx_sleepms ex ctx durationMS =
     (if durationMS \<le> 0 then retE ()
      else bindE functionIDGetIncrement (\<lambda>fid. on_sys (sleepms (ex_runtime ex) (workflowUUID ctx) fid durationMS)))"

definition ctx_sleep :: "('u, 'x) dbosExec \<Rightarrow> wctx \<Rightarrow> int \<Rightarrow> (('u, 'x) dbos, unit) meth" where
  "ctx_sleep ex ctx durationSec = ctx_sleepms ex ctx (durationSec * 1000)"

text \<open>Handles: an invoked workflow carries its promise, here its outcome.\<close>

datatype WorkflowHandle =
    InvokedHandle uuid string "jserror + jsval" "(uuid \<times> nat) option"
  | RetrievedHandle uuid "(uuid \<times> nat) option"

fun getWorkflowUUID :: "WorkflowHandle \<Rightarrow> uuid" where
  "getWorkflowUUID (InvokedHandle u _ _ _) = u"
| "getWorkflowUUID (RetrievedHandle u _) = u"

fun handle_getStatus :: "runtime \<Rightarrow> WorkflowHandle \<Rightarrow> (sysdb, jsval) meth" where
  "handle_getStatus rt (InvokedHandle u _ _ caller) = getWorkflowStatus rt u caller"
| "handle_getStatus rt (RetrievedHandle u caller) = getWorkflowStatus rt u caller"

fun handle_getResult :: "runtime \<Rightarrow> (sysdb \<Rightarrow> sysdb) list \<Rightarrow> WorkflowHandle \<Rightarrow> (sysdb, jsval) meth" where
  "handle_getResult rt others (InvokedHandle _ _ promise _) = liftE promise"
| "handle_getResult rt others (RetrievedHandle u _) = getWorkflowResult rt others u"

definition handle_getWorkflowInputs :: "runtime \<Rightarrow> WorkflowHandle \<Rightarrow> (sysdb, jsval list option) meth" where
  "handle_getWorkflowInputs rt h = getWorkflowInputs rt (getWorkflowUUID h)"

definition ctx_retrieveWorkflow :: "wctx \<Rightarrow> uuid \<Rightarrow> (('u, 'x) dbos, WorkflowHandle) meth" where
  "ctx_retrieveWorkflow ctx target =
     bindE functionIDGetIncrement (\<lambda>fid. retE (RetrievedHandle target (Some (workflowUUID ctx, fid))))"

definition child_uuid :: "uuid \<Rightarrow> nat \<Rightarrow> uuid" where
  "child_uuid u fid = u @ ''-'' @ nat_str fid"

section \<open>Stored procedures\<close>

text \<open>
  Run locally, a procedure uses a connection of the \<open>pg\<close> client, whatever the driver of the
  application (\<open>executeProcedure\<close>). The look-up uses the counter of the context, which has already
  moved on, and not the number of the call. A failed call records its error twice.
\<close>

definition proc_ex :: "('u, 'x) dbosExec \<Rightarrow> ('u, 'x) dbosExec" where
  "proc_ex ex = ex\<lparr>ex_sqlError := pg_err\<rparr>"

definition wrappedProcedure ::
    "('u, 'x) dbosExec \<Rightarrow> wctx \<Rightarrow> 'u ProcedureInfo \<Rightarrow> nat \<Rightarrow> jsval list \<Rightarrow> (('u, 'x) dbos, jsval) meth" where
  "wrappedProcedure ex ctx info funcId args =
     bindE (if presetUUID ctx
            then bindE (getsE functionID) (\<lambda>fid. bindE (checkExecution (proc_ex ex) ctx fid) (\<lambda>check.
                 seqE (set_snapshot (br_txn_snapshot check)) (retE (br_output check))))
            else bindE (retrieveSnapshot (proc_ex ex)) (\<lambda>snap. seqE (set_snapshot snap) (retE None))) (\<lambda>cached.
     case cached of
       Some v \<Rightarrow> retE v
     | None \<Rightarrow>
         seqE (whenE (\<not> is_readOnly (pi_config info)) (flushResultBuffer (proc_ex ex) ctx pgNodeIsKeyConflictError))
         (bindE (on_user (run_body (pi_procedure info args))) (\<lambda>result.
         if is_readOnly (pi_config info) then
           bindE nowE (\<lambda>t.
           seqE (modifyE (\<lambda>s. s\<lparr>resultBuffer := jm_set funcId
                    \<lparr>br_output = Some result, br_txn_snapshot = txn_snapshot s, br_created_at = Some t\<rparr> (resultBuffer s)\<rparr>))
                (retE result))
         else
           bindE (getsE txn_snapshot) (\<lambda>snap.
           seqE (recordOutput (proc_ex ex) ctx funcId snap result pgNodeIsKeyConflictError)
           (seqE clear_buffer (retE result))))))"

definition record_proc_error :: "('u, 'x) dbosExec \<Rightarrow> wctx \<Rightarrow> nat \<Rightarrow> jserror \<Rightarrow> (('u, 'x) dbos, 'a) meth" where
  "record_proc_error ex ctx funcId err =
     seqE (in_txn (seqE (flushResultBuffer (proc_ex ex) ctx pgNodeIsKeyConflictError)
             (bindE (getsE txn_snapshot) (\<lambda>snap. recordError (proc_ex ex) ctx funcId snap err pgNodeIsKeyConflictError))))
     (seqE (in_txn (seqE (flushResultBuffer ex ctx (isKeyConflictError (ex_kind ex)))
             (bindE (getsE txn_snapshot) (\<lambda>snap. recordError ex ctx funcId snap err (isKeyConflictError (ex_kind ex))))))
     (seqE clear_buffer (raiseE err)))"

fun invokeProcLocal ::
    "('u, 'x) dbosExec \<Rightarrow> wctx \<Rightarrow> 'u ProcedureInfo \<Rightarrow> nat \<Rightarrow> jsval list \<Rightarrow> nat \<Rightarrow> rat \<Rightarrow> (('u, 'x) dbos, jsval) meth" where
  "invokeProcLocal ex ctx info funcId args 0 retryWaitMillis = raiseE Diverges"
| "invokeProcLocal ex ctx info funcId args (Suc fuel) retryWaitMillis =
     seqE (set_snapshot ''invalid'')
     (catchE (in_txn (wrappedProcedure ex ctx info funcId args))
       (\<lambda>err. if isRetriableTransactionError (ex_kind ex) err
          then seqE (sleep_rat retryWaitMillis) (invokeProcLocal ex ctx info funcId args fuel (next_wait retryWaitMillis))
          else record_proc_error ex ctx funcId err))"

text \<open>Run in the database, a procedure is a parameter; this is how its reply is treated.\<close>

definition invokeProcRemote ::
    "('u, 'x) dbosExec \<Rightarrow> wctx \<Rightarrow> 'u ProcedureInfo \<Rightarrow> nat \<Rightarrow> jsval list \<Rightarrow> (('u, 'x) dbos, jsval) meth" where
  "invokeProcRemote ex ctx info funcId args =
     (let readOnly = is_readOnly (pi_config info) in
      bindE (getsE (\<lambda>s. if readOnly \<or> resultBuffer s = [] then None else Some (sort_key fst (resultBuffer s)))) (\<lambda>bufferedResults.
      bindE (on_user (pi_remote info (workflowUUID ctx) funcId (presetUUID ctx) bufferedResults args)) (\<lambda>rv.
      seqE (whenE (\<not> readOnly) clear_buffer)
      (case rv_error rv of
         Some e \<Rightarrow> raiseE (deserializeError (ex_runtime ex) e)
       | None \<Rightarrow>
           bindE nowE (\<lambda>t.
           seqE (case (readOnly, or_undefined (rv_txn_snapshot rv)) of
                   (True, Some snap) \<Rightarrow> modifyE (\<lambda>s. s\<lparr>resultBuffer := jm_set funcId
                      \<lparr>br_output = Some (rv_output rv), br_txn_snapshot = snap,
                       br_created_at = Some (case rv_created_at rv of None \<Rightarrow> t | Some c \<Rightarrow> c)\<rparr> (resultBuffer s)\<rparr>)
                 | _ \<Rightarrow> retE ())
           (seqE (whenE (\<not> readOnly) clear_buffer) (retE (rv_output rv))))))))"

definition procedure ::
    "('u, 'x) dbosExec \<Rightarrow> wctx \<Rightarrow> nat \<Rightarrow> string \<Rightarrow> jsval list \<Rightarrow> (('u, 'x) dbos, jsval) meth" where
  "procedure ex ctx fuel name args =
     (case procedureInfoMap ex name of
        None \<Rightarrow> raiseE (DBOSNotRegisteredError name)
      | Some info \<Rightarrow>
          bindE functionIDGetIncrement (\<lambda>funcId.
          if pi_executeLocally info = Some True then invokeProcLocal ex ctx info funcId args fuel 1
          else invokeProcRemote ex ctx info funcId args))"

section \<open>Effects, one at a time\<close>

lemma on_sys_run: "on_sys m s = (case m (systemDatabase s) of (r, d) \<Rightarrow> (r, s\<lparr>systemDatabase := d\<rparr>))"
  by (simp add: on_sys_def zoomE_def)

lemma on_user_run: "on_user m s = (case m (userDatabase s) of (r, d) \<Rightarrow> (r, s\<lparr>userDatabase := d\<rparr>))"
  by (simp add: on_user_def zoomE_def)

lemma on_outside_run: "on_outside m s = (case m (outside s) of (r, d) \<Rightarrow> (r, s\<lparr>outside := d\<rparr>))"
  by (simp add: on_outside_def zoomE_def)

lemma functionIDGetIncrement_run [simp]:
  "functionIDGetIncrement s = (Inr (functionID s), s\<lparr>functionID := Suc (functionID s)\<rparr>)"
  by (simp add: functionIDGetIncrement_def em_simps)

lemma bind_functionID: "bindE functionIDGetIncrement k s = k (functionID s) (s\<lparr>functionID := Suc (functionID s)\<rparr>)"
  by (simp add: bindE_def)

section \<open>Steps run once\<close>

text \<open>The operation log of the system database, seen from a workflow, keeps the contract of \<open>op_store\<close>.\<close>

interpretation wfs: op_store
  "\<lambda>u f. on_sys (checkOperationOutput rt u f) :: (('u, 'x) dbos, jsval option) meth"
  "\<lambda>u f v. on_sys (recordOperationOutput u f v)" "\<lambda>u f e. on_sys (recordOperationError rt u f e)"
  "\<lambda>s. recorded_op rt (systemDatabase s)" "canon_val rt" "canon_err rt" DBOSWorkflowConflictUUIDError
  for rt :: runtime
proof unfold_locales
  fix s t :: "('u, 'x) dbos" and u f v v' x e e'
  let ?db = "systemDatabase s"
  show "recorded_op rt ?db (u, f) = None \<Longrightarrow> on_sys (checkOperationOutput rt u f) s = (Inr None, s)"
    by (simp add: on_sys_run pg.check_absent)
  show "recorded_op rt ?db (u, f) = Some (Inr v) \<Longrightarrow> on_sys (checkOperationOutput rt u f) s = (Inr (Some v), s)"
    by (simp add: on_sys_run pg.check_value)
  show "recorded_op rt ?db (u, f) = Some (Inl e) \<Longrightarrow> on_sys (checkOperationOutput rt u f) s = (Inl e, s)"
    by (simp add: on_sys_run pg.check_error)
  show "on_sys (recordOperationOutput u f v) s = (Inr x, t) \<Longrightarrow>
      recorded_op rt (systemDatabase t) = (recorded_op rt ?db)((u, f) \<mapsto> canon_val rt v)"
    by (auto simp: on_sys_run dest: pg.record_out_ok split: prod.splits)
  show "on_sys (recordOperationError rt u f e) s = (Inr x, t) \<Longrightarrow>
      recorded_op rt (systemDatabase t) = (recorded_op rt ?db)((u, f) \<mapsto> canon_err rt e)"
    by (auto simp: on_sys_run dest: pg.record_err_ok split: prod.splits)
  show "on_sys (recordOperationOutput u f v) s = (Inl e, t) \<Longrightarrow> t = s"
    by (auto simp: on_sys_run dest!: pg.record_out_fails split: prod.splits)
  show "on_sys (recordOperationError rt u f e) s = (Inl e', t) \<Longrightarrow> t = s"
    by (auto simp: on_sys_run dest!: pg.record_err_fails split: prod.splits)
  show "recorded_op rt ?db (u, f) \<noteq> None \<Longrightarrow> canon_val rt v = Inr v' \<Longrightarrow>
      on_sys (recordOperationOutput u f v) s = (Inl (DBOSWorkflowConflictUUIDError u), s)"
    by (simp add: on_sys_run pg.record_out_conflict)
qed

text \<open>A step is: take a number, write the buffered outputs, and run once under that number.\<close>

lemma external_once:
  assumes "stepInfoMap ex name = Some info"
  shows "external ex ctx name args =
    bindE functionIDGetIncrement (\<lambda>fid. seqE (flush_in_txn ex ctx)
      (wfs.once (ex_runtime ex) (workflowUUID ctx) fid (run_step info args)))"
  by (simp add: external_def assms wfs.once_def if_distrib cong: option.case_cong)

section \<open>Transactions are atomic\<close>

lemma in_txn_run:
  "in_txn m s = (case m (s\<lparr>userDatabase := begin_txn (userDatabase s)\<rparr>) of
     (Inl e, s') \<Rightarrow> (Inl e, s'\<lparr>userDatabase := rollback (userDatabase s) (userDatabase s')\<rparr>)
   | (Inr x, s') \<Rightarrow>
       (case next_fault (userDatabase s') of
          Some e \<Rightarrow> (Inl e, s'\<lparr>userDatabase := pop_fault (rollback (userDatabase s) (userDatabase s'))\<rparr>)
        | None \<Rightarrow> if ud_aborted (userDatabase s')
            then (Inr x, s'\<lparr>userDatabase := pop_fault (rollback (userDatabase s) (userDatabase s'))\<rparr>)
            else (Inr x, s'\<lparr>userDatabase := pop_fault (userDatabase s')\<rparr>)))"
  by (simp add: in_txn_def db_transaction_def)

definition app_of :: "('u, 'x) dbos \<Rightarrow> 'u" where
  "app_of s = ud_app (userDatabase s)"

definition txn_log :: "('u, 'x) dbos \<Rightarrow> uuid \<times> nat \<rightharpoonup> transaction_outputs_row" where
  "txn_log s = transaction_outputs (userDatabase s)"

lemma in_txn_error:
  "in_txn m s = (Inl e, t) \<Longrightarrow> app_of t = app_of s \<and> txn_log t = txn_log s"
  by (auto simp: in_txn_run app_of_def txn_log_def rollback_def pop_fault_def
      split: prod.splits sum.splits option.splits if_splits)

text \<open>
  A returned transaction either committed what its body did, or was rolled back because it had failed a
  statement that its body ignored.
\<close>

lemma in_txn_value:
  assumes "in_txn m s = (Inr x, t)"
  obtains s' where "m (s\<lparr>userDatabase := begin_txn (userDatabase s)\<rparr>) = (Inr x, s')"
    "app_of t = (if ud_aborted (userDatabase s') then app_of s else app_of s')"
    "txn_log t = (if ud_aborted (userDatabase s') then txn_log s else txn_log s')"
    "resultBuffer t = resultBuffer s'" "systemDatabase t = systemDatabase s'" "outside t = outside s'"
    "functionID t = functionID s'"
  using assms
  by (auto simp: in_txn_run app_of_def txn_log_def rollback_def pop_fault_def
      split: prod.splits sum.splits option.splits if_splits)

lemma run_sql_run:
  "run_sql sq m db = (if ud_aborted db then (Inl (sq ''25P02''), db)
     else case m db of (Inl e, db') \<Rightarrow> (Inl e, db'\<lparr>ud_aborted := True\<rparr>) | (Inr x, db') \<Rightarrow> (Inr x, db'))"
  by (simp add: run_sql_def)

text \<open>Recording needs a healthy transaction and leaves the record and the application's data as they are.\<close>

lemma recordOutput_ok:
  assumes "recordOutput ex ctx fid snap v k s = (Inr x, t)"
  shows "\<not> ud_aborted (userDatabase t)" "app_of t = app_of s" "txn_log s (workflowUUID ctx, fid) = None"
    "\<exists>row c. txn_log t = (txn_log s)((workflowUUID ctx, fid) \<mapsto> row) \<and> to_error row = None \<and>
       stringify v = Inr c \<and> to_output row = c"
    "resultBuffer t = resultBuffer s" "systemDatabase t = systemDatabase s" "outside t = outside s" "functionID t = functionID s"
  using assms
  by (auto simp: recordOutput_def conflict_on_def on_user_run run_sql_run insert_txn_output_def nowE_def app_of_def
      txn_log_def em_simps split: prod.splits sum.splits if_splits)

text \<open>The two ways an attempt returns: the recorded output, or a run of the body.\<close>

lemma checkExecution_run:
  assumes "\<not> ud_aborted (userDatabase s)"
  shows "checkExecution ex ctx fid s =
    (case txn_log s (workflowUUID ctx, fid) of
       None \<Rightarrow> (Inr \<lparr>br_output = None, br_txn_snapshot = pg_current_snapshot (userDatabase s), br_created_at = None\<rparr>, s)
     | Some r \<Rightarrow>
        (case bindR (parse (ex_runtime ex) (to_error r)) (\<lambda>e. if e \<noteq> JNull then Inl (deserializeError (ex_runtime ex) e)
                else parse (ex_runtime ex) (to_output r)) of
           Inl e \<Rightarrow> (Inl e, s)
         | Inr v \<Rightarrow> (Inr \<lparr>br_output = Some v, br_txn_snapshot = pg_current_snapshot (userDatabase s), br_created_at = None\<rparr>, s)))"
  using assms
  by (auto simp: checkExecution_def on_user_run run_sql_run em_simps txn_log_def bindR_def split: option.splits sum.splits)

definition decode_txn :: "runtime \<Rightarrow> transaction_outputs_row \<Rightarrow> jserror + jsval" where
  "decode_txn rt r =
     bindR (parse rt (to_error r)) (\<lambda>e. if e \<noteq> JNull then Inl (deserializeError rt e) else parse rt (to_output r))"

lemma flushResultBuffer_frame:
  assumes "flushResultBuffer ex ctx k s = (r, t)"
  shows "app_of t = app_of s \<and> systemDatabase t = systemDatabase s \<and> outside t = outside s \<and>
     functionID t = functionID s \<and> resultBuffer t = resultBuffer s \<and> txn_snapshot t = txn_snapshot s \<and>
     commit_faults (userDatabase t) = commit_faults (userDatabase s)"
  using assms
  by (auto simp: flushResultBuffer_def conflict_on_def on_user_run run_sql_run insert_txn_outputs_def app_of_def
      em_simps split: prod.splits sum.splits if_splits)

lemma fold_rows_other:
  "v \<noteq> u \<or> g \<notin> fst ` set rows \<Longrightarrow> foldl (\<lambda>m (f, r). m((u, f) \<mapsto> r)) m rows (v, g) = m (v, g)"
proof (induction rows arbitrary: m)
  case (Cons x rows)
  obtain f r where "x = (f, r)" by (cases x)
  then show ?case using Cons by (auto simp del: fun_upd_apply) (auto)
qed simp

lemma flushResultBuffer_log:
  assumes "flushResultBuffer ex ctx k s = (r, t)" "txn_log s x = Some row"
  shows "txn_log t x = Some row"
proof -
  obtain v g where x: "x = (v, g)" by (cases x)
  show ?thesis
  proof (cases "txn_log t = txn_log s")
    case False
    with assms(1) obtain rows where
      log: "txn_log t = foldl (\<lambda>m (f, r). m((workflowUUID ctx, f) \<mapsto> r)) (txn_log s) rows"
      and new: "\<forall>p \<in> set rows. txn_log s (workflowUUID ctx, fst p) = None"
      by (fastforce simp: flushResultBuffer_def conflict_on_def on_user_run run_sql_run insert_txn_outputs_def txn_log_def
          em_simps list_ex_iff split: prod.splits sum.splits if_splits)
    have "v \<noteq> workflowUUID ctx \<or> g \<notin> fst ` set rows" using new assms(2) x by auto
    then show ?thesis using assms(2) x by (simp add: log fold_rows_other)
  qed (use assms(2) in simp)
qed

lemma flushResultBuffer_clean:
  "flushResultBuffer ex ctx k s = (Inr x, t) \<Longrightarrow> \<not> ud_aborted (userDatabase s) \<Longrightarrow> \<not> ud_aborted (userDatabase t)"
  by (auto simp: flushResultBuffer_def conflict_on_def on_user_run run_sql_run insert_txn_outputs_def
      em_simps split: prod.splits sum.splits if_splits)

text \<open>What a writing attempt does: run the body on the application's data and log its output.\<close>

definition ran_and_logged :: "wctx \<Rightarrow> 'u TransactionInfo \<Rightarrow> nat \<Rightarrow> jsval list \<Rightarrow> ('u, 'x) dbos \<Rightarrow> jsval \<Rightarrow> ('u, 'x) dbos \<Rightarrow> bool" where
  "ran_and_logged ctx info fid args s v t \<longleftrightarrow>
     (\<exists>row b. ti_transaction info args (app_of s, False) = (Inr v, (app_of t, b)) \<and>
        txn_log s (workflowUUID ctx, fid) = None \<and> txn_log t (workflowUUID ctx, fid) = Some row \<and>
        to_error row = None \<and> stringify v = Inr (to_output row)) \<and> resultBuffer t = []"

lemma record_result_ok:
  assumes "record_result ex ctx info fid res s = (Inr v, t)"
  obtains y s4 where "recordOutput ex ctx fid (txn_snapshot s) res (isKeyConflictError (ex_kind ex)) s = (Inr y, s4)"
    "t = s4\<lparr>resultBuffer := []\<rparr>" "v = res"
proof -
  let ?m = "bindE (getsE txn_snapshot) (\<lambda>snap. seqE (recordOutput ex ctx fid snap res (isKeyConflictError (ex_kind ex))) clear_buffer)"
  from assms obtain u where c: "catchE ?m (\<lambda>error. if isFailedSqlTransactionError (ex_kind ex) error
       then raiseE (DBOSFailedSqlTransactionError (workflowUUID ctx) (ti_name info)) else raiseE error) s = (Inr u, t)"
    and v: "v = res" unfolding record_result_def by (auto simp: retE_def elim: seqE_InrD)
  from c have "?m s = (Inr u, t)" by (rule catchE_rethrow) auto
  with v that show thesis by (auto simp: clear_buffer_def modifyE_def elim!: seqE_InrD)
qed

lemma record_result_fails:
  assumes "record_result ex ctx info fid res s = (Inl e, t)"
  shows "\<exists>e'. recordOutput ex ctx fid (txn_snapshot s) res (isKeyConflictError (ex_kind ex)) s = (Inl e', t)"
proof -
  let ?m = "bindE (getsE txn_snapshot) (\<lambda>snap. seqE (recordOutput ex ctx fid snap res (isKeyConflictError (ex_kind ex))) clear_buffer)"
  from assms have "catchE ?m (\<lambda>error. if isFailedSqlTransactionError (ex_kind ex) error
       then raiseE (DBOSFailedSqlTransactionError (workflowUUID ctx) (ti_name info)) else raiseE error) s = (Inl e, t)"
    unfolding record_result_def by (rule seqE_InlD) (simp_all add: retE_def)
  then have "\<exists>e'. ?m s = (Inl e', t)" by (rule catchE_rethrown) auto
  then show ?thesis by (auto simp: clear_buffer_def modifyE_def elim!: seqE_InlD)
qed

lemma run_and_record_split:
  assumes run: "run_and_record ex ctx info fid args s = (Inr v, t)" and w: "\<not> is_readOnly (ti_config info)"
  obtains x s2 s3 y s4 where "flushResultBuffer ex ctx (isKeyConflictError (ex_kind ex)) s = (Inr x, s2)"
    "on_user (run_body (ti_transaction info args)) s2 = (Inr v, s3)"
    "recordOutput ex ctx fid (txn_snapshot s3) v (isKeyConflictError (ex_kind ex)) s3 = (Inr y, s4)"
    "t = s4\<lparr>resultBuffer := []\<rparr>"
proof -
  from run w obtain res s3 where b: "txn_body ex ctx info args s = (Inr res, s3)" and r: "record_result ex ctx info fid res s3 = (Inr v, t)"
    unfolding run_and_record_def by (auto elim: bindE_InrD)
  from b w obtain x s2 where "flushResultBuffer ex ctx (isKeyConflictError (ex_kind ex)) s = (Inr x, s2)"
    "on_user (run_body (ti_transaction info args)) s2 = (Inr res, s3)"
    unfolding txn_body_def by (auto simp: whenE_def elim: seqE_InrD)
  with r that show thesis by (metis record_result_ok)
qed

lemma run_and_record_write:
  assumes run: "run_and_record ex ctx info fid args s = (Inr v, t)"
    and w: "\<not> is_readOnly (ti_config info)" and clean: "\<not> ud_aborted (userDatabase s)"
  shows "ran_and_logged ctx info fid args s v t \<and> \<not> ud_aborted (userDatabase t)"
proof -
  from run_and_record_split [OF run w] obtain x s2 s3 y s4 where
    fl: "flushResultBuffer ex ctx (isKeyConflictError (ex_kind ex)) s = (Inr x, s2)"
    and body: "on_user (run_body (ti_transaction info args)) s2 = (Inr v, s3)"
    and rec: "recordOutput ex ctx fid (txn_snapshot s3) v (isKeyConflictError (ex_kind ex)) s3 = (Inr y, s4)"
    and t: "t = s4\<lparr>resultBuffer := []\<rparr>" .
  note rec' = recordOutput_ok [OF rec]
  obtain b where b: "ti_transaction info args (app_of s2, ud_aborted (userDatabase s2)) = (Inr v, (app_of s3, b))"
    and log3: "txn_log s3 = txn_log s2"
    using body by (auto simp: on_user_run run_body_def zoomE_def app_of_def txn_log_def split: prod.splits)
  have "app_of s2 = app_of s" using flushResultBuffer_frame [OF fl] by simp
  moreover have "app_of t = app_of s3" using rec'(2) t by (simp add: app_of_def)
  ultimately have "ti_transaction info args (app_of s, False) = (Inr v, (app_of t, b))"
    using b flushResultBuffer_clean [OF fl clean] by simp
  moreover have "txn_log s (workflowUUID ctx, fid) = None"
    using flushResultBuffer_log [OF fl, of "(workflowUUID ctx, fid)"] rec'(3) log3
    by (cases "txn_log s (workflowUUID ctx, fid)") auto
  moreover obtain row where "txn_log s4 = (txn_log s3)((workflowUUID ctx, fid) \<mapsto> row)" "to_error row = None"
    "stringify v = Inr (to_output row)" using rec'(4) by blast
  ultimately show ?thesis using t rec'(1) by (auto simp: ran_and_logged_def txn_log_def)
qed

lemma wrappedTransaction_run:
  assumes "\<not> ud_aborted (userDatabase s)"
  defines "s1 \<equiv> s\<lparr>txn_snapshot := pg_current_snapshot (userDatabase s)\<rparr>"
  shows "wrappedTransaction ex ctx info fid args s =
    (case (if presetUUID ctx then txn_log s (workflowUUID ctx, fid) else None) of
       None \<Rightarrow> run_and_record ex ctx info fid args s1
     | Some row \<Rightarrow> (case decode_txn (ex_runtime ex) row of Inl e \<Rightarrow> (Inl e, s) | Inr v \<Rightarrow> (Inr v, s1)))"
  using assms
  by (auto simp: wrappedTransaction_def checkExecution_run retrieveSnapshot_def on_user_run run_sql_run set_snapshot_def
      bindE_def seqE_def getsE_def modifyE_def retE_def decode_txn_def split: option.splits sum.splits)

lemma ran_and_logged_snapshot: "ran_and_logged ctx info fid args (s\<lparr>txn_snapshot := x\<rparr>) v t = ran_and_logged ctx info fid args s v t"
  by (simp add: ran_and_logged_def app_of_def txn_log_def)

text \<open>
  An attempt of a transaction that writes: it returned the recorded output and did nothing, or
  it ran the body on the application's data and its output is in the log.
\<close>

lemma wrappedTransaction_ok:
  assumes run: "wrappedTransaction ex ctx info fid args s = (Inr v, t)"
    and w: "\<not> is_readOnly (ti_config info)" and clean: "\<not> ud_aborted (userDatabase s)"
  shows "\<not> ud_aborted (userDatabase t) \<and> (ran_and_logged ctx info fid args s v t \<or>
    (\<exists>row. presetUUID ctx \<and> txn_log s (workflowUUID ctx, fid) = Some row \<and> decode_txn (ex_runtime ex) row = Inr v \<and>
       app_of t = app_of s \<and> txn_log t = txn_log s \<and> resultBuffer t = resultBuffer s))"
proof (cases "if presetUUID ctx then txn_log s (workflowUUID ctx, fid) else None")
  case None
  with run clean have "run_and_record ex ctx info fid args (s\<lparr>txn_snapshot := pg_current_snapshot (userDatabase s)\<rparr>) = (Inr v, t)"
    by (simp add: wrappedTransaction_run split: option.splits)
  from run_and_record_write [OF this w] clean show ?thesis by (simp add: ran_and_logged_snapshot)
next
  case (Some row)
  with run clean show ?thesis
    by (auto simp: wrappedTransaction_run app_of_def txn_log_def split: if_splits sum.splits)
qed

lemma begin_view [simp]:
  "app_of (s\<lparr>userDatabase := begin_txn (userDatabase s)\<rparr>) = app_of s"
  "txn_log (s\<lparr>userDatabase := begin_txn (userDatabase s)\<rparr>) = txn_log s"
  "ud_aborted (begin_txn db) = False"
  by (simp_all add: app_of_def txn_log_def begin_txn_def)

lemma attempt_ok:
  assumes "in_txn (wrappedTransaction ex ctx info fid args) s = (Inr v, t)" "\<not> is_readOnly (ti_config info)"
  shows "ran_and_logged ctx info fid args s v t \<or>
    (\<exists>row. presetUUID ctx \<and> txn_log s (workflowUUID ctx, fid) = Some row \<and> decode_txn (ex_runtime ex) row = Inr v \<and>
       app_of t = app_of s \<and> txn_log t = txn_log s \<and> resultBuffer t = resultBuffer s)"
proof -
  from assms(1) obtain s' where run: "wrappedTransaction ex ctx info fid args (s\<lparr>userDatabase := begin_txn (userDatabase s)\<rparr>) = (Inr v, s')"
    and t: "app_of t = (if ud_aborted (userDatabase s') then app_of s else app_of s')"
    "txn_log t = (if ud_aborted (userDatabase s') then txn_log s else txn_log s')" "resultBuffer t = resultBuffer s'"
    by (rule in_txn_value)
  from wrappedTransaction_ok [OF run assms(2)] t show ?thesis
    by (auto simp: ran_and_logged_def)
qed

lemma recordError_frame:
  "recordError ex ctx fid snap err k s = (r, t) \<Longrightarrow> app_of t = app_of s \<and> systemDatabase t = systemDatabase s \<and> outside t = outside s"
  by (auto simp: recordError_def conflict_on_def on_user_run run_sql_run insert_txn_output_def nowE_def app_of_def
      em_simps split: prod.splits sum.splits if_splits)

lemma record_txn_error_frame:
  assumes "record_txn_error ex ctx fid err s = (r, t)"
  shows "app_of t = app_of s \<and> (\<exists>e. r = Inl e)"
proof -
  let ?k = "isKeyConflictError (ex_kind ex)"
  let ?m = "seqE (flushResultBuffer ex ctx ?k) (bindE (getsE txn_snapshot) (\<lambda>snap. recordError ex ctx fid snap err ?k))"
  obtain r1 s1 where run: "in_txn ?m s = (r1, s1)" by fastforce
  have "app_of s1 = app_of s"
  proof (cases r1)
    case (Inl e)
    then show ?thesis using in_txn_error [of ?m s e s1] run by simp
  next
    case (Inr x)
    with run obtain s' where "?m (s\<lparr>userDatabase := begin_txn (userDatabase s)\<rparr>) = (Inr x, s')"
      and t: "app_of s1 = (if ud_aborted (userDatabase s') then app_of s else app_of s')" by (auto elim: in_txn_value)
    then have "app_of s' = app_of s"
      by (auto simp: seqE_def getsE_def bindE_def dest!: flushResultBuffer_frame recordError_frame split: prod.splits sum.splits)
    then show ?thesis using t by simp
  qed
  moreover have "app_of t = app_of s1 \<and> (\<exists>e. r = Inl e)"
    using assms run by (cases r1) (auto simp: record_txn_error_def seqE_def bindE_def clear_buffer_def modifyE_def raiseE_def app_of_def)
  ultimately show ?thesis by simp
qed

text \<open>
  A transaction that writes is atomic: if it throws, the application's data is what it was; if
  it returns, either its output was already recorded and nothing happened, or its body ran on the
  application's data exactly once and its output is recorded with it.
\<close>

lemma txn_attempts_atomic:
  assumes "txn_attempts ex ctx info fid args fuel w s = (r, t)" "\<not> is_readOnly (ti_config info)"
  shows "case r of
     Inl e \<Rightarrow> app_of t = app_of s
   | Inr v \<Rightarrow> ran_and_logged ctx info fid args s v t \<or>
      (\<exists>row. presetUUID ctx \<and> txn_log s (workflowUUID ctx, fid) = Some row \<and> decode_txn (ex_runtime ex) row = Inr v \<and>
         app_of t = app_of s \<and> txn_log t = txn_log s)"
  using assms(1)
proof (induction fuel arbitrary: w s)
  case 0
  then show ?case by (auto simp: raiseE_def)
next
  case (Suc fuel)
  define s0 where "s0 = s\<lparr>txn_snapshot := ''invalid''\<rparr>"
  have s0: "app_of s0 = app_of s" "txn_log s0 = txn_log s" by (simp_all add: s0_def app_of_def txn_log_def)
  obtain r1 s1 where att: "in_txn (wrappedTransaction ex ctx info fid args) s0 = (r1, s1)" by fastforce
  note go = Suc.prems [simplified, unfolded seqE_def bindE_def set_snapshot_def modifyE_def catchE_def, simplified, folded s0_def]
  show ?case
  proof (cases r1)
    case (Inr v)
    with go att have "r = Inr v" "t = s1" by simp_all
    then show ?thesis using attempt_ok [OF att [unfolded Inr] assms(2)]
      by (auto simp: ran_and_logged_def s0)
  next
    case (Inl e)
    have same: "app_of s1 = app_of s" "txn_log s1 = txn_log s" using in_txn_error [OF att [unfolded Inl]] s0 by simp_all
    show ?thesis
    proof (cases "isRetriableTransactionError (ex_kind ex) e")
      case True
      define s2 where "s2 = s1\<lparr>systemDatabase := sleep_clock \<lfloor>w\<rfloor> (systemDatabase s1)\<rparr>"
      have "txn_attempts ex ctx info fid args fuel (next_wait w) s2 = (r, t)"
        using go att Inl True by (simp add: sleep_rat_def on_sys_run modifyE_def s2_def)
      from Suc.IH [OF this] show ?thesis
        using same by (simp add: ran_and_logged_def s2_def app_of_def txn_log_def split: sum.splits)
    next
      case False
      with go att Inl have "record_txn_error ex ctx fid e s1 = (r, t)" by simp
      from record_txn_error_frame [OF this] show ?thesis using same by auto
    qed
  qed
qed

end
