(* ===== verification/Transactions.thy ===== *)
theory Transactions
  imports WfContext
begin

text \<open>
  What a workflow may rely on when it calls a transaction: a transaction whose output is recorded
  is not run again, even when the read of the record has to be retried; the retry loop ends; and two
  places where the code does not keep its promise, a recorded error that is not replayed and buffered
  outputs that a failed commit drops.
\<close>

section \<open>The retry loop ends\<close>

definition ok_error :: "('u, 'x) dbosExec \<Rightarrow> jserror \<Rightarrow> bool" where
  "ok_error ex e \<longleftrightarrow> e \<noteq> Diverges \<and> \<not> isRetriableTransactionError (ex_kind ex) e"

text \<open>
  Third-party code: errors of reading stored values, errors rebuilt from storage, and SQL states other
  than a serialization failure are not retriable.
\<close>

definition plain_errors :: "('u, 'x) dbosExec \<Rightarrow> bool" where
  "plain_errors ex \<longleftrightarrow>
     (\<forall>c e. parse (ex_runtime ex) c = Inl e \<longrightarrow> ok_error ex e) \<and>
     (\<forall>v. ok_error ex (deserializeError (ex_runtime ex) v)) \<and>
     (\<forall>code. code \<noteq> ''40001'' \<longrightarrow> ok_error ex (ex_sqlError ex code))"

lemma ok_error_range: "ok_error ex (runtime_error nm msg)"
  by (cases "ex_kind ex")
    (simp_all add: ok_error_def isRetriableTransactionError_def has_code_def runtime_error_def or_undefined_def)

lemma ok_error_dbos: "dbosErrorCode e \<noteq> None \<Longrightarrow> ok_error ex e"
  by (cases e) (auto simp: ok_error_def isRetriableTransactionError_def dbos_error_has_no_code)

lemma throws_stringify: "throws (ok_error ex) (liftE (stringify v))"
  by (rule throws_lift) (auto dest: stringify_error simp: ok_error_range)

lemma throws_run_sql:
  "plain_errors ex \<Longrightarrow> throws (ok_error ex) m \<Longrightarrow> throws (ok_error ex) (run_sql (ex_sqlError ex) m)"
  by (auto simp: throws_def run_sql_run plain_errors_def split: prod.splits sum.splits if_splits)

lemma throws_on_user [throws_rules]: "throws P m \<Longrightarrow> throws P (on_user m)"
  unfolding on_user_def by (rule throws_zoom)

lemma throws_nowE [throws_rules]: "throws P nowE"
  unfolding nowE_def by (rule throws_gets)

lemma throws_clear [throws_rules]: "throws P clear_buffer" and throws_snapshot [throws_rules]: "throws P (set_snapshot x)"
  unfolding clear_buffer_def set_snapshot_def by (rule throws_modify)+

lemma throws_insert: "plain_errors ex \<Longrightarrow> throws (ok_error ex) (insert_txn_output (ex_sqlError ex) u f row)"
  "plain_errors ex \<Longrightarrow> throws (ok_error ex) (insert_txn_outputs (ex_sqlError ex) u rows)"
  by (auto simp: throws_def insert_txn_output_def insert_txn_outputs_def plain_errors_def split: if_splits)

lemma throws_conflict: "ok_error ex e \<Longrightarrow> throws (ok_error ex) (conflict_on k ctx e)"
  by (simp add: conflict_on_def throws_raise ok_error_dbos)

lemma throws_buffer_rows: "throws (ok_error ex) (liftE (buffer_rows buf))"
  by (rule throws_lift)
    (auto simp: buffer_rows_def bindR_def ok_error_range dest!: traverse_Inl stringify_error split: sum.splits)

lemma throws_flush: "plain_errors ex \<Longrightarrow> throws (ok_error ex) (flushResultBuffer ex ctx k)"
  unfolding flushResultBuffer_def
  by (intro throws_rules throws_catch [where Q = "ok_error ex"] throws_buffer_rows throws_run_sql throws_insert throws_conflict)

lemma throws_recordOutput: "plain_errors ex \<Longrightarrow> throws (ok_error ex) (recordOutput ex ctx f sn v k)"
  unfolding recordOutput_def
  by (intro throws_rules throws_catch [where Q = "ok_error ex"] throws_stringify throws_run_sql throws_insert throws_conflict)

lemma throws_recordError: "plain_errors ex \<Longrightarrow> throws (ok_error ex) (recordError ex ctx f sn e k)"
  unfolding recordError_def
  by (intro throws_rules throws_catch [where Q = "ok_error ex"] throws_stringify throws_run_sql throws_insert throws_conflict)

lemma throws_checkExecution: "plain_errors ex \<Longrightarrow> throws (ok_error ex) (checkExecution ex ctx f)"
  unfolding checkExecution_def
  by (intro throws_rules throws_run_sql throws_lift throws_raise) (auto simp: plain_errors_def)

lemma throws_wrapped:
  assumes "plain_errors ex" "throws (ok_error ex) (ti_transaction info args)"
  shows "throws (ok_error ex) (wrappedTransaction ex ctx info fid args)"
  unfolding wrappedTransaction_def run_and_record_def txn_body_def buffer_result_def record_result_def retrieveSnapshot_def run_body_def
  by (intro throws_rules throws_catch [where Q = "ok_error ex"] throws_raise throws_checkExecution throws_run_sql
      throws_flush throws_recordOutput assms) (auto simp: ok_error_dbos)

definition faults :: "('u, 'x) dbos \<Rightarrow> jserror option list" where
  "faults s = commit_faults (userDatabase s)"

lemma keeps_on_user: "keeps (\<lambda>db. commit_faults db = F) m \<Longrightarrow> keeps (\<lambda>s. faults s = F) (on_user m)"
  unfolding on_user_def by (rule keeps_zoom) (simp_all add: faults_def)

lemma keeps_faults_sql: "keeps (\<lambda>db. commit_faults db = F) m \<Longrightarrow> keeps (\<lambda>db. commit_faults db = F) (run_sql sq m)"
  by (rule keepsI) (auto simp: run_sql_run keeps_def split: prod.splits sum.splits)

lemma keeps_faults_insert: "keeps (\<lambda>db. commit_faults db = F) (insert_txn_output sq u f row)"
  "keeps (\<lambda>db. commit_faults db = F) (insert_txn_outputs sq u rows)"
  "keeps (\<lambda>db. commit_faults db = F) (run_body body)"
  by (auto simp: keeps_def insert_txn_output_def insert_txn_outputs_def run_body_def zoomE_def split: prod.splits)

lemma keeps_faults_modify:
  "keeps (\<lambda>s. faults s = F) nowE" "keeps (\<lambda>s. faults s = F) clear_buffer" "keeps (\<lambda>s. faults s = F) (set_snapshot x)"
  by (simp_all add: keeps_def nowE_def clear_buffer_def set_snapshot_def em_simps faults_def)

lemmas keeps_faults = keeps_on_user keeps_faults_sql keeps_faults_insert keeps_faults_modify

lemma keeps_faults_conflict: "keeps (\<lambda>s. faults s = F) (conflict_on k ctx e)"
  unfolding conflict_on_def by (intro keeps_rules)

lemma keeps_faults_wrapped: "keeps (\<lambda>s. faults s = F) (wrappedTransaction ex ctx info fid args)"
proof -
  have b: "keeps (\<lambda>s. faults s = F) (modifyE (\<lambda>s. s\<lparr>resultBuffer := g s\<rparr>))" for g :: "('a, 'b) dbos \<Rightarrow> _"
    by (rule keeps_modify) (simp add: faults_def)
  show ?thesis
    unfolding wrappedTransaction_def run_and_record_def txn_body_def buffer_result_def record_result_def
      retrieveSnapshot_def checkExecution_def flushResultBuffer_def recordOutput_def
    by (intro keeps_rules keeps_faults keeps_faults_conflict b)
qed

lemma retriable_is_commit_fault:
  assumes "throws (ok_error ex) m" "\<And>F. keeps (\<lambda>s. faults s = F) m" "in_txn m s = (Inl e, t)"
    and "isRetriableTransactionError (ex_kind ex) e"
  shows "faults s \<noteq> [] \<and> hd (faults s) = Some e \<and> faults t = tl (faults s)"
proof -
  let ?s = "s\<lparr>userDatabase := begin_txn (userDatabase s)\<rparr>"
  obtain r s' where run: "m ?s = (r, s')" by fastforce
  have f: "faults s' = faults s"
    using keepsD [OF assms(2), of ?s "faults s"] run by (simp add: faults_def begin_txn_def)
  show ?thesis
  proof (cases r)
    case (Inl e')
    with assms(3) run have "e' = e" by (simp add: in_txn_run)
    with throwsD [OF assms(1) run [unfolded Inl]] assms(4) show ?thesis by (simp add: ok_error_def)
  next
    case (Inr x)
    with assms(3) run f show ?thesis
      by (auto simp: in_txn_run next_fault_def faults_def pop_fault_def rollback_def split: option.splits list.splits if_splits)
  qed
qed

lemma set_tl_sub: "set (tl xs) \<subseteq> set xs"
  by (cases xs) auto

lemma in_txn_throws:
  assumes "throws P m" "\<And>F. keeps (\<lambda>s. faults s = F) m" "in_txn m s = (Inl e, t)" "\<And>f. Some f \<in> set (faults s) \<Longrightarrow> P f"
  shows "P e" "set (faults t) \<subseteq> set (faults s)"
proof -
  let ?s = "s\<lparr>userDatabase := begin_txn (userDatabase s)\<rparr>"
  obtain r s' where run: "m ?s = (r, s')" by fastforce
  have f: "commit_faults (userDatabase s') = faults s"
    using keepsD [OF assms(2), of ?s "faults s"] run by (simp add: faults_def begin_txn_def)
  show "P e"
    using assms(3) run f throwsD [OF assms(1)] assms(4)
    by (auto simp: in_txn_run next_fault_def split: option.splits sum.splits if_splits list.splits)
  show "set (faults t) \<subseteq> set (faults s)"
    using assms(3) run f
    by (auto simp: in_txn_run faults_def pop_fault_def rollback_def dest: set_tl_sub [THEN subsetD]
        split: option.splits sum.splits if_splits)
qed

lemma attempt_step:
  "txn_attempts ex ctx info fid args (Suc fuel) w s =
     (case in_txn (wrappedTransaction ex ctx info fid args) (s\<lparr>txn_snapshot := ''invalid''\<rparr>) of
        (Inr v, s1) \<Rightarrow> (Inr v, s1)
      | (Inl e, s1) \<Rightarrow>
          if isRetriableTransactionError (ex_kind ex) e
          then txn_attempts ex ctx info fid args fuel (next_wait w)
                 (s1\<lparr>systemDatabase := sleep_clock \<lfloor>w\<rfloor> (systemDatabase s1)\<rparr>)
          else record_txn_error ex ctx fid e s1)"
  by (simp add: seqE_def bindE_def set_snapshot_def modifyE_def catchE_def sleep_rat_def on_sys_run split: prod.splits sum.splits)

definition not_diverging :: "jserror \<Rightarrow> bool" where
  "not_diverging e \<longleftrightarrow> e \<noteq> Diverges"

lemma throws_weaken: "throws P m \<Longrightarrow> (\<And>e. P e \<Longrightarrow> Q e) \<Longrightarrow> throws Q m"
  by (auto simp: throws_def)

lemma keeps_faults_record: "keeps (\<lambda>s. faults s = F) (seqE (flushResultBuffer ex ctx k)
    (bindE (getsE txn_snapshot) (\<lambda>snap. recordError ex ctx fid snap err k')))"
  unfolding flushResultBuffer_def recordError_def
  by (intro keeps_rules keeps_faults keeps_faults_conflict)

lemma record_txn_error_throws:
  assumes "plain_errors ex" "e \<noteq> Diverges" "Some Diverges \<notin> set (faults s)" "record_txn_error ex ctx fid e s = (Inl e', t)"
  shows "e' \<noteq> Diverges"
proof -
  let ?k = "isKeyConflictError (ex_kind ex)"
  let ?m = "seqE (flushResultBuffer ex ctx ?k) (bindE (getsE txn_snapshot) (\<lambda>snap. recordError ex ctx fid snap e ?k))"
  have "throws (ok_error ex) ?m"
    by (intro throws_rules throws_flush throws_recordError assms(1))
  then have m: "throws not_diverging ?m" by (rule throws_weaken) (simp add: ok_error_def not_diverging_def)
  obtain r1 s1 where run: "in_txn ?m s = (r1, s1)" by fastforce
  show ?thesis
  proof (cases r1)
    case (Inl e1)
    then have "not_diverging e1"
      using in_txn_throws(1) [OF m keeps_faults_record run [unfolded Inl]] assms(3) by (auto simp: not_diverging_def)
    then show ?thesis using assms(4) run Inl by (simp add: record_txn_error_def seqE_def bindE_def not_diverging_def)
  next
    case (Inr x)
    then show ?thesis using assms(2,4) run
      by (simp add: record_txn_error_def seqE_def bindE_def clear_buffer_def modifyE_def raiseE_def)
  qed
qed

lemma txn_attempts_fuel:
  assumes "plain_errors ex" "throws (ok_error ex) (ti_transaction info args)"
  shows "length (faults s) < fuel \<Longrightarrow> Some Diverges \<notin> set (faults s) \<Longrightarrow>
    fst (txn_attempts ex ctx info fid args fuel w s) \<noteq> Inl Diverges"
proof (induction fuel arbitrary: w s)
  case (Suc fuel)
  let ?m = "wrappedTransaction ex ctx info fid args" and ?s = "s\<lparr>txn_snapshot := ''invalid''\<rparr>"
  have th: "throws (ok_error ex) ?m" by (rule throws_wrapped [OF assms])
  have f: "faults ?s = faults s" by (simp add: faults_def)
  obtain r1 s1 where att: "in_txn ?m ?s = (r1, s1)" by fastforce
  show ?case
  proof (cases r1)
    case (Inr v)
    with att show ?thesis by (simp add: attempt_step del: txn_attempts.simps)
  next
    case (Inl e)
    note att' = att [unfolded Inl]
    have e: "not_diverging e" "set (faults s1) \<subseteq> set (faults s)"
      using in_txn_throws [OF throws_weaken [OF th] keeps_faults_wrapped att', of not_diverging] Suc.prems(2) f
      by (auto simp: ok_error_def not_diverging_def)
    show ?thesis
    proof (cases "isRetriableTransactionError (ex_kind ex) e")
      case True
      from retriable_is_commit_fault [OF th keeps_faults_wrapped att' True]
      have "length (faults s1) < fuel" using Suc.prems(1) f by (cases "faults s") auto
      then have "fst (txn_attempts ex ctx info fid args fuel (next_wait w)
          (s1\<lparr>systemDatabase := sleep_clock \<lfloor>w\<rfloor> (systemDatabase s1)\<rparr>)) \<noteq> Inl Diverges"
        by (intro Suc.IH) (use e(2) Suc.prems(2) in \<open>auto simp: faults_def\<close>)
      with att Inl True show ?thesis by (simp add: attempt_step del: txn_attempts.simps)
    next
      case False
      obtain r :: "jserror + jsval" and t where rec: "record_txn_error ex ctx fid e s1 = (r, t)" by fastforce
      have "r \<noteq> Inl Diverges"
        using record_txn_error_throws [OF assms(1), of e s1 ctx fid _ t] e Suc.prems(2) rec by (auto simp: not_diverging_def)
      with att Inl False rec show ?thesis by (simp add: attempt_step del: txn_attempts.simps)
    qed
  qed
qed simp

section \<open>A recorded output is replayed\<close>

text \<open>What a replay must not touch.\<close>

definition same_effects :: "('u, 'x) dbos \<Rightarrow> ('u, 'x) dbos \<Rightarrow> bool" where
  "same_effects s t \<longleftrightarrow> app_of t = app_of s \<and> txn_log t = txn_log s \<and> outside t = outside s \<and>
     resultBuffer t = resultBuffer s \<and> functionID t = functionID s \<and>
     systemDatabase t = (systemDatabase s)\<lparr>now := now (systemDatabase t)\<rparr> \<and> workflowResultBuffer t = workflowResultBuffer s"

lemma same_effects_trans: "same_effects s t \<Longrightarrow> same_effects t u \<Longrightarrow> same_effects s u"
  unfolding same_effects_def by (metis sysdb.update_convs(10) sysdb.surjective)

lemma attempt_replay:
  assumes "presetUUID ctx" "txn_log s (workflowUUID ctx, fid) = Some row" "decode_txn (ex_runtime ex) row = Inr v"
    and "in_txn (wrappedTransaction ex ctx info fid args) s = (r, t)"
  shows "same_effects s t \<and> (case faults s of
     Some e # F \<Rightarrow> r = Inl e \<and> faults t = F
   | None # F \<Rightarrow> r = Inr v \<and> faults t = F
   | [] \<Rightarrow> r = Inr v \<and> faults t = [])"
proof -
  let ?s = "s\<lparr>userDatabase := begin_txn (userDatabase s)\<rparr>"
  have "wrappedTransaction ex ctx info fid args ?s =
      (Inr v, ?s\<lparr>txn_snapshot := pg_current_snapshot (begin_txn (userDatabase s))\<rparr>)"
    using assms(1-3) by (simp add: wrappedTransaction_run)
  then show ?thesis using assms(4)
    by (auto simp: in_txn_run same_effects_def app_of_def txn_log_def faults_def next_fault_def begin_txn_def
        pop_fault_def rollback_def split: list.splits option.splits)
qed

lemma txn_attempts_replay:
  assumes "presetUUID ctx" "decode_txn (ex_runtime ex) row = Inr v"
  shows "txn_log s (workflowUUID ctx, fid) = Some row \<Longrightarrow>
    (\<And>e. Some e \<in> set (faults s) \<Longrightarrow> isRetriableTransactionError (ex_kind ex) e) \<Longrightarrow> length (faults s) < fuel \<Longrightarrow>
    \<exists>t. txn_attempts ex ctx info fid args fuel w s = (Inr v, t) \<and> same_effects s t"
proof (induction fuel arbitrary: w s)
  case (Suc fuel)
  let ?s = "s\<lparr>txn_snapshot := ''invalid''\<rparr>"
  have s0: "same_effects s ?s" "faults ?s = faults s" by (simp_all add: same_effects_def app_of_def txn_log_def faults_def)
  have log0: "txn_log ?s (workflowUUID ctx, fid) = Some row" using Suc.prems(1) by (simp add: txn_log_def)
  obtain r1 s1 where att: "in_txn (wrappedTransaction ex ctx info fid args) ?s = (r1, s1)" by fastforce
  note rep = attempt_replay [OF assms(1) log0 assms(2) att]
  have eff: "same_effects s s1" using same_effects_trans [OF s0(1)] rep by blast
  show ?case
  proof (cases "\<exists>e F. faults s = Some e # F")
    case False
    then have "r1 = Inr v" using rep s0(2) by (auto split: list.splits option.splits)
    with att eff show ?thesis by (simp add: attempt_step del: txn_attempts.simps)
  next
    case True
    then obtain e F where F: "faults s = Some e # F" by blast
    with rep s0(2) have r1: "r1 = Inl e" "faults s1 = F" by auto
    have re: "isRetriableTransactionError (ex_kind ex) e" using Suc.prems(2) F by simp
    let ?s2 = "s1\<lparr>systemDatabase := sleep_clock \<lfloor>w\<rfloor> (systemDatabase s1)\<rparr>"
    have s2: "same_effects s1 ?s2" "faults ?s2 = F"
      by (simp_all add: same_effects_def app_of_def txn_log_def faults_def sleep_clock_def r1(2) [unfolded faults_def])
    have "\<exists>t. txn_attempts ex ctx info fid args fuel (next_wait w) ?s2 = (Inr v, t) \<and> same_effects ?s2 t"
    proof (rule Suc.IH)
      show "txn_log ?s2 (workflowUUID ctx, fid) = Some row"
        using eff Suc.prems(1) by (simp add: same_effects_def txn_log_def)
      show "isRetriableTransactionError (ex_kind ex) e'" if "Some e' \<in> set (faults ?s2)" for e'
        using that s2(2) F Suc.prems(2) by simp
      show "length (faults ?s2) < fuel" using s2(2) F Suc.prems(3) by simp
    qed
    then show ?thesis using att r1 re eff s2(1) same_effects_trans
      by (auto simp: attempt_step simp del: txn_attempts.simps) blast
  qed
qed simp

section \<open>A first run\<close>

lemma flushResultBuffer_run:
  assumes "\<not> ud_aborted (userDatabase s)" "buffer_rows (resultBuffer s) = Inr rows"
    and "\<And>f. f \<in> fst ` set rows \<Longrightarrow> txn_log s (workflowUUID ctx, f) = None"
  shows "flushResultBuffer ex ctx k s = (Inr (), s\<lparr>userDatabase := (userDatabase s)\<lparr>transaction_outputs :=
     foldl (\<lambda>m (f, r). m((workflowUUID ctx, f) \<mapsto> r)) (transaction_outputs (userDatabase s)) rows\<rparr>\<rparr>)"
proof (cases "resultBuffer s = []")
  case True
  with assms(2) have "rows = []" by (simp add: buffer_rows_def)
  with True show ?thesis by (simp add: flushResultBuffer_def em_simps)
next
  case False
  have "\<not> list_ex (\<lambda>(f, _). transaction_outputs (userDatabase s) (workflowUUID ctx, f) \<noteq> None) rows"
    using assms(3) by (fastforce simp: list_ex_iff txn_log_def)
  with False assms(1,2) show ?thesis
    by (simp add: flushResultBuffer_def bindE_def getsE_def liftE_def catchE_def on_user_run run_sql_run insert_txn_outputs_def)
qed

definition output_row :: "('u, 'x) dbos \<Rightarrow> column \<Rightarrow> transaction_outputs_row" where
  "output_row s c = \<lparr>to_output = c, to_error = None, to_txn_id = Some (nat_str (ud_xid (userDatabase s))),
     to_txn_snapshot = txn_snapshot s, to_created_at = Some (now (systemDatabase s))\<rparr>"

lemma run_and_record_run:
  assumes "\<not> is_readOnly (ti_config info)" "\<not> ud_aborted (userDatabase s)" "buffer_rows (resultBuffer s) = Inr rows"
    and "\<And>f. f \<in> fst ` set rows \<Longrightarrow> txn_log s (workflowUUID ctx, f) = None"
    and "ti_transaction info args (app_of s, False) = (Inr v, (a, False))" "stringify v = Inr c"
    and "txn_log s (workflowUUID ctx, fid) = None" "fid \<notin> fst ` set rows"
  shows "run_and_record ex ctx info fid args s = (Inr v, s\<lparr>userDatabase := (userDatabase s)\<lparr>ud_app := a,
     transaction_outputs := (foldl (\<lambda>m (f, r). m((workflowUUID ctx, f) \<mapsto> r)) (transaction_outputs (userDatabase s)) rows)
       ((workflowUUID ctx, fid) \<mapsto> output_row s c), ud_aborted := False\<rparr>, resultBuffer := []\<rparr>)"
proof -
  note fl = flushResultBuffer_run [OF assms(2-4), where ex = ex and k = "isKeyConflictError (ex_kind ex)"]
  have none: "foldl (\<lambda>m (f, r). m((workflowUUID ctx, f) \<mapsto> r)) (transaction_outputs (userDatabase s)) rows (workflowUUID ctx, fid) = None"
    using assms(7,8) by (simp add: fold_rows_other txn_log_def)
  show ?thesis
    using assms(1,2,5,6) none
    by (simp add: run_and_record_def txn_body_def record_result_def seqE_def whenE_def bindE_def fl on_user_run run_body_def zoomE_def app_of_def getsE_def
        catchE_def recordOutput_def liftE_def nowE_def run_sql_run insert_txn_output_def retE_def clear_buffer_def modifyE_def output_row_def)
qed

definition log_rows :: "uuid \<Rightarrow> (nat \<times> transaction_outputs_row) list \<Rightarrow> (uuid \<times> nat \<rightharpoonup> transaction_outputs_row) \<Rightarrow> (uuid \<times> nat \<rightharpoonup> transaction_outputs_row)" where
  "log_rows u rows m = foldl (\<lambda>m (f, r). m((u, f) \<mapsto> r)) m rows"

text \<open>One attempt of a transaction that was not run before, whose body succeeds.\<close>

lemma attempt_fresh:
  assumes "\<not> is_readOnly (ti_config info)" "buffer_rows (resultBuffer s) = Inr rows"
    and "\<And>f. f \<in> fst ` set rows \<Longrightarrow> txn_log s (workflowUUID ctx, f) = None"
    and "ti_transaction info args (app_of s, False) = (Inr v, (a, False))" "stringify v = Inr c"
    and "txn_log s (workflowUUID ctx, fid) = None" "fid \<notin> fst ` set rows"
    and "in_txn (wrappedTransaction ex ctx info fid args) s = (r, t)"
  shows "resultBuffer t = [] \<and> systemDatabase t = systemDatabase s \<and> outside t = outside s \<and> functionID t = functionID s \<and>
    faults t = tl (faults s) \<and>
    (case next_fault (userDatabase s) of
       Some e \<Rightarrow> r = Inl e \<and> app_of t = app_of s \<and> txn_log t = txn_log s
     | None \<Rightarrow> r = Inr v \<and> app_of t = a \<and> (\<exists>row. to_output row = c \<and> to_error row = None \<and>
         txn_log t = (log_rows (workflowUUID ctx) rows (txn_log s))((workflowUUID ctx, fid) \<mapsto> row)))"
proof -
  let ?s = "s\<lparr>userDatabase := begin_txn (userDatabase s)\<rparr>"
  let ?s1 = "?s\<lparr>txn_snapshot := pg_current_snapshot (begin_txn (userDatabase s))\<rparr>"
  let ?db = "(userDatabase ?s1)\<lparr>ud_app := a, transaction_outputs := (log_rows (workflowUUID ctx) rows (txn_log s))
       ((workflowUUID ctx, fid) \<mapsto> output_row ?s1 c), ud_aborted := False\<rparr>"
  have s1: "\<not> ud_aborted (userDatabase ?s1)" "app_of ?s1 = app_of s" "txn_log ?s1 = txn_log s" "resultBuffer ?s1 = resultBuffer s"
    by (simp_all add: begin_txn_def app_of_def txn_log_def)
  have "run_and_record ex ctx info fid args ?s1 = (Inr v, ?s1\<lparr>userDatabase := ?db, resultBuffer := []\<rparr>)"
    using run_and_record_run [of info ?s1 rows ctx args v a c fid ex] assms(1-7) s1
    by (simp add: log_rows_def txn_log_def begin_txn_def)
  then have "wrappedTransaction ex ctx info fid args ?s = (Inr v, ?s1\<lparr>userDatabase := ?db, resultBuffer := []\<rparr>)"
    using wrappedTransaction_run [of ?s ex ctx info fid args] assms(6) by simp
  moreover have "to_output (output_row ?s1 c) = c" "to_error (output_row ?s1 c) = None" by (simp_all add: output_row_def)
  ultimately show ?thesis using assms(8)
    by (auto simp: in_txn_run next_fault_def begin_txn_def pop_fault_def rollback_def app_of_def txn_log_def faults_def
        simp del: fun_upd_apply split: list.splits option.splits)
qed

section \<open>Where the promise is not kept\<close>

text \<open>
  Replaying a transaction that threw: the recorded error is thrown inside the attempt, is taken for a
  new error and recorded again, which is a conflict, and the caller gets the conflict.
\<close>

lemma replayed_error_becomes_conflict:
  assumes "presetUUID ctx" "txn_log s (workflowUUID ctx, fid) = Some row" "decode_txn (ex_runtime ex) row = Inl e"
    and "\<not> isRetriableTransactionError (ex_kind ex) e" "driver_errors (ex_kind ex) (ex_sqlError ex)"
    and "stringify (serializeError (ex_runtime ex) e) = Inr c" "resultBuffer s = []"
  shows "fst (txn_attempts ex ctx info fid args (Suc fuel) w s) = Inl (DBOSWorkflowConflictUUIDError (workflowUUID ctx))"
proof -
  let ?s0 = "s\<lparr>txn_snapshot := ''invalid''\<rparr>"
  let ?s1 = "?s0\<lparr>userDatabase := begin_txn (userDatabase s)\<rparr>"
  have log: "transaction_outputs (userDatabase s) (workflowUUID ctx, fid) = Some row" using assms(2) by (simp add: txn_log_def)
  have "wrappedTransaction ex ctx info fid args ?s1 = (Inl e, ?s1)"
    using assms(1,3) log by (simp add: wrappedTransaction_run txn_log_def begin_txn_def)
  then obtain s2 where att: "in_txn (wrappedTransaction ex ctx info fid args) ?s0 = (Inl e, s2)"
    and s2: "transaction_outputs (userDatabase s2) (workflowUUID ctx, fid) = Some row" "resultBuffer s2 = []"
    using log assms(7) by (simp add: in_txn_run rollback_def)
  have "isKeyConflictError (ex_kind ex) (ex_sqlError ex ''23505'')"
    using assms(5) by (simp add: driver_errors_def isKeyConflictError_def)
  then have "fst (record_txn_error ex ctx fid e s2) = Inl (DBOSWorkflowConflictUUIDError (workflowUUID ctx))"
    using s2 assms(6)
    by (simp add: record_txn_error_def seqE_def bindE_def in_txn_run flushResultBuffer_def getsE_def begin_txn_def retE_def
        recordError_def catchE_def liftE_def nowE_def on_user_run run_sql_run insert_txn_output_def conflict_on_def raiseE_def)
  then show ?thesis using att assms(4) by (simp add: attempt_step del: txn_attempts.simps)
qed

text \<open>
  A commit that fails with a serialization failure: the buffer was cleared inside the attempt, so
  the second attempt does not write the buffered outputs, and they are nowhere.
\<close>

lemma failed_commit_drops_buffer:
  assumes "\<not> is_readOnly (ti_config info)" "buffer_rows (resultBuffer s) = Inr rows"
    and "\<And>f. f \<in> fst ` set rows \<Longrightarrow> txn_log s (workflowUUID ctx, f) = None"
    and "ti_transaction info args (app_of s, False) = (Inr v, (a, False))" "stringify v = Inr c"
    and "txn_log s (workflowUUID ctx, fid) = None" "fid \<notin> fst ` set rows"
    and "faults s = [Some e]" "isRetriableTransactionError (ex_kind ex) e"
  shows "\<exists>t. txn_attempts ex ctx info fid args (Suc (Suc fuel)) w s = (Inr v, t) \<and> app_of t = a \<and> resultBuffer t = [] \<and>
    (\<forall>f \<in> fst ` set rows. txn_log t (workflowUUID ctx, f) = None)"
proof -
  let ?s0 = "s\<lparr>txn_snapshot := ''invalid''\<rparr>"
  have v0: "app_of ?s0 = app_of s" "txn_log ?s0 = txn_log s" by (simp_all add: app_of_def txn_log_def)
  obtain r1 s1 where att1: "in_txn (wrappedTransaction ex ctx info fid args) ?s0 = (r1, s1)" by fastforce
  have s1: "r1 = Inl e" "resultBuffer s1 = []" "app_of s1 = app_of s" "txn_log s1 = txn_log s" "faults s1 = []"
    using attempt_fresh [of info ?s0 rows ctx args v a c fid ex r1 s1] assms(1-8) att1 v0
    by (auto simp: next_fault_def faults_def)
  define s2 where "s2 = s1\<lparr>systemDatabase := sleep_clock \<lfloor>w\<rfloor> (systemDatabase s1), txn_snapshot := ''invalid''\<rparr>"
  have v2: "app_of s2 = app_of s" "txn_log s2 = txn_log s" "resultBuffer s2 = []" "faults s2 = []"
    using s1 by (simp_all add: s2_def app_of_def txn_log_def faults_def)
  obtain r2 t where att2: "in_txn (wrappedTransaction ex ctx info fid args) s2 = (r2, t)" by fastforce
  have t: "r2 = Inr v" "app_of t = a" "resultBuffer t = []" "\<exists>row. txn_log t = (txn_log s)((workflowUUID ctx, fid) \<mapsto> row)"
    using attempt_fresh [of info s2 "[]" ctx args v a c fid ex r2 t] assms(1,4-6) att2 v2
    by (auto simp: next_fault_def faults_def buffer_rows_def log_rows_def)
  have "txn_attempts ex ctx info fid args (Suc (Suc fuel)) w s = (Inr v, t)"
    using att1 s1(1) assms(9) att2 t(1) by (simp add: attempt_step s2_def del: txn_attempts.simps)
  moreover have "\<forall>f \<in> fst ` set rows. txn_log t (workflowUUID ctx, f) = None"
  proof
    fix f assume f: "f \<in> fst ` set rows"
    with assms(7) have "f \<noteq> fid" by blast
    with t(4) assms(3) [OF f] show "txn_log t (workflowUUID ctx, f) = None" by auto
  qed
  ultimately show ?thesis using t by blast
qed

end
