(* ===== verification/Steps.thy ===== *)
theory Steps
  imports Transactions
begin

text \<open>
  What a workflow may rely on when it calls a step, sends, receives or sleeps: a recorded operation
  is not run again and the outside world is left alone; a first run is recorded; the retry loop of a
  step runs it at most the configured number of times.
\<close>

section \<open>Writing the buffered outputs\<close>

lemma flush_in_txn_empty:
  assumes "resultBuffer s = []" "next_fault (userDatabase s) = None"
  shows "\<exists>t. flush_in_txn ex ctx s = (Inr (), t) \<and> same_effects s t \<and> systemDatabase t = systemDatabase s \<and> faults t = tl (faults s)"
  using assms
  by (simp add: flush_in_txn_def in_txn_run flushResultBuffer_def clear_buffer_def em_simps same_effects_def begin_txn_def
      next_fault_def pop_fault_def app_of_def txn_log_def faults_def)

text \<open>With buffered outputs, the flush writes them all and empties the buffer, in one transaction.\<close>

lemma flush_in_txn_rows:
  assumes "buffer_rows (resultBuffer s) = Inr rows" "next_fault (userDatabase s) = None"
    and "\<And>f. f \<in> fst ` set rows \<Longrightarrow> txn_log s (workflowUUID ctx, f) = None"
  shows "\<exists>t. flush_in_txn ex ctx s = (Inr (), t) \<and> app_of t = app_of s \<and> resultBuffer t = [] \<and>
    txn_log t = log_rows (workflowUUID ctx) rows (txn_log s) \<and> systemDatabase t = systemDatabase s \<and>
    outside t = outside s \<and> functionID t = functionID s"
proof -
  let ?s = "s\<lparr>userDatabase := begin_txn (userDatabase s)\<rparr>"
  have "flushResultBuffer ex ctx (isKeyConflictError (ex_kind ex)) ?s =
      (Inr (), ?s\<lparr>userDatabase := (userDatabase ?s)\<lparr>transaction_outputs := log_rows (workflowUUID ctx) rows (txn_log s)\<rparr>\<rparr>)"
    using flushResultBuffer_run [of ?s rows ctx ex] assms(1,3) by (simp add: log_rows_def txn_log_def begin_txn_def)
  then show ?thesis using assms(2)
    by (simp add: flush_in_txn_def in_txn_run seqE_def bindE_def clear_buffer_def modifyE_def begin_txn_def next_fault_def
        pop_fault_def app_of_def txn_log_def)
qed

section \<open>Steps\<close>

lemma external_replay:
  assumes "stepInfoMap ex name = Some info" "resultBuffer s = []" "next_fault (userDatabase s) = None"
    and "recorded_op (ex_runtime ex) (systemDatabase s) (workflowUUID ctx, functionID s) = Some r"
  shows "\<exists>t. external ex ctx name args s = (r, t) \<and> same_effects (s\<lparr>functionID := Suc (functionID s)\<rparr>) t \<and> faults t = tl (faults s)"
proof -
  let ?s = "s\<lparr>functionID := Suc (functionID s)\<rparr>"
  obtain t where t: "flush_in_txn ex ctx ?s = (Inr (), t)" "same_effects ?s t" "systemDatabase t = systemDatabase s"
      "faults t = tl (faults s)"
    using flush_in_txn_empty [of ?s ex ctx] assms(2,3) by (auto simp: faults_def)
  have "wfs.once (ex_runtime ex) (workflowUUID ctx) (functionID s) (run_step info args) t = (r, t)"
    using assms(4) t(3) by (intro wfs.once_recorded) simp
  then show ?thesis using t by (simp add: external_once [OF assms(1)] bind_functionID seqE_def bindE_def)
qed

lemma external_first:
  assumes "stepInfoMap ex name = Some info" "resultBuffer s = []" "next_fault (userDatabase s) = None"
    and "recorded_op (ex_runtime ex) (systemDatabase s) (workflowUUID ctx, functionID s) = None"
    and "\<not> retriesAllowed (si_config info)" "si_step info args (outside s) = (Inr v, x)"
    and "stringify v = Inr c" "find_wf (workflowUUID ctx) (systemDatabase s) \<noteq> None"
  shows "\<exists>t. external ex ctx name args s = (Inr v, t) \<and> outside t = x \<and>
    recorded_op (ex_runtime ex) (systemDatabase t) (workflowUUID ctx, functionID s) = Some (canon_val (ex_runtime ex) v)"
proof -
  let ?s = "s\<lparr>functionID := Suc (functionID s)\<rparr>"
  obtain t where t: "flush_in_txn ex ctx ?s = (Inr (), t)" "same_effects ?s t" "systemDatabase t = systemDatabase s"
    using flush_in_txn_empty [of ?s ex ctx] assms(2,3) by auto
  have none: "recorded_op (ex_runtime ex) (systemDatabase t) (workflowUUID ctx, functionID s) = None" using assms(4) t(3) by simp
  have body: "run_step info args t = (Inr v, t\<lparr>outside := x\<rparr>)"
    using assms(5,6) t(2) by (simp add: run_step_def on_outside_run same_effects_def)
  have no_row: "operation_outputs (systemDatabase s) (workflowUUID ctx, functionID s) = None"
    using assms(4) by (simp add: recorded_op_def)
  then obtain u where rec: "on_sys (recordOperationOutput (workflowUUID ctx) (functionID s) v) (t\<lparr>outside := x\<rparr>) = (Inr (), u)"
    using assms(7,8) t(3) by (simp add: on_sys_run recordOperationOutput_eq)
  then have "outside u = x" by (auto simp: on_sys_run split: prod.splits)
  moreover note once = wfs.once_fresh [where body = "run_step info args" and s = t, OF none body rec]
  ultimately show ?thesis using t
    by (auto simp: external_once [OF assms(1)] bind_functionID seqE_def bindE_def)
qed

section \<open>The retry loop of a step\<close>

definition run_on :: "('x, jsval) meth \<Rightarrow> 'x \<Rightarrow> 'x" where
  "run_on body x = snd (body x)"

lemma next_interval_cap: "next_interval rate i \<le> maxRetryIntervalSec"
  by (simp add: next_interval_def Let_def)

text \<open>The first \<open>m\<close> runs of the function, one after the other, all throw.\<close>

definition throws_first :: "('x, jsval) meth \<Rightarrow> nat \<Rightarrow> 'x \<Rightarrow> bool" where
  "throws_first body m x = list_all (\<lambda>j. isl (fst (body ((run_on body ^^ j) x)))) [0..<m]"

lemma throws_first_0 [simp]: "throws_first body 0 x"
  by (simp add: throws_first_def)

lemma throws_first_Suc:
  "throws_first body (Suc m) x \<longleftrightarrow> isl (fst (body x)) \<and> throws_first body m (run_on body x)"
  unfolding throws_first_def list_all_iff set_upt atLeastLessThanSuc_atLeastAtMost
  by (auto simp: Ball_def funpow_swap1 less_Suc_eq_0_disj le_less_Suc_eq simp flip: less_Suc_eq_le)

lemma step_attempts_bound:
  "step_attempts body rate n i s = (r, t) \<Longrightarrow>
   \<exists>k \<le> n. outside t = (run_on body ^^ k) (outside s) \<and>
     (case r of
        Inl e \<Rightarrow> False
      | Inr None \<Rightarrow> k = n \<and> throws_first body n (outside s)
      | Inr (Some v) \<Rightarrow> \<exists>j. k = Suc j \<and> throws_first body j (outside s) \<and> fst (body ((run_on body ^^ j) (outside s))) = Inr v)"
proof (induction n arbitrary: i s)
  case 0
  then show ?case by (auto simp: retE_def)
next
  case (Suc n)
  obtain q x where b: "body (outside s) = (q, x)" by fastforce
  show ?case
  proof (cases q)
    case (Inr v)
    with Suc.prems b have "r = Inr (Some v)" "t = s\<lparr>outside := x\<rparr>"
      by (auto simp: catchE_def bindE_def on_outside_run retE_def)
    then show ?thesis using b Inr by (intro exI [of _ 1]) (simp add: run_on_def)
  next
    case (Inl e)
    show ?thesis
    proof (cases n)
      case 0
      with Suc.prems b Inl have "r = Inr None" "t = s\<lparr>outside := x\<rparr>"
        by (auto simp: catchE_def bindE_def on_outside_run retE_def)
      then show ?thesis using b Inl 0 by (intro exI [of _ 1]) (simp add: run_on_def throws_first_Suc)
    next
      case (Suc m)
      let ?s = "s\<lparr>outside := x, systemDatabase := sleep_clock \<lfloor>i * 1000\<rfloor> (systemDatabase s)\<rparr>"
      have "step_attempts body rate n (next_interval rate i) ?s = (r, t)"
        using Suc.prems b Inl Suc by (auto simp: catchE_def bindE_def seqE_def on_outside_run sleep_rat_def on_sys_run modifyE_def)
      have out: "outside ?s = x" by simp
      from Suc.IH [OF \<open>step_attempts body rate n (next_interval rate i) ?s = (r, t)\<close>, unfolded out] obtain k where k: "k \<le> n" "outside t = (run_on body ^^ k) x"
        "case r of Inl e \<Rightarrow> False
          | Inr None \<Rightarrow> k = n \<and> throws_first body n x
          | Inr (Some v) \<Rightarrow> \<exists>j. k = Suc j \<and> throws_first body j x \<and> fst (body ((run_on body ^^ j) x)) = Inr v" by blast
      have sh: "(run_on body ^^ Suc j) (outside s) = (run_on body ^^ j) x" for j
        using b by (simp add: funpow_Suc_right run_on_def del: funpow.simps)
      have all: "throws_first body (Suc j) (outside s) \<longleftrightarrow> throws_first body j x" for j
        using b Inl by (simp add: throws_first_Suc run_on_def)
      show ?thesis
        using k all sh by (intro exI [of _ "Suc k"]) (auto split: sum.splits option.splits simp del: funpow.simps)
    qed
  qed
qed

end
