(* ===== verification/Queues.thy ===== *)
theory Queues
  imports SysDb
begin

text \<open>
  Workflow queues: \<open>WorkflowQueue\<close> of \<open>src/src/wfqueue.ts\<close> and the queue operations of
  \<open>PostgresSystemDatabase\<close> (\<open>enqueueWorkflow\<close>, \<open>dequeueWorkflow\<close>,
  \<open>findAndMarkStartableWorkflows\<close>). The step relation \<open>qstep\<close> interleaves them with the clock and
  with changes of workflow status; the concurrency limit and the rate limit are invariants of its
  reachable states. The loop that starts the claimed workflows is in \<open>Executor\<close>.
\<close>

record QueueRateLimit =
  limitPerPeriod :: nat
  periodSec :: int

record WorkflowQueue =
  q_name :: string
  q_concurrency :: "nat option"
  q_rateLimit :: "QueueRateLimit option"

text \<open>\<open>wfQueuesByName\<close>, and the constructor of \<open>WorkflowQueue\<close>, which registers itself.\<close>

type_synonym wfQueuesByName = "(string, WorkflowQueue) jmap"

definition new_WorkflowQueue :: "WorkflowQueue \<Rightarrow> (wfQueuesByName, unit) meth" where
  "new_WorkflowQueue q =
     bindE (getsE (\<lambda>m. jm_has m (q_name q))) (\<lambda>dup.
     if dup then raiseE (DBOSInitializationError (''Workflow Queue '' @ CHR 39 # q_name q @ CHR 39 # '' defined multiple times''))
     else modifyE (jm_set (q_name q) q))"

definition enqueueWorkflow :: "uuid \<Rightarrow> WorkflowQueue \<Rightarrow> (sysdb, unit) meth" where
  "enqueueWorkflow u q = (\<lambda>db.
     if row_find wq_workflow_uuid u (workflow_queue db) \<noteq> None then (Inr (), db)
     else if find_wf u db = None then (Inl foreign_key_violation, db)
     else (Inr (), db\<lparr>workflow_queue := workflow_queue db @ [\<lparr>wq_workflow_uuid = u, wq_queue_name = q_name q,
            wq_created_at_epoch_ms = now db, wq_started_at_epoch_ms = None, wq_completed_at_epoch_ms = None\<rparr>]\<rparr>))"

definition dequeueWorkflow :: "uuid \<Rightarrow> WorkflowQueue \<Rightarrow> (sysdb, unit) meth" where
  "dequeueWorkflow u q =
     (if q_rateLimit q \<noteq> None then
        modifyE (\<lambda>db. db\<lparr>workflow_queue := row_update wq_workflow_uuid u
          (\<lambda>r. r\<lparr>wq_completed_at_epoch_ms := Some (now db)\<rparr>) (workflow_queue db)\<rparr>)
      else modifyE (\<lambda>db. db\<lparr>workflow_queue := row_delete wq_workflow_uuid u (workflow_queue db)\<rparr>))"

definition limiterPeriodMS :: "WorkflowQueue \<Rightarrow> int" where
  "limiterPeriodMS q = (case q_rateLimit q of None \<Rightarrow> 0 | Some rl \<Rightarrow> periodSec rl * 1000)"

definition started_after :: "WorkflowQueue \<Rightarrow> int \<Rightarrow> workflow_queue_row \<Rightarrow> bool" where
  "started_after q t r \<longleftrightarrow> wq_queue_name r = q_name q \<and>
     (case wq_started_at_epoch_ms r of None \<Rightarrow> False | Some s \<Rightarrow> t < s)"

definition over_limit :: "WorkflowQueue \<Rightarrow> nat \<Rightarrow> bool" where
  "over_limit q n = (case q_rateLimit q of None \<Rightarrow> False | Some rl \<Rightarrow> limitPerPeriod rl \<le> n)"

text \<open>The rows the selection reads: not completed, of this queue, oldest first, up to the limit.\<close>

definition active :: "WorkflowQueue \<Rightarrow> sysdb \<Rightarrow> workflow_queue_row list" where
  "active q db = filter (\<lambda>r. wq_completed_at_epoch_ms r = None \<and> wq_queue_name r = q_name q) (workflow_queue db)"

definition limit_rows :: "nat option \<Rightarrow> 'r list \<Rightarrow> 'r list" where
  "limit_rows n rows = (case n of None \<Rightarrow> rows | Some k \<Rightarrow> take k rows)"

definition startable :: "WorkflowQueue \<Rightarrow> sysdb \<Rightarrow> uuid list" where
  "startable q db = map wq_workflow_uuid (filter (\<lambda>r. wq_started_at_epoch_ms r = None)
     (limit_rows (q_concurrency q) (sort_key wq_created_at_epoch_ms (active q db))))"

definition set_started :: "uuid \<Rightarrow> int \<Rightarrow> sysdb \<Rightarrow> sysdb" where
  "set_started u t db = db\<lparr>workflow_queue := row_update wq_workflow_uuid u
     (\<lambda>r. r\<lparr>wq_started_at_epoch_ms := Some t\<rparr>) (workflow_queue db)\<rparr>"

text \<open>The \<open>for\<close> loop over the candidates.\<close>

fun claim_loop :: "WorkflowQueue \<Rightarrow> int \<Rightarrow> nat \<Rightarrow> uuid list \<Rightarrow> uuid list \<Rightarrow> sysdb \<Rightarrow> uuid list \<times> sysdb" where
  "claim_loop q startTimeMs numRecentQueries claimedIDs [] db = (claimedIDs, db)"
| "claim_loop q startTimeMs numRecentQueries claimedIDs (u # ids) db =
     (if over_limit q numRecentQueries then (claimedIDs, db)
      else if (case find_wf u db of None \<Rightarrow> False | Some r \<Rightarrow> ws_status r = ENQUEUED)
      then claim_loop q startTimeMs (Suc numRecentQueries) (claimedIDs @ [u]) ids
             (set_started u startTimeMs (update_wf u (\<lambda>r. r\<lparr>ws_status := PENDING\<rparr>) db))
      else claim_loop q startTimeMs (Suc numRecentQueries) claimedIDs ids db)"

definition recent :: "WorkflowQueue \<Rightarrow> sysdb \<Rightarrow> nat" where
  "recent q db = length (filter (started_after q (now db - limiterPeriodMS q)) (workflow_queue db))"

definition collect_garbage :: "WorkflowQueue \<Rightarrow> sysdb \<Rightarrow> sysdb" where
  "collect_garbage q db = db\<lparr>workflow_queue := filter (\<lambda>r. \<not> (wq_completed_at_epoch_ms r \<noteq> None \<and> wq_queue_name r = q_name q \<and>
     (case wq_started_at_epoch_ms r of None \<Rightarrow> False | Some s \<Rightarrow> s < now db - limiterPeriodMS q))) (workflow_queue db)\<rparr>"

definition findAndMarkStartableWorkflows :: "WorkflowQueue \<Rightarrow> (sysdb, uuid list) meth" where
  "findAndMarkStartableWorkflows q = (\<lambda>db.
     let numRecentQueries = (if q_rateLimit q \<noteq> None then recent q db else 0);
         (claimedIDs, db') = (if over_limit q numRecentQueries then ([], db)
                              else claim_loop q (now db) numRecentQueries [] (startable q db) db)
     in (Inr claimedIDs, if q_rateLimit q \<noteq> None then collect_garbage q db' else db'))"

section \<open>Listing\<close>

record GetWorkflowsInput =
  gw_workflowName :: "string option"
  gw_authenticatedUser :: "string option"
  gw_startTime :: "string option"
  gw_endTime :: "string option"
  gw_status :: "status option"
  gw_applicationVersion :: "string option"
  gw_limit :: "nat option"

record GetWorkflowQueueInput =
  gq_queueName :: "string option"
  gq_startTime :: "string option"
  gq_endTime :: "string option"
  gq_limit :: "nat option"

text \<open>A filter is added when its argument is truthy; \<open>new Date(s).getTime()\<close> is \<open>NaN\<close> for what is no date,
  which the database rejects.\<close>

definition truthy :: "string option \<Rightarrow> string option" where
  "truthy = or_undefined"

definition where_eq :: "string option \<Rightarrow> ('r \<Rightarrow> string) \<Rightarrow> 'r list \<Rightarrow> 'r list" where
  "where_eq arg col rows = (case truthy arg of None \<Rightarrow> rows | Some v \<Rightarrow> filter (\<lambda>r. col r = v) rows)"

definition where_time :: "runtime \<Rightarrow> string option \<Rightarrow> (int \<Rightarrow> 'r \<Rightarrow> bool) \<Rightarrow> 'r list \<Rightarrow> jserror + 'r list" where
  "where_time rt arg P rows = (case truthy arg of None \<Rightarrow> Inr rows
     | Some s \<Rightarrow> (case dateParse rt (JStr s) of None \<Rightarrow> Inl (pg_err ''22P02'') | Some t \<Rightarrow> Inr (filter (P t) rows)))"

definition truthy_limit :: "nat option \<Rightarrow> nat option" where
  "truthy_limit n = (if n = Some 0 then None else n)"

definition getWorkflows :: "runtime \<Rightarrow> GetWorkflowsInput \<Rightarrow> (sysdb, uuid list) meth" where
  "getWorkflows rt inp = (\<lambda>db.
     (bindR (where_time rt (gw_startTime inp) (\<lambda>t r. t \<le> ws_created_at r)
              (where_eq (gw_authenticatedUser inp) ws_authenticated_user
                (where_eq (gw_workflowName inp) ws_name (sort_key (\<lambda>r. - ws_created_at r) (workflow_status db))))) (\<lambda>rows1.
      bindR (where_time rt (gw_endTime inp) (\<lambda>t r. ws_created_at r \<le> t) rows1) (\<lambda>rows2.
      let rows3 = (case gw_status inp of None \<Rightarrow> rows2 | Some st \<Rightarrow> filter (\<lambda>r. ws_status r = st) rows2);
          rows4 = where_eq (gw_applicationVersion inp) ws_application_version rows3
      in Inr (map ws_workflow_uuid (limit_rows (truthy_limit (gw_limit inp)) rows4)))), db))"

text \<open>The end-time filter names a column that does not exist.\<close>

definition getWorkflowQueue :: "runtime \<Rightarrow> GetWorkflowQueueInput \<Rightarrow> (sysdb, workflow_queue_row list) meth" where
  "getWorkflowQueue rt inp = (\<lambda>db.
     (bindR (where_time rt (gq_startTime inp) (\<lambda>t r. t \<le> wq_created_at_epoch_ms r)
              (where_eq (gq_queueName inp) wq_queue_name
                (sort_key (\<lambda>r. - wq_created_at_epoch_ms r) (workflow_queue db)))) (\<lambda>rows1.
      case truthy (gq_endTime inp) of
        Some _ \<Rightarrow> Inl undefined_column
      | None \<Rightarrow> Inr (limit_rows (truthy_limit (gq_limit inp)) rows1)), db))"

section \<open>What a claim does\<close>

definition mark_started :: "int \<Rightarrow> uuid set \<Rightarrow> workflow_queue_row \<Rightarrow> workflow_queue_row" where
  "mark_started t us r = (if wq_workflow_uuid r \<in> us then r\<lparr>wq_started_at_epoch_ms := Some t\<rparr> else r)"

lemma mark_started_same [simp]:
  "wq_workflow_uuid (mark_started t us r) = wq_workflow_uuid r" "wq_queue_name (mark_started t us r) = wq_queue_name r"
  "wq_created_at_epoch_ms (mark_started t us r) = wq_created_at_epoch_ms r"
  "wq_completed_at_epoch_ms (mark_started t us r) = wq_completed_at_epoch_ms r"
  by (simp_all add: mark_started_def)

lemma set_started_queue [simp]:
  "workflow_queue (set_started u t db) = map (mark_started t {u}) (workflow_queue db)"
  "workflow_status (set_started u t db) = workflow_status db" "now (set_started u t db) = now db"
  by (simp_all add: set_started_def row_update_def mark_started_def cong: map_cong)

lemma mark_started_insert: "mark_started t us \<circ> mark_started t {u} = mark_started t (insert u us)"
  by (rule ext) (simp add: mark_started_def)

text \<open>
  The claimed workflows are among the candidates, were enqueued and are now pending, their rows are
  marked, and the rate limit is respected.
\<close>

lemma claim_loop_effect:
  assumes "claim_loop q t n acc ids db = (out, db')" "distinct ids"
  shows "\<exists>cs. out = acc @ cs \<and> set cs \<subseteq> set ids \<and> distinct cs \<and>
     workflow_queue db' = map (mark_started t (set cs)) (workflow_queue db) \<and> now db' = now db \<and>
     (\<forall>rl. q_rateLimit q = Some rl \<longrightarrow> n + length cs \<le> max n (limitPerPeriod rl)) \<and>
     (\<forall>u. (u \<in> set cs \<longrightarrow> map_option ws_status (find_wf u db) = Some ENQUEUED \<and>
                          map_option ws_status (find_wf u db') = Some PENDING) \<and>
          (u \<notin> set cs \<longrightarrow> find_wf u db' = find_wf u db))"
  using assms
proof (induction q t n acc ids db rule: claim_loop.induct)
  case (1 q t n acc db)
  have "map (mark_started t {}) rows = rows" for rows by (simp add: mark_started_def map_idI)
  with 1 show ?case by (intro exI [of _ "[]"]) auto
next
  case (2 q t n acc u ids db)
  let ?enq = "case find_wf u db of None \<Rightarrow> False | Some r \<Rightarrow> ws_status r = ENQUEUED"
  let ?db = "set_started u t (update_wf u (\<lambda>r. r\<lparr>ws_status := PENDING\<rparr>) db)"
  have id: "map (mark_started t {}) rows = rows" for rows by (simp add: mark_started_def map_idI)
  consider "over_limit q n" | "\<not> over_limit q n" "?enq" | "\<not> over_limit q n" "\<not> ?enq" by blast
  then show ?case
  proof cases
    case 1
    with "2.prems" id show ?thesis by (intro exI [of _ "[]"]) auto
  next
    case 2
    then have run: "claim_loop q t (Suc n) (acc @ [u]) ids ?db = (out, db')" using "2.prems"(1) by simp
    obtain cs where cs: "out = (acc @ [u]) @ cs" "set cs \<subseteq> set ids" "distinct cs"
      "workflow_queue db' = map (mark_started t (set cs)) (workflow_queue ?db)" "now db' = now ?db"
      "\<forall>rl. q_rateLimit q = Some rl \<longrightarrow> Suc n + length cs \<le> max (Suc n) (limitPerPeriod rl)"
      "\<forall>u. (u \<in> set cs \<longrightarrow> map_option ws_status (find_wf u ?db) = Some ENQUEUED \<and>
                          map_option ws_status (find_wf u db') = Some PENDING) \<and>
          (u \<notin> set cs \<longrightarrow> find_wf u db' = find_wf u ?db)"
      using "2.IH"(1) [OF 2 run] "2.prems"(2) by (metis (no_types, lifting) distinct.simps(2))
    have f: "find_wf v ?db = (if v = u then map_option (\<lambda>r. r\<lparr>ws_status := PENDING\<rparr>) (find_wf u db) else find_wf v db)" for v
      by (simp add: update_wf_def row_find_update)
    have nu: "u \<notin> set cs" using cs(2) "2.prems"(2) by auto
    have lim: "n < limitPerPeriod rl" if "q_rateLimit q = Some rl" for rl
      using 2(1) that by (simp add: over_limit_def)
    show ?thesis
    proof (intro exI [of _ "u # cs"] conjI allI impI)
      show "workflow_queue db' = map (mark_started t (set (u # cs))) (workflow_queue db)"
        using cs(4) by (simp add: mark_started_insert)
      show "n + length (u # cs) \<le> max n (limitPerPeriod rl)" if "q_rateLimit q = Some rl" for rl
        using cs(6) lim [OF that] that by (auto simp: max_def split: if_splits)
      show "map_option ws_status (find_wf v db) = Some ENQUEUED" if "v \<in> set (u # cs)" for v
        using that cs(7) f 2(2) nu by (cases "v = u") (auto split: option.splits)
      show "map_option ws_status (find_wf v db') = Some PENDING" if "v \<in> set (u # cs)" for v
      proof (cases "v = u")
        case True
        then have "find_wf v db' = find_wf u ?db" using cs(7) nu by blast
        then show ?thesis using 2(2) f by (auto split: option.splits)
      qed (use that cs(7) in auto)
      show "find_wf v db' = find_wf v db" if "v \<notin> set (u # cs)" for v
        using that cs(7) f by auto
    qed (use cs nu in auto)
  next
    case 3
    then have run: "claim_loop q t (Suc n) acc ids db = (out, db')" using "2.prems"(1) by (auto split: if_splits)
    have "distinct ids" using "2.prems"(2) by simp
    from "2.IH"(2) [OF 3 run this] obtain cs where cs: "out = acc @ cs" "set cs \<subseteq> set ids" "distinct cs"
      "workflow_queue db' = map (mark_started t (set cs)) (workflow_queue db)" "now db' = now db"
      "\<forall>rl. q_rateLimit q = Some rl \<longrightarrow> Suc n + length cs \<le> max (Suc n) (limitPerPeriod rl)"
      "\<forall>u. (u \<in> set cs \<longrightarrow> map_option ws_status (find_wf u db) = Some ENQUEUED \<and>
                          map_option ws_status (find_wf u db') = Some PENDING) \<and>
          (u \<notin> set cs \<longrightarrow> find_wf u db' = find_wf u db)" by blast
    have "n + length cs \<le> max n (limitPerPeriod rl)" if "q_rateLimit q = Some rl" for rl
      using cs(6) that by (cases "Suc n \<le> limitPerPeriod rl") (auto simp: max_def)
    then show ?thesis using cs by (intro exI [of _ cs]) auto
  qed
qed

section \<open>The limits are invariants\<close>

inductive qstep :: "WorkflowQueue list \<Rightarrow> sysdb \<Rightarrow> sysdb \<Rightarrow> bool" for qs where
  enqueue: "q \<in> set qs \<Longrightarrow> enqueueWorkflow u q db = (r, db') \<Longrightarrow> qstep qs db db'"
| dequeue: "q \<in> set qs \<Longrightarrow> dequeueWorkflow u q db = (r, db') \<Longrightarrow> qstep qs db db'"
| claim: "q \<in> set qs \<Longrightarrow> findAndMarkStartableWorkflows q db = (r, db') \<Longrightarrow> qstep qs db db'"
| tick: "qstep qs db (sleep_clock d db)"
| elsewhere: "workflow_queue db' = workflow_queue db \<Longrightarrow> now db' = now db \<Longrightarrow> qstep qs db db'"

inductive qreach :: "WorkflowQueue list \<Rightarrow> sysdb \<Rightarrow> bool" for qs where
  start: "workflow_queue db = [] \<Longrightarrow> qreach qs db"
| step: "qreach qs db \<Longrightarrow> qstep qs db db' \<Longrightarrow> qreach qs db'"

definition running :: "WorkflowQueue \<Rightarrow> sysdb \<Rightarrow> nat" where
  "running q db = length (filter (\<lambda>r. wq_started_at_epoch_ms r \<noteq> None) (active q db))"

definition queue_ok :: "sysdb \<Rightarrow> bool" where
  "queue_ok db \<longleftrightarrow> pk wq_workflow_uuid (workflow_queue db) \<and>
     sorted (map wq_created_at_epoch_ms (workflow_queue db)) \<and>
     (\<forall>r \<in> set (workflow_queue db). wq_created_at_epoch_ms r \<le> now db \<and>
        (\<forall>s. wq_started_at_epoch_ms r = Some s \<longrightarrow> s \<le> now db))"

definition head_started :: "WorkflowQueue \<Rightarrow> sysdb \<Rightarrow> bool" where
  "head_started q db \<longleftrightarrow> (\<forall>N. q_concurrency q = Some N \<longrightarrow>
     (\<forall>r \<in> set (drop N (active q db)). wq_started_at_epoch_ms r = None))"

definition rate_ok :: "WorkflowQueue \<Rightarrow> sysdb \<Rightarrow> bool" where
  "rate_ok q db \<longleftrightarrow> (\<forall>rl. q_rateLimit q = Some rl \<longrightarrow> recent q db \<le> limitPerPeriod rl)"

definition qinv :: "WorkflowQueue list \<Rightarrow> sysdb \<Rightarrow> bool" where
  "qinv qs db \<longleftrightarrow> queue_ok db \<and> (\<forall>q \<in> set qs. head_started q db \<and> rate_ok q db)"

lemma drop_filter_sub: "set (drop n (filter P xs)) \<subseteq> set (drop n xs)"
proof (induction xs arbitrary: n)
  case (Cons x xs)
  show ?case
  proof (cases n)
    case 0
    then show ?thesis by auto
  next
    case (Suc m)
    have "set (drop (Suc m) (filter P xs)) \<subseteq> set (drop m xs)"
      using Cons.IH [of m] by (metis drop_Suc list.set_sel(2) order_trans subsetI tl_drop drop_Nil list.sel(2))
    then show ?thesis using Cons.IH [of m] Suc by auto
  qed
qed simp

lemma length_filter_weaken: "(\<And>x. x \<in> set xs \<Longrightarrow> P x \<Longrightarrow> Q x) \<Longrightarrow> length (filter P xs) \<le> length (filter Q xs)"
  by (induction xs) auto

lemma head_started_running:
  assumes "head_started q db" "q_concurrency q = Some N"
  shows "running q db \<le> N"
proof -
  let ?P = "\<lambda>r. wq_started_at_epoch_ms r \<noteq> None"
  have "filter ?P (drop N (active q db)) = []"
    using assms by (auto simp: head_started_def filter_empty_conv)
  then have "running q db = length (filter ?P (take N (active q db)))"
    unfolding running_def by (metis append_Nil2 append_take_drop_id filter_append)
  also have "\<dots> \<le> length (take N (active q db))" by (rule length_filter_le)
  finally show ?thesis by simp
qed

text \<open>Removing rows, or completing them, keeps the invariant.\<close>

lemma qinv_remove:
  assumes inv: "qinv qs db" and now: "now db' = now db" and wq: "workflow_queue db' = filter P (workflow_queue db)"
  shows "qinv qs db'"
proof -
  have "queue_ok db'"
    using inv by (auto simp: qinv_def queue_ok_def now wq pk_filter sorted_filter)
  moreover have "head_started q db'" if "q \<in> set qs" for q
  proof -
    have "active q db' = filter P (active q db)" by (simp add: active_def wq conj_commute)
    then show ?thesis using inv that drop_filter_sub [of _ P "active q db"]
      by (fastforce simp: qinv_def head_started_def)
  qed
  moreover have "rate_ok q db'" if "q \<in> set qs" for q
  proof -
    have "recent q db' \<le> recent q db"
      by (auto simp: recent_def now wq intro: length_filter_weaken)
    then show ?thesis using inv that by (fastforce simp: qinv_def rate_ok_def)
  qed
  ultimately show ?thesis by (simp add: qinv_def)
qed

lemma qinv_complete:
  assumes inv: "qinv qs db" and now: "now db' = now db"
    and wq: "workflow_queue db' = row_update wq_workflow_uuid u (\<lambda>r. r\<lparr>wq_completed_at_epoch_ms := Some t\<rparr>) (workflow_queue db)"
  shows "qinv qs db'"
proof -
  let ?f = "\<lambda>r. if wq_workflow_uuid r = u then r\<lparr>wq_completed_at_epoch_ms := Some t\<rparr> else r"
  have wq': "workflow_queue db' = map ?f (workflow_queue db)" by (simp add: wq row_update_def)
  have same: "wq_created_at_epoch_ms (?f r) = wq_created_at_epoch_ms r" "wq_started_at_epoch_ms (?f r) = wq_started_at_epoch_ms r"
    "wq_queue_name (?f r) = wq_queue_name r" for r by auto
  have "pk wq_workflow_uuid (workflow_queue db')" unfolding wq
    by (rule pk_update) (use inv in \<open>auto simp: qinv_def queue_ok_def\<close>)
  then have "queue_ok db'" using inv by (auto simp: qinv_def queue_ok_def now wq' o_def same)
  moreover have "head_started q db'" if "q \<in> set qs" for q
  proof -
    have "active q db' = filter (\<lambda>r. wq_workflow_uuid r \<noteq> u) (active q db)"
      unfolding active_def wq' filter_map filter_filter
      by (rule trans [OF map_idI filter_cong]) (auto simp: o_def)
    then show ?thesis using inv that drop_filter_sub [of _ "\<lambda>r. wq_workflow_uuid r \<noteq> u" "active q db"]
      by (fastforce simp: qinv_def head_started_def)
  qed
  moreover have "rate_ok q db'" if "q \<in> set qs" for q
  proof -
    have "recent q db' = recent q db"
      by (auto simp: recent_def now wq' filter_map o_def started_after_def same
          intro!: arg_cong [where f = length] filter_cong)
    then show ?thesis using inv that by (auto simp: qinv_def rate_ok_def)
  qed
  ultimately show ?thesis by (simp add: qinv_def)
qed

lemma qinv_dequeue: "qinv qs db \<Longrightarrow> dequeueWorkflow u q db = (r, db') \<Longrightarrow> qinv qs db'"
  by (auto simp: dequeueWorkflow_def em_simps row_delete_def split: if_splits
      intro: qinv_complete [where u = u] qinv_remove [where P = "\<lambda>r. wq_workflow_uuid r \<noteq> u"])

lemma qinv_append:
  assumes inv: "qinv qs db" and now: "now db' = now db" and wq: "workflow_queue db' = workflow_queue db @ [r]"
    and r: "wq_workflow_uuid r \<notin> wq_workflow_uuid ` set (workflow_queue db)" "wq_created_at_epoch_ms r = now db"
      "wq_started_at_epoch_ms r = None"
  shows "qinv qs db'"
proof -
  have "queue_ok db'" using inv r by (auto simp: qinv_def queue_ok_def now wq pk_def sorted_append)
  moreover have "head_started q db'" if "q \<in> set qs" for q
    using inv that r(3) by (auto simp: qinv_def head_started_def active_def wq dest: in_set_dropD)
  moreover have "rate_ok q db'" if "q \<in> set qs" for q
    using inv that r(3) by (auto simp: qinv_def rate_ok_def recent_def now wq started_after_def)
  ultimately show ?thesis by (simp add: qinv_def)
qed

lemma qinv_enqueue: "qinv qs db \<Longrightarrow> enqueueWorkflow u q db = (r, db') \<Longrightarrow> qinv qs db'"
  by (auto simp: enqueueWorkflow_def row_find_None split: if_splits
      intro!: qinv_append [where db = db])

lemma qinv_tick: "qinv qs db \<Longrightarrow> qinv qs (sleep_clock d db)"
proof -
  assume inv: "qinv qs db"
  have "recent q (sleep_clock d db) \<le> recent q db" for q
    using node_timeout_pos [of d] unfolding recent_def sleep_clock_def
    by (auto simp: started_after_def intro!: length_filter_weaken split: option.splits)
  then have "rate_ok q (sleep_clock d db)" if "q \<in> set qs" for q
    using inv that le_trans unfolding qinv_def rate_ok_def by blast
  moreover have "queue_ok (sleep_clock d db)"
    using inv node_timeout_pos [of d] by (fastforce simp: qinv_def queue_ok_def sleep_clock_def)
  moreover have "active q (sleep_clock d db) = active q db" for q by (simp add: active_def sleep_clock_def)
  ultimately show ?thesis using inv by (simp add: qinv_def head_started_def)
qed

lemma active_sorted: "queue_ok db \<Longrightarrow> sort_key wq_created_at_epoch_ms (active q db) = active q db"
  by (rule sort_key_id_if_sorted) (auto simp: queue_ok_def active_def sorted_filter)

lemma startable_head:
  assumes "queue_ok db" "u \<in> set (startable q db)" "q_concurrency q = Some N"
  obtains r where "r \<in> set (take N (active q db))" "wq_workflow_uuid r = u"
  using assms by (auto simp: startable_def active_sorted limit_rows_def)

lemma startable_active:
  assumes "queue_ok db" "u \<in> set (startable q db)"
  obtains r where "r \<in> set (active q db)" "wq_workflow_uuid r = u" "wq_started_at_epoch_ms r = None"
  using assms by (auto simp: startable_def active_sorted limit_rows_def dest: in_set_takeD split: option.splits)

lemma distinct_active: "queue_ok db \<Longrightarrow> distinct (map wq_workflow_uuid (active q db))"
  by (simp add: queue_ok_def active_def pk_def distinct_map_filter)

lemma startable_distinct: "queue_ok db \<Longrightarrow> distinct (startable q db)"
proof -
  assume ok: "queue_ok db"
  have "distinct (map wq_workflow_uuid (limit_rows (q_concurrency q) (active q db)))"
    using distinct_active [OF ok, of q] by (auto simp: limit_rows_def take_map [symmetric] split: option.splits)
  then show ?thesis by (simp add: startable_def active_sorted [OF ok] distinct_map_filter)
qed

lemma active_row: "queue_ok db \<Longrightarrow> r \<in> set (active q db) \<Longrightarrow> r' \<in> set (workflow_queue db) \<Longrightarrow>
    wq_workflow_uuid r' = wq_workflow_uuid r \<Longrightarrow> r' = r"
  by (auto simp: queue_ok_def active_def pk_def distinct_map dest: inj_onD)

lemma count_marked:
  assumes "pk wq_workflow_uuid rows"
  shows "length (filter P (map (mark_started t (set cs)) rows)) \<le> length (filter P rows) + length cs"
proof -
  let ?in = "\<lambda>r. wq_workflow_uuid r \<in> set cs"
  have "length (filter P (map (mark_started t (set cs)) rows)) \<le> length (filter P rows) + length (filter ?in rows)"
    by (induction rows) (auto simp: mark_started_def)
  moreover have "length (filter ?in rows) \<le> length cs"
  proof -
    have "distinct (map wq_workflow_uuid (filter ?in rows))" using assms by (simp add: pk_def distinct_map_filter)
    then have "length (filter ?in rows) = card (set (map wq_workflow_uuid (filter ?in rows)))"
      by (metis distinct_card length_map)
    also have "\<dots> \<le> card (set cs)" by (rule card_mono) auto
    also have "\<dots> \<le> length cs" by (rule card_length)
    finally show ?thesis .
  qed
  ultimately show ?thesis by linarith
qed

lemma qinv_marked:
  assumes inv: "qinv qs db" and q: "q \<in> set qs" and names: "inj_on q_name (set qs)"
    and cs: "set cs \<subseteq> set (startable q db)" and now: "now db' = now db"
    and wq: "workflow_queue db' = map (mark_started (now db) (set cs)) (workflow_queue db)"
    and lim: "\<And>rl. q_rateLimit q = Some rl \<Longrightarrow> recent q db + length cs \<le> max (recent q db) (limitPerPeriod rl)"
  shows "qinv qs db'"
proof -
  let ?m = "mark_started (now db) (set cs)"
  have ok: "queue_ok db" using inv by (simp add: qinv_def)
  have "queue_ok db'" using ok
    by (auto simp: queue_ok_def now wq pk_def o_def) (auto simp: mark_started_def split: if_splits)
  moreover have act: "active p db' = map ?m (active p db)" for p
    by (simp add: active_def wq filter_map o_def)
  have mine: "p = q" if r: "r \<in> set (workflow_queue db)" "wq_workflow_uuid r \<in> set cs" "wq_queue_name r = q_name p"
    "p \<in> set qs" for p r
  proof -
    obtain r' where r': "r' \<in> set (active q db)" "wq_workflow_uuid r' = wq_workflow_uuid r"
      using startable_active [OF ok] r(2) cs by blast
    with active_row [OF ok r'(1) r(1)] have "wq_queue_name r = q_name q" by (simp add: active_def)
    with r(3,4) q names show ?thesis by (auto dest: inj_onD)
  qed
  have "head_started p db'" if p: "p \<in> set qs" for p
    unfolding head_started_def
  proof (intro allI impI ballI)
    fix N r' assume N: "q_concurrency p = Some N" and "r' \<in> set (drop N (active p db'))"
    then obtain r where r: "r \<in> set (drop N (active p db))" "r' = ?m r" by (auto simp: act drop_map)
    have unstarted: "wq_started_at_epoch_ms r = None" using inv p N r(1) by (auto simp: qinv_def head_started_def)
    have "wq_workflow_uuid r \<notin> set cs"
    proof
      assume u: "wq_workflow_uuid r \<in> set cs"
      have "r \<in> set (active p db)" using r(1) by (rule in_set_dropD)
      with u p have "p = q" using mine [of r p] by (simp add: active_def)
      then obtain x where "x \<in> set (take N (active p db))" "wq_workflow_uuid x = wq_workflow_uuid r"
        using startable_head [OF ok] u cs N by blast
      moreover have "distinct (map wq_workflow_uuid (take N (active p db) @ drop N (active p db)))"
        using distinct_active [OF ok] by simp
      ultimately show False using r(1) unfolding map_append distinct_append by (metis IntI empty_iff image_eqI set_map)
    qed
    then show "wq_started_at_epoch_ms r' = None" using unstarted r(2) by (simp add: mark_started_def)
  qed
  moreover have "rate_ok p db'" if p: "p \<in> set qs" for p
  proof (cases "p = q")
    case True
    have "recent q db' \<le> recent q db + length cs"
      unfolding recent_def now wq using ok by (intro count_marked) (simp add: queue_ok_def)
    with lim inv q True show ?thesis by (fastforce simp: rate_ok_def qinv_def)
  next
    case False
    have same: "started_after p t (?m r) = started_after p t r" if "r \<in> set (workflow_queue db)" for r t
      using mine [OF that] False p by (auto simp: started_after_def mark_started_def)
    have "filter (started_after p t \<circ> ?m) (workflow_queue db) = filter (started_after p t) (workflow_queue db)" for t
      by (rule filter_cong) (auto simp: same)
    then have "recent p db' = recent p db" by (simp add: recent_def now wq filter_map)
    with inv p show ?thesis by (auto simp: rate_ok_def qinv_def)
  qed
  ultimately show ?thesis by (simp add: qinv_def)
qed

lemma qinv_claim:
  assumes inv: "qinv qs db" and q: "q \<in> set qs" and names: "inj_on q_name (set qs)"
    and run: "findAndMarkStartableWorkflows q db = (r, db')"
  shows "qinv qs db'"
proof -
  define n where "n = (if q_rateLimit q \<noteq> None then recent q db else 0)"
  obtain ids d where loop: "(if over_limit q n then ([], db) else claim_loop q (now db) n [] (startable q db) db) = (ids, d)"
    by fastforce
  have ok: "queue_ok db" using inv by (simp add: qinv_def)
  have "qinv qs d"
  proof (cases "over_limit q n")
    case True
    then show ?thesis using loop inv by simp
  next
    case False
    with loop have "claim_loop q (now db) n [] (startable q db) db = (ids, d)" by simp
    from claim_loop_effect [OF this startable_distinct [OF ok]]
    obtain cs where cs: "set cs \<subseteq> set (startable q db)" "now d = now db"
      "workflow_queue d = map (mark_started (now db) (set cs)) (workflow_queue db)"
      "\<forall>rl. q_rateLimit q = Some rl \<longrightarrow> n + length cs \<le> max n (limitPerPeriod rl)"
      by blast
    show ?thesis by (rule qinv_marked [OF inv q names cs(1,2,3)]) (use cs(4) in \<open>auto simp: n_def\<close>)
  qed
  moreover have "db' = (if q_rateLimit q \<noteq> None then collect_garbage q d else d)"
    using run loop unfolding findAndMarkStartableWorkflows_def Let_def n_def [symmetric] by (simp del: not_None_eq)
  ultimately show ?thesis by (auto simp: collect_garbage_def intro: qinv_remove)
qed

theorem qreach_inv:
  assumes "qreach qs db" "inj_on q_name (set qs)"
  shows "qinv qs db"
  using assms(1)
proof induction
  case (start db)
  then show ?case
    by (simp add: qinv_def queue_ok_def pk_def head_started_def rate_ok_def active_def recent_def)
next
  case (step db db')
  from step(2,3) show ?case
  proof (cases rule: qstep.cases)
    case elsewhere
    with step(3) show ?thesis
      by (simp add: qinv_def queue_ok_def head_started_def rate_ok_def active_def recent_def)
  qed (use step assms(2) qinv_enqueue qinv_dequeue qinv_claim qinv_tick in blast)+
qed

end
