(* ===== verification/Buffers.thy ===== *)
theory Buffers
  imports SysDb
begin

text \<open>
  The write-behind buffers of \<open>PostgresSystemDatabase\<close> (\<open>flushWorkflowStatusBuffer\<close>,
  \<open>flushWorkflowInputsBuffer\<close>, \<open>flushWorkflowSystemBuffers\<close>). A flush works on a copy of its buffer and
  suspends at every \<open>await this.pool.query\<close>. What happens there is a parameter, one \<open>io\<close> per query: the
  error the query fails with, if any, and the outputs and inputs other workflows buffer meanwhile.
\<close>

record io =
  io_error :: "jserror option"
  io_outputs :: "(uuid \<times> WorkflowStatusInternal) list"
  io_inputs :: "(uuid \<times> jsval list) list"

abbreviation quiet :: io where
  "quiet \<equiv> \<lparr>io_error = None, io_outputs = [], io_inputs = []\<rparr>"

definition next_io :: "io list \<Rightarrow> io" where
  "next_io evs = (case evs of [] \<Rightarrow> quiet | e # _ \<Rightarrow> e)"

definition put_all :: "('k \<times> 'v) list \<Rightarrow> ('k, 'v) jmap \<Rightarrow> ('k, 'v) jmap" where
  "put_all xs m = foldl (\<lambda>b (k, v). jm_set k v b) m xs"

definition arrive :: "io \<Rightarrow> sysdb \<Rightarrow> sysdb" where
  "arrive e db = db\<lparr>workflowStatusBuffer := put_all (io_outputs e) (workflowStatusBuffer db),
                   workflowInputsBuffer := put_all (io_inputs e) (workflowInputsBuffer db)\<rparr>"

definition jm_del_all :: "'k list \<Rightarrow> ('k, 'v) jmap \<Rightarrow> ('k, 'v) jmap" where
  "jm_del_all ks m = filter (\<lambda>(k, _). k \<notin> set ks) m"

definition flushBatchSize :: nat where
  "flushBatchSize = 100"

definition sql_syntax_error :: jserror where
  "sql_syntax_error = pg_err ''42601''"

section \<open>The status buffer\<close>

definition status_values :: "int \<Rightarrow> (uuid \<times> WorkflowStatusInternal) list \<Rightarrow> jserror + workflow_status_row list" where
  "status_values t batch = traverse (\<lambda>(u, st).
     bindR (stringify (roles_val (wsi_authenticatedRoles st))) (\<lambda>roles.
     bindR (stringify (wsi_request st)) (\<lambda>req.
     bindR (stringify (wsi_output st)) (\<lambda>out.
     Inr ((status_row st (wsi_status st) roles req out None t)\<lparr>ws_workflow_uuid := u\<rparr>))))) batch"

definition excluded :: "workflow_status_row \<Rightarrow> workflow_status_row \<Rightarrow> workflow_status_row" where
  "excluded new r = r\<lparr>ws_status := ws_status new, ws_output := ws_output new, ws_updated_at := ws_updated_at new\<rparr>"

definition upsert_statuses :: "workflow_status_row list \<Rightarrow> sysdb \<Rightarrow> sysdb" where
  "upsert_statuses rows db = foldl (\<lambda>d r. upsert_wf r (excluded r) d) db rows"

lemma jm_del_all_shorter: "xs \<noteq> [] \<Longrightarrow> set xs \<subseteq> set m \<Longrightarrow> length (jm_del_all (map fst xs) m) < length m"
  unfolding jm_del_all_def by (rule length_filter_less [of "hd xs"]; cases xs) auto

text \<open>
  The \<open>while\<close> loop, on the local copy and the database. A batch that is empty while the counter is
  below the total gives a statement without values, which the database rejects.
\<close>

function flushStatusBatches ::
    "io list \<Rightarrow> nat \<Rightarrow> nat \<Rightarrow> ((uuid, WorkflowStatusInternal) jmap \<times> sysdb, unit) meth" where
  "flushStatusBatches evs finishedCnt totalSize (localBuffer, db) =
     (if finishedCnt < totalSize then
        let batch = take flushBatchSize localBuffer in
        case status_values (now db) batch of
          Inl e \<Rightarrow> (Inl e, (localBuffer, db))
        | Inr rows \<Rightarrow>
            if batch = [] then (Inl sql_syntax_error, (localBuffer, db))
            else case io_error (next_io evs) of
              Some e \<Rightarrow> (Inl e, (localBuffer, arrive (next_io evs) db))
            | None \<Rightarrow> flushStatusBatches (tl evs) (finishedCnt + length batch) totalSize
                (jm_del_all (map fst batch) localBuffer, arrive (next_io evs) (upsert_statuses rows db))
      else (Inr (), (localBuffer, db)))"
  by pat_completeness auto

termination
proof (relation "measure (\<lambda>(_, _, _, localBuffer, _). length localBuffer)", goal_cases)
  case (2 evs finishedCnt totalSize localBuffer db x rows)
  then have "x \<noteq> []" "set x \<subseteq> set localBuffer" by (auto dest: in_set_takeD)
  then show ?case by (simp add: jm_del_all_shorter)
qed simp

declare flushStatusBatches.simps [simp del]

text \<open>The \<open>catch\<close> block logs; the \<open>finally\<close> block hands the unwritten entries back.\<close>

definition flushWorkflowStatusBuffer :: "io list \<Rightarrow> (sysdb, unit) meth" where
  "flushWorkflowStatusBuffer evs = (\<lambda>db.
     let localBuffer = workflowStatusBuffer db in
     case finallyE (catchE (flushStatusBatches evs 0 (length localBuffer)) (\<lambda>e. retE ()))
            (modifyE (\<lambda>(l, d). (l, d\<lparr>workflowStatusBuffer := jm_restore l (workflowStatusBuffer d)\<rparr>)))
            (localBuffer, db\<lparr>workflowStatusBuffer := []\<rparr>) of
       (r, (_, d)) \<Rightarrow> (r, d))"

section \<open>The inputs buffer\<close>

text \<open>
  The \<open>for\<close> loop that fills a batch: how many entries it looked at, and those it took. Entries whose
  status is still buffered are passed over.
\<close>

fun scan_inputs :: "(uuid, WorkflowStatusInternal) jmap \<Rightarrow> nat \<Rightarrow> (uuid, jsval list) jmap \<Rightarrow> nat \<times> (uuid, jsval list) jmap" where
  "scan_inputs sb taken [] = (0, [])"
| "scan_inputs sb taken ((u, args) # rest) =
     (if jm_has sb u then (let (n, b) = scan_inputs sb taken rest in (Suc n, b))
      else if flushBatchSize \<le> Suc taken then (1, [(u, args)])
      else (let (n, b) = scan_inputs sb (Suc taken) rest in (Suc n, (u, args) # b)))"

definition input_values :: "(uuid, jsval list) jmap \<Rightarrow> jserror + (uuid \<times> column) list" where
  "input_values batch = traverse (\<lambda>(u, args). bindR (stringify (JArr args)) (\<lambda>c. Inr (u, c))) batch"

text \<open>\<open>INSERT \<dots> ON CONFLICT DO NOTHING\<close>: one statement, so a missing workflow rejects all of it.\<close>

definition insert_inputs :: "(uuid \<times> column) list \<Rightarrow> sysdb \<Rightarrow> jserror option \<times> sysdb" where
  "insert_inputs rows db =
     (if list_all (\<lambda>(u, _). workflow_inputs db u \<noteq> None \<or> find_wf u db \<noteq> None) rows
      then (None, db\<lparr>workflow_inputs := foldl (\<lambda>m (u, c). if m u = None then m(u \<mapsto> c) else m) (workflow_inputs db) rows\<rparr>)
      else (Some foreign_key_violation, db))"

function flushInputsBatches ::
    "io list \<Rightarrow> nat \<Rightarrow> nat \<Rightarrow> ((uuid, jsval list) jmap \<times> sysdb, unit) meth" where
  "flushInputsBatches evs finishedCnt totalSize (localBuffer, db) =
     (if finishedCnt < totalSize then
        let (n, batch) = scan_inputs (workflowStatusBuffer db) 0 localBuffer in
        if n = 0 then (Inl Diverges, (localBuffer, db))
        else case input_values batch of
          Inl e \<Rightarrow> (Inl e, (localBuffer, db))
        | Inr rows \<Rightarrow>
            if batch = [] then flushInputsBatches evs (finishedCnt + n) totalSize (localBuffer, db)
            else case io_error (next_io evs) of
              Some e \<Rightarrow> (Inl e, (localBuffer, arrive (next_io evs) db))
            | None \<Rightarrow>
                (case insert_inputs rows db of
                   (Some e, d) \<Rightarrow> (Inl e, (localBuffer, arrive (next_io evs) d))
                 | (None, d) \<Rightarrow> flushInputsBatches (tl evs) (finishedCnt + n) totalSize
                     (jm_del_all (map fst batch) localBuffer, arrive (next_io evs) d))
      else (Inr (), (localBuffer, db)))"
  by pat_completeness auto

termination
  by (relation "measure (\<lambda>(_, finishedCnt, totalSize, _). totalSize - finishedCnt)") auto

declare flushInputsBatches.simps [simp del]

definition flushWorkflowInputsBuffer :: "io list \<Rightarrow> (sysdb, unit) meth" where
  "flushWorkflowInputsBuffer evs = (\<lambda>db.
     let localBuffer = workflowInputsBuffer db in
     case finallyE (catchE (flushInputsBatches evs 0 (length localBuffer))
              (\<lambda>e. if e = Diverges then raiseE e else retE ()))
            (modifyE (\<lambda>(l, d). (l, d\<lparr>workflowInputsBuffer := jm_restore l (workflowInputsBuffer d)\<rparr>)))
            (localBuffer, db\<lparr>workflowInputsBuffer := []\<rparr>) of
       (r, (_, d)) \<Rightarrow> (r, d))"

definition flushWorkflowSystemBuffers :: "io list \<Rightarrow> io list \<Rightarrow> (sysdb, unit) meth" where
  "flushWorkflowSystemBuffers evs evs' = seqE (flushWorkflowStatusBuffer evs) (flushWorkflowInputsBuffer evs')"

section \<open>No buffered status is lost\<close>

text \<open>The row of \<open>u\<close> says what the buffered status \<open>st\<close> says.\<close>

definition written :: "sysdb \<Rightarrow> uuid \<Rightarrow> WorkflowStatusInternal \<Rightarrow> bool" where
  "written db u st \<longleftrightarrow> (case find_wf u db of None \<Rightarrow> False
     | Some r \<Rightarrow> ws_status r = wsi_status st \<and> stringify (wsi_output st) = Inr (ws_output r))"

lemma map_of_del_all: "map_of (jm_del_all ks m) k = (if k \<in> set ks then None else map_of m k)"
  by (induction m) (auto simp: jm_del_all_def)

lemma distinct_del_all: "distinct (map fst m) \<Longrightarrow> distinct (map fst (jm_del_all ks m))"
  by (simp add: jm_del_all_def distinct_map_filter)

lemma map_of_put_all: "map_of (put_all xs m) k = (case map_of (rev xs) k of Some v \<Rightarrow> Some v | None \<Rightarrow> map_of m k)"
proof (induction xs arbitrary: m)
  case (Cons x xs)
  have "put_all (x # xs) m = put_all xs (jm_set (fst x) (snd x) m)"
    by (simp add: put_all_def split_def)
  then show ?case by (auto simp: Cons.IH jm_get_set map_add_def split: option.splits)
qed (simp add: put_all_def)

lemma arrive_frame [simp]:
  "workflow_status (arrive e db) = workflow_status db" "now (arrive e db) = now db"
  "workflow_inputs (arrive e db) = workflow_inputs db" "operation_outputs (arrive e db) = operation_outputs db"
  "notifications (arrive e db) = notifications db" "workflow_events (arrive e db) = workflow_events db"
  "workflow_queue (arrive e db) = workflow_queue db"
  by (simp_all add: arrive_def)

lemma status_values_row:
  assumes "status_values t batch = Inr rows"
  shows "map ws_workflow_uuid rows = map fst batch"
    and "(u, st) \<in> set batch \<Longrightarrow> \<exists>r \<in> set rows. ws_workflow_uuid r = u \<and> ws_status r = wsi_status st \<and>
           stringify (wsi_output st) = Inr (ws_output r)"
  using assms unfolding status_values_def
  by (induction batch arbitrary: rows)
    (auto simp: traverse_Cons_Inr bindR_def status_row_def split: sum.splits simp del: traverse.simps(2))

lemma upsert_statuses_Cons: "upsert_statuses (r # rows) db = upsert_statuses rows (upsert_wf r (excluded r) db)"
  by (simp add: upsert_statuses_def)

lemma find_upsert_excluded:
  "find_wf u (upsert_wf r (excluded r) db) =
     (if u = ws_workflow_uuid r then Some (case find_wf u db of None \<Rightarrow> r | Some x \<Rightarrow> excluded r x) else find_wf u db)"
  by (simp add: upsert_wf_def row_find_upsert excluded_def)

lemma upsert_statuses_other:
  "u \<notin> ws_workflow_uuid ` set rows \<Longrightarrow> find_wf u (upsert_statuses rows db) = find_wf u db"
  by (induction rows arbitrary: db)
    (auto simp: upsert_statuses_Cons find_upsert_excluded, simp add: upsert_statuses_def)

lemma upsert_statuses_row:
  "distinct (map ws_workflow_uuid rows) \<Longrightarrow> r \<in> set rows \<Longrightarrow>
   \<exists>x. find_wf (ws_workflow_uuid r) (upsert_statuses rows db) = Some x \<and> ws_status x = ws_status r \<and> ws_output x = ws_output r"
  by (induction rows arbitrary: db)
    (auto simp: upsert_statuses_Cons upsert_statuses_other find_upsert_excluded excluded_def split: option.splits)

lemma upsert_statuses_buffer [simp]:
  "workflowStatusBuffer (upsert_statuses rows db) = workflowStatusBuffer db"
  "workflowInputsBuffer (upsert_statuses rows db) = workflowInputsBuffer db"
  by (induction rows arbitrary: db) (simp_all add: upsert_statuses_def upsert_wf_def)

lemma batch_written:
  assumes "status_values t batch = Inr rows" "distinct (map fst batch)" "(u, st) \<in> set batch"
  shows "written (upsert_statuses rows db) u st"
  using status_values_row [OF assms(1)] upsert_statuses_row [of rows _ db] assms(2,3)
  by (fastforce simp: written_def)

lemma distinct_fst_take: "distinct (map fst xs) \<Longrightarrow> distinct (map fst (take n xs))"
  by (simp add: take_map [symmetric])

lemma flushStatusBatches_once:
  "flushStatusBatches evs fin tot (l, db) = (r, (l', db')) \<Longrightarrow> distinct (map fst l) \<Longrightarrow>
     (map_of l u = Some st \<longrightarrow> map_of l' u = Some st \<or> written db' u st) \<and>
     (map_of l u = None \<longrightarrow> map_of l' u = None \<and> find_wf u db' = find_wf u db)"
proof (induction evs fin tot "(l, db)" arbitrary: l db rule: flushStatusBatches.induct)
  case (1 evs fin tot l db)
  let ?b = "take flushBatchSize l"
  show ?case
  proof (cases "\<exists>rows. fin < tot \<and> status_values (now db) ?b = Inr rows \<and> ?b \<noteq> [] \<and> io_error (next_io evs) = None")
    case False
    then show ?thesis using 1(2)
      by (subst (asm) flushStatusBatches.simps)
        (auto simp: Let_def written_def split: if_splits sum.splits option.splits)
  next
    case True
    then obtain rows where g: "fin < tot" "status_values (now db) ?b = Inr rows" "?b \<noteq> []"
      "io_error (next_io evs) = None" by blast
    let ?l1 = "jm_del_all (map fst ?b) l" and ?d1 = "arrive (next_io evs) (upsert_statuses rows db)"
    from g 1(2) have eq: "flushStatusBatches (tl evs) (fin + length ?b) tot (?l1, ?d1) = (r, (l', db'))"
      by (subst (asm) flushStatusBatches.simps) (simp add: Let_def)
    note IH = "1.hyps" [OF g(1) refl g(2,3,4) eq distinct_del_all [OF "1.prems"(2)]]
    have d: "distinct (map fst ?b)" using 1(3) by (rule distinct_fst_take)
    show ?thesis
    proof (cases "u \<in> set (map fst ?b)")
      case True
      then obtain st0 where b: "(u, st0) \<in> set ?b" by auto
      then have "map_of l u = Some st0" using 1(3) by (auto dest: in_set_takeD)
      moreover have "written ?d1 u st0" using batch_written [OF g(2) d b] by (simp add: written_def)
      ultimately show ?thesis using IH True by (auto simp: map_of_del_all written_def)
    next
      case False
      then have "find_wf u ?d1 = find_wf u db"
        using status_values_row(1) [OF g(2)] by (simp add: upsert_statuses_other flip: set_map)
      then show ?thesis using IH False by (simp add: map_of_del_all)
    qed
  qed
qed

lemma flushStatusBatches_arrivals:
  "flushStatusBatches evs fin tot (l, db) = (r, (l', db')) \<Longrightarrow>
   map_of (workflowStatusBuffer db') u = Some st \<Longrightarrow>
   map_of (workflowStatusBuffer db) u = Some st \<or> (\<exists>e \<in> set evs. (u, st) \<in> set (io_outputs e))"
proof (induction evs fin tot "(l, db)" arbitrary: l db rule: flushStatusBatches.induct)
  case (1 evs fin tot l db)
  let ?b = "take flushBatchSize l"
  have arr: "map_of (workflowStatusBuffer (arrive (next_io evs) d)) u = Some st \<Longrightarrow>
      map_of (workflowStatusBuffer d) u = Some st \<or> (\<exists>e \<in> set evs. (u, st) \<in> set (io_outputs e))" for d
    by (cases evs) (auto simp: next_io_def arrive_def map_of_put_all dest!: map_of_SomeD split: option.splits)
  show ?case
  proof (cases "\<exists>rows. fin < tot \<and> status_values (now db) ?b = Inr rows \<and> ?b \<noteq> [] \<and> io_error (next_io evs) = None")
    case False
    then show ?thesis using 1(2,3) arr
      by (subst (asm) flushStatusBatches.simps)
        (auto simp: Let_def split: if_splits sum.splits option.splits)
  next
    case True
    then obtain rows where g: "fin < tot" "status_values (now db) ?b = Inr rows" "?b \<noteq> []"
      "io_error (next_io evs) = None" by blast
    with 1(2) have eq: "flushStatusBatches (tl evs) (fin + length ?b) tot
        (jm_del_all (map fst ?b) l, arrive (next_io evs) (upsert_statuses rows db)) = (r, (l', db'))"
      by (subst (asm) flushStatusBatches.simps) (simp add: Let_def)
    from "1.hyps" [OF g(1) refl g(2,3,4) eq "1.prems"(2)] arr [of "upsert_statuses rows db"] show ?thesis
      by (cases evs) auto
  qed
qed

lemma flushWorkflowStatusBuffer_eq:
  assumes "flushStatusBatches evs 0 (length (workflowStatusBuffer db)) (workflowStatusBuffer db, db\<lparr>workflowStatusBuffer := []\<rparr>) = (r, (l, d))"
  shows "flushWorkflowStatusBuffer evs db = (Inr (), d\<lparr>workflowStatusBuffer := jm_restore l (workflowStatusBuffer d)\<rparr>)"
  using assms by (cases r) (auto simp: flushWorkflowStatusBuffer_def Let_def em_simps)

lemma flushWorkflowStatusBuffer_no_loss:
  assumes "distinct (map fst (workflowStatusBuffer db))" "map_of (workflowStatusBuffer db) u = Some st"
    and "flushWorkflowStatusBuffer evs db = (r, db')"
  shows "r = Inr () \<and> (written db' u st \<or> map_of (workflowStatusBuffer db') u = Some st \<or>
     (\<exists>e \<in> set evs. \<exists>st'. (u, st') \<in> set (io_outputs e) \<and> map_of (workflowStatusBuffer db') u = Some st'))"
proof -
  obtain q l d where run: "flushStatusBatches evs 0 (length (workflowStatusBuffer db))
      (workflowStatusBuffer db, db\<lparr>workflowStatusBuffer := []\<rparr>) = (q, (l, d))" by (metis prod.exhaust)
  from flushWorkflowStatusBuffer_eq [OF this] assms(3)
  have r: "r = Inr ()" and db': "db' = d\<lparr>workflowStatusBuffer := jm_restore l (workflowStatusBuffer d)\<rparr>" by auto
  from flushStatusBatches_once [OF run assms(1), of u st] assms(2)
  have "map_of l u = Some st \<or> written d u st" by simp
  moreover have "written db' u st = written d u st" by (simp add: written_def db')
  moreover have "map_of (workflowStatusBuffer d) u = Some st' \<Longrightarrow> \<exists>e \<in> set evs. (u, st') \<in> set (io_outputs e)" for st'
    using flushStatusBatches_arrivals [OF run, of u st'] by simp
  ultimately show ?thesis using r by (auto simp: db' jm_get_restore split: option.splits)
qed

section \<open>A flush without faults empties the buffer\<close>

definition serializable :: "WorkflowStatusInternal \<Rightarrow> bool" where
  "serializable st \<longleftrightarrow> (case stringify (wsi_request st) of Inl _ \<Rightarrow> False | Inr _ \<Rightarrow>
     (case stringify (wsi_output st) of Inl _ \<Rightarrow> False | Inr _ \<Rightarrow> True))"

lemma stringify_roles: "\<exists>c. stringify (roles_val rs) = Inr c"
  using stringify_storable [OF demo_node_buffers, of "roles_val rs"] by (auto simp: roles_val_def)

lemma status_values_ok: "\<forall>(u, st) \<in> set batch. serializable st \<Longrightarrow> \<exists>rows. status_values t batch = Inr rows"
proof (induction batch)
  case (Cons x batch)
  obtain u st where x: "x = (u, st)" by (cases x)
  obtain c where "stringify (roles_val (wsi_authenticatedRoles st)) = Inr c" using stringify_roles by blast
  with Cons x show ?case
    by (auto simp: status_values_def serializable_def split: sum.splits)
qed (simp add: status_values_def)

lemma del_all_take: "distinct (map fst l) \<Longrightarrow> jm_del_all (map fst (take n l)) l = drop n l"
proof -
  assume "distinct (map fst l)"
  then have "distinct (map fst (take n l @ drop n l))" by simp
  then have "\<forall>x \<in> set (drop n l). fst x \<notin> fst ` set (take n l)" by (auto simp del: append_take_drop_id)
  then have "filter (\<lambda>x. fst x \<notin> fst ` set (take n l)) (take n l @ drop n l) = drop n l"
    unfolding filter_append by (simp add: filter_empty_conv)
  then show ?thesis by (simp add: jm_del_all_def split_def)
qed

lemma flushStatusBatches_quiet:
  "distinct (map fst l) \<Longrightarrow> \<forall>(u, st) \<in> set l. serializable st \<Longrightarrow> tot = fin + length l \<Longrightarrow>
   \<exists>d. flushStatusBatches [] fin tot (l, db) = (Inr (), ([], d)) \<and> workflowStatusBuffer d = workflowStatusBuffer db"
proof (induction l arbitrary: fin db rule: length_induct)
  case (1 l)
  show ?case
  proof (cases "l = []")
    case True
    then show ?thesis using 1 by (subst flushStatusBatches.simps) simp
  next
    case False
    let ?b = "take flushBatchSize l"
    have b: "?b \<noteq> []" using False by (simp add: flushBatchSize_def)
    obtain rows where rows: "status_values (now db) ?b = Inr rows"
      using status_values_ok [of ?b "now db"] 1(3) by (meson in_set_takeD)
    let ?l = "drop flushBatchSize l" and ?d = "arrive quiet (upsert_statuses rows db)"
    have tot: "tot = (fin + length ?b) + length ?l" using 1(4) by simp
    have ser: "\<forall>(u, st) \<in> set ?l. serializable st" using 1(3) by (auto dest: in_set_dropD)
    have "length ?l < length l" using False by (simp add: flushBatchSize_def)
    moreover have "distinct (map fst ?l)" using 1(2) by (simp add: drop_map [symmetric])
    ultimately obtain d where "flushStatusBatches [] (fin + length ?b) tot (?l, ?d) = (Inr (), ([], d))"
      "workflowStatusBuffer d = workflowStatusBuffer ?d" using 1(1) ser tot by blast
    moreover have "fin < tot" using False 1(4) by simp
    ultimately show ?thesis using rows b
      by (subst flushStatusBatches.simps) (simp add: Let_def next_io_def del_all_take [OF 1(2)] arrive_def put_all_def)
  qed
qed

lemma flushWorkflowStatusBuffer_quiet:
  assumes "distinct (map fst (workflowStatusBuffer db))" "\<forall>(u, st) \<in> set (workflowStatusBuffer db). serializable st"
  shows "\<exists>db'. flushWorkflowStatusBuffer [] db = (Inr (), db') \<and> workflowStatusBuffer db' = [] \<and>
    (\<forall>(u, st) \<in> set (workflowStatusBuffer db). written db' u st)"
proof -
  obtain d where run: "flushStatusBatches [] 0 (length (workflowStatusBuffer db))
      (workflowStatusBuffer db, db\<lparr>workflowStatusBuffer := []\<rparr>) = (Inr (), ([], d))" "workflowStatusBuffer d = []"
    using flushStatusBatches_quiet [OF assms, of "length (workflowStatusBuffer db)" 0 "db\<lparr>workflowStatusBuffer := []\<rparr>"]
    by auto
  have "written d u st" if "(u, st) \<in> set (workflowStatusBuffer db)" for u st
    using flushStatusBatches_once [OF run(1) assms(1), of u st] assms(1) that by simp
  then show ?thesis
    using flushWorkflowStatusBuffer_eq [OF run(1)] run(2)
    by (auto simp: jm_restore_def written_def)
qed

section \<open>No buffered input is lost, and the flush ends\<close>

lemma scan_inputs_keys: "set (snd (scan_inputs sb k l)) \<subseteq> set l"
  by (induction sb k l rule: scan_inputs.induct) (auto simp: split_def Let_def)

lemma scan_inputs_distinct: "distinct (map fst l) \<Longrightarrow> distinct (map fst (snd (scan_inputs sb k l)))"
proof (induction sb k l rule: scan_inputs.induct)
  case (2 sb k u args rest)
  then show ?case using scan_inputs_keys [of sb "Suc k" rest]
    by (auto simp: split_def Let_def)
qed simp

lemma scan_inputs_length: "length (snd (scan_inputs sb k l)) \<le> fst (scan_inputs sb k l)"
  by (induction sb k l rule: scan_inputs.induct) (auto simp: split_def Let_def)

lemma scan_inputs_sub:
  assumes "scan_inputs sb k l = (n, b)"
  shows "set b \<subseteq> set l" "distinct (map fst l) \<Longrightarrow> distinct (map fst b)" "length b \<le> n"
  using scan_inputs_keys [of sb k l] scan_inputs_distinct [of l sb k] scan_inputs_length [of sb k l] assms by simp_all

lemma scan_inputs_0: "scan_inputs sb k l = (0, b) \<Longrightarrow> l = []"
  by (cases l) (auto simp: split_def Let_def split: if_splits)

lemma length_del_all:
  assumes "distinct (map fst l)" "set b \<subseteq> set l" "distinct (map fst b)"
  shows "length (jm_del_all (map fst b) l) + length b = length l"
proof -
  let ?in = "\<lambda>x. fst x \<in> fst ` set b"
  have "x \<in> set b" if x: "x \<in> set l" "?in x" for x
  proof -
    from x(2) obtain y where y: "y \<in> set b" "fst y = fst x" by auto
    with assms(2) have "y \<in> set l" by blast
    with assms(1) x(1) y(2) have "y = x" by (auto simp: distinct_map dest: inj_onD)
    with y show ?thesis by simp
  qed
  then have "set (filter ?in l) = set b" using assms(2) by auto
  moreover have "distinct l" "distinct b" using assms distinct_map by blast+
  ultimately have "length (filter ?in l) = length b" by (metis distinct_card distinct_filter)
  then show ?thesis using sum_length_filter_compl [of ?in l] by (simp add: jm_del_all_def split_def)
qed

lemma input_values_map:
  "input_values b = Inr rows \<Longrightarrow> map fst rows = map fst b \<and>
   (distinct (map fst b) \<longrightarrow> (u, args) \<in> set b \<longrightarrow> (\<exists>c. stringify (JArr args) = Inr c \<and> map_of rows u = Some c))"
  unfolding input_values_def
proof (induction b arbitrary: rows)
  case (Cons x b)
  obtain v a where x: "x = (v, a)" by (cases x)
  from Cons.prems obtain c zs where "stringify (JArr a) = Inr c" "rows = (v, c) # zs"
    "traverse (\<lambda>(u, args). bindR (stringify (JArr args)) (\<lambda>c. Inr (u, c))) b = Inr zs"
    by (auto simp: traverse_Cons_Inr x bindR_def split: sum.splits simp del: traverse.simps(2))
  with Cons.IH show ?case by (auto simp: x image_iff)
qed auto

lemma fold_inputs:
  "foldl (\<lambda>m (u, c). if m u = None then m(u \<mapsto> c) else m) m rows u =
     (case m u of Some c \<Rightarrow> Some c | None \<Rightarrow> map_of rows u)"
  by (induction rows arbitrary: m) (auto split: option.split prod.split)

definition stored_input :: "sysdb \<Rightarrow> sysdb \<Rightarrow> uuid \<Rightarrow> jsval list \<Rightarrow> bool" where
  "stored_input db db' u args \<longleftrightarrow> (case workflow_inputs db' u of None \<Rightarrow> False
     | Some c \<Rightarrow> workflow_inputs db u = Some c \<or> workflow_inputs db u = None \<and> stringify (JArr args) = Inr c)"

lemma insert_inputs_effect:
  assumes "insert_inputs rows db = (None, d)"
  shows "workflow_inputs d u = (case workflow_inputs db u of Some c \<Rightarrow> Some c | None \<Rightarrow> map_of rows u)"
    and "d = db\<lparr>workflow_inputs := workflow_inputs d\<rparr>"
  using assms by (auto simp: insert_inputs_def fold_inputs split: if_splits)

lemma insert_inputs_error: "insert_inputs rows db = (Some e, d) \<Longrightarrow> d = db"
  by (auto simp: insert_inputs_def split: if_splits)

lemma input_values_error: "input_values b = Inl e \<Longrightarrow> e \<noteq> Diverges"
  unfolding input_values_def
  by (induction b) (auto simp: bindR_def runtime_error_def dest!: stringify_error split: sum.splits)

text \<open>One turn of the loop that does not end it: nothing is written, or a whole batch is.\<close>

lemma flushInputsBatches_step:
  assumes "flushInputsBatches evs fin tot (l, db) = out" "distinct (map fst l)" "tot \<le> fin + length l"
    and "\<forall>e \<in> set evs. io_error e \<noteq> Some Diverges"
  obtains (finished) r e where "out = (r, (l, arrive e db))" "r \<noteq> Inl Diverges"
  | (skip) n where "fin < tot" "n \<noteq> 0" "flushInputsBatches evs (fin + n) tot (l, db) = out"
  | (batch) n b rows d where "fin < tot" "scan_inputs (workflowStatusBuffer db) 0 l = (n, b)" "n \<noteq> 0"
      "b \<noteq> []" "input_values b = Inr rows" "insert_inputs rows db = (None, d)"
      "flushInputsBatches (tl evs) (fin + n) tot (jm_del_all (map fst b) l, arrive (next_io evs) d) = out"
proof -
  obtain n b where sc: "scan_inputs (workflowStatusBuffer db) 0 l = (n, b)" by fastforce
  have q: "db = arrive quiet db" by (simp add: arrive_def put_all_def)
  have n: "n \<noteq> 0" if "fin < tot" using scan_inputs_0 [of "workflowStatusBuffer db" 0 l b] sc that assms(3) by (cases "n = 0") auto
  have ev: "io_error (next_io evs) \<noteq> Some Diverges" using assms(4) by (cases evs) (simp_all add: next_io_def)
  show thesis
  proof (cases "fin < tot")
    case False
    with assms(1) have "out = (Inr (), (l, arrive quiet db))" using q by (subst (asm) flushInputsBatches.simps) simp
    then show thesis by (rule finished) simp
  next
    case True
    show thesis
    proof (cases "input_values b")
      case (Inl e)
      with assms(1) True sc n have "out = (Inl e, (l, arrive quiet db))"
        using q by (subst (asm) flushInputsBatches.simps) simp
      then show thesis by (rule finished) (use input_values_error [OF Inl] in simp)
    next
      case (Inr rows)
      note run = assms(1) [unfolded flushInputsBatches.simps [of evs fin tot l db]]
      show thesis
      proof (cases "b = []")
        case b: True
        with run True sc n Inr have "flushInputsBatches evs (fin + n) tot (l, db) = out" by simp
        with True n show thesis by (intro skip) auto
      next
        case b: False
        show thesis
        proof (cases "io_error (next_io evs)")
          case (Some e)
          with run True sc n Inr b ev show thesis by (intro finished [of "Inl e" "next_io evs"]) auto
        next
          case io: None
          obtain x d where ins: "insert_inputs rows db = (x, d)" by fastforce
          show thesis
          proof (cases x)
            case None
            with run True sc n Inr b io ins show thesis by (intro batch) auto
          next
            case (Some e)
            with ins have "d = db" "e = foreign_key_violation" by (auto simp: insert_inputs_def split: if_splits)
            with run True sc n Inr b io ins Some show thesis
              by (intro finished [of "Inl e" "next_io evs"]) auto
          qed
        qed
      qed
    qed
  qed
qed

lemma flushInputsBatches_once:
  "flushInputsBatches evs fin tot (l, db) = (r, (l', db')) \<Longrightarrow> distinct (map fst l) \<Longrightarrow> tot \<le> fin + length l \<Longrightarrow>
   \<forall>e \<in> set evs. io_error e \<noteq> Some Diverges \<Longrightarrow>
   r \<noteq> Inl Diverges \<and> (map_of l u = Some args \<longrightarrow> map_of l' u = Some args \<or> stored_input db db' u args) \<and>
   (map_of l u = None \<longrightarrow> map_of l' u = None) \<and> (\<forall>c. workflow_inputs db u = Some c \<longrightarrow> workflow_inputs db' u = Some c) \<and>
   (map_of l u = None \<longrightarrow> workflow_inputs db' u = workflow_inputs db u)"
proof (induction "tot - fin" arbitrary: evs fin l db rule: less_induct)
  case less
  from less.prems show ?case
  proof (cases rule: flushInputsBatches_step)
    case (finished r e)
    then show ?thesis by (auto simp: stored_input_def)
  next
    case (skip n)
    then show ?thesis using less.hyps [OF _ skip(3) less.prems(2)] less.prems by auto
  next
    case (batch n b rows d)
    note sub = scan_inputs_sub [OF batch(2)]
    let ?l = "jm_del_all (map fst b) l"
    have db: "distinct (map fst b)" using sub(2) less.prems(2) .
    have len: "tot \<le> fin + n + length ?l"
      using length_del_all [OF less.prems(2) sub(1) db] sub(3) less.prems(3) by linarith
    have evs: "\<forall>e \<in> set (tl evs). io_error e \<noteq> Some Diverges" using less.prems(4) by (cases evs) auto
    have dec: "tot - (fin + n) < tot - fin" using batch(1,3) by linarith
    note IH = less.hyps [OF dec batch(7) distinct_del_all [OF less.prems(2)] len evs]
    note iv = input_values_map [OF batch(5)] and eff = insert_inputs_effect [OF batch(6)]
    show ?thesis
    proof (cases "u \<in> fst ` set b")
      case True
      then obtain a where a: "(u, a) \<in> set b" by auto
      with sub(1) less.prems(2) have la: "map_of l u = Some a" by auto
      obtain c where c: "stringify (JArr a) = Inr c" "map_of rows u = Some c" using iv a db by blast
      then show ?thesis using IH True la by (auto simp: map_of_del_all stored_input_def eff(1) split: option.splits)
    next
      case False
      then have "map_of rows u = None" using iv by (simp add: map_of_eq_None_iff flip: set_map)
      then show ?thesis using IH False by (auto simp: map_of_del_all stored_input_def eff(1) split: option.splits)
    qed
  qed
qed

lemma flushWorkflowInputsBuffer_no_loss:
  assumes "distinct (map fst (workflowInputsBuffer db))" "map_of (workflowInputsBuffer db) u = Some args"
    and "\<forall>e \<in> set evs. io_error e \<noteq> Some Diverges" "flushWorkflowInputsBuffer evs db = (r, db')"
  shows "r = Inr () \<and> (stored_input db db' u args \<or> map_of (workflowInputsBuffer db') u \<noteq> None)"
proof -
  obtain q l d where run: "flushInputsBatches evs 0 (length (workflowInputsBuffer db))
      (workflowInputsBuffer db, db\<lparr>workflowInputsBuffer := []\<rparr>) = (q, (l, d))" by (metis prod.exhaust)
  note once = flushInputsBatches_once [OF run assms(1) _ assms(3), of u args]
  have "flushWorkflowInputsBuffer evs db = (Inr (), d\<lparr>workflowInputsBuffer := jm_restore l (workflowInputsBuffer d)\<rparr>)"
    using run once by (cases q) (auto simp: flushWorkflowInputsBuffer_def Let_def em_simps)
  then show ?thesis using once assms(2,4)
    by (auto simp: jm_get_restore stored_input_def split: option.splits)
qed

end
