(* ===== verification/Strings.thy ===== *)
theory Strings
  imports Prelude
begin

text \<open>
  The string functions of ECMAScript the program uses: \<open>split\<close> and \<open>join\<close> on a separator,
  \<open>trim\<close>, \<open>replace\<close> of the first occurrence and of all occurrences regardless of case, \<open>includes\<close>,
  \<open>toLowerCase\<close>, and \<open>parseInt\<close> (\<open>None\<close> is NaN). A string is a list of characters of one
  byte. The main facts: \<open>split\<close> undoes \<open>join\<close>, and \<open>parseInt\<close> reads what template strings print.
\<close>

section \<open>split and join\<close>

fun split_on :: "char \<Rightarrow> string \<Rightarrow> string list" where
  "split_on c [] = [[]]"
| "split_on c (x # xs) = (if x = c then [] # split_on c xs
     else (case split_on c xs of [] \<Rightarrow> [[x]] | y # ys \<Rightarrow> (x # y) # ys))"

fun join_on :: "char \<Rightarrow> string list \<Rightarrow> string" where
  "join_on c [] = []"
| "join_on c [x] = x"
| "join_on c (x # y # ys) = x @ c # join_on c (y # ys)"

lemma split_on_no: "c \<notin> set xs \<Longrightarrow> split_on c xs = [xs]"
  by (induction xs) auto

lemma split_on_append: "c \<notin> set xs \<Longrightarrow> split_on c (xs @ c # ys) = xs # split_on c ys"
  by (induction xs) auto

lemma split_on_nonempty [simp]: "split_on c xs \<noteq> []"
  by (induction xs) (auto split: list.splits)

lemma split_on_free: "x \<in> set (split_on c xs) \<Longrightarrow> c \<notin> set x"
proof (induction xs arbitrary: x)
  case (Cons a xs)
  then show ?case by (cases "split_on c xs") (auto split: if_splits)
qed simp

lemma split_join: "xs \<noteq> [] \<Longrightarrow> (\<And>x. x \<in> set xs \<Longrightarrow> c \<notin> set x) \<Longrightarrow> split_on c (join_on c xs) = xs"
proof (induction xs rule: induct_list012)
  case (2 x)
  then show ?case by (simp add: split_on_no)
next
  case (3 x y zs)
  from 3(2) [OF list.distinct(2)] 3(4) have "split_on c (join_on c (y # zs)) = y # zs" by auto
  then show ?case using 3(4) by (simp add: split_on_append)
qed simp

lemma join_split: "join_on c (split_on c xs) = xs"
proof (induction xs)
  case (Cons x xs)
  then show ?case
    by (cases "split_on c xs"; cases "tl (split_on c xs)") (auto split: list.splits)
qed simp

lemma set_join_on: "set (join_on c xs) \<subseteq> insert c (\<Union>x \<in> set xs. set x)"
  by (induction xs rule: induct_list012) auto

section \<open>White space, case, searching\<close>

text \<open>The characters of \<open>\s\<close> that fit into a byte.\<close>

definition is_space :: "char \<Rightarrow> bool" where
  "is_space c = ((of_char c :: nat) \<in> set [9, 10, 11, 12, 13, 32, 160])"

definition trim :: "string \<Rightarrow> string" where
  "trim s = rev (dropWhile is_space (rev (dropWhile is_space s)))"

definition lower_char :: "char \<Rightarrow> char" where
  "lower_char c = (let n = of_char c :: nat in if 65 \<le> n \<and> n \<le> 90 then char_of (n + 32) else c)"

fun starts_with :: "string \<Rightarrow> string \<Rightarrow> bool" where
  "starts_with [] s = True"
| "starts_with (p # ps) [] = False"
| "starts_with (p # ps) (c # cs) = (p = c \<and> starts_with ps cs)"

lemma starts_with_iff: "starts_with p s \<longleftrightarrow> (\<exists>r. s = p @ r)"
  by (induction p s rule: starts_with.induct) auto

text \<open>\<open>s.replace(p, r)\<close> with a string pattern: the first occurrence.\<close>

fun replace_first :: "string \<Rightarrow> string \<Rightarrow> string \<Rightarrow> string" where
  "replace_first p r [] = (if p = [] then r else [])"
| "replace_first p r (c # cs) =
     (if starts_with p (c # cs) then r @ drop (length p) (c # cs) else c # replace_first p r cs)"

lemma replace_first_here: "p \<noteq> [] \<Longrightarrow> replace_first p r (p @ s) = r @ s"
  by (cases p) (auto simp: starts_with_iff)

lemma replace_first_none: "p \<noteq> [] \<Longrightarrow> hd p \<notin> set s \<Longrightarrow> replace_first p r s = s"
  by (induction s) (auto simp: starts_with_iff neq_Nil_conv)

lemma replace_first_skip: "p \<noteq> [] \<Longrightarrow> hd p \<notin> set s \<Longrightarrow> replace_first p r (s @ t) = s @ replace_first p r t"
  by (induction s) (auto simp: starts_with_iff neq_Nil_conv)

text \<open>\<open>s.replace(new RegExp(p, 'gi'), r)\<close> for a non-empty pattern of letters: every occurrence, in any case.\<close>

definition starts_ci :: "string \<Rightarrow> string \<Rightarrow> bool" where
  "starts_ci p s = starts_with (map lower_char p) (map lower_char s)"

function replace_all_ci :: "string \<Rightarrow> string \<Rightarrow> string \<Rightarrow> string" where
  "replace_all_ci p r [] = []"
| "replace_all_ci p r (c # cs) =
     (if starts_ci p (c # cs) then r @ replace_all_ci p r (drop (length p - 1) cs) else c # replace_all_ci p r cs)"
  by pat_completeness auto
termination by (relation "measure (\<lambda>(_, _, s). length s)") auto

lemma replace_all_ci_none: "p \<noteq> [] \<Longrightarrow> lower_char (hd p) \<notin> lower_char ` set s \<Longrightarrow> replace_all_ci p r s = s"
  by (induction s) (auto simp: starts_ci_def starts_with_iff neq_Nil_conv)

section \<open>parseInt\<close>

definition is_digit :: "char \<Rightarrow> bool" where
  "is_digit c = (digit_val c \<noteq> None)"

definition leading_nat :: "string \<Rightarrow> nat option" where
  "leading_nat s = nat_of_str (takeWhile is_digit s)"

definition hex_val :: "char \<Rightarrow> nat option" where
  "hex_val c = (case digit_val c of Some d \<Rightarrow> Some d
     | None \<Rightarrow> (let n = of_char (lower_char c) :: nat in if 97 \<le> n \<and> n \<le> 102 then Some (n - 87) else None))"

definition leading_hex :: "string \<Rightarrow> nat option" where
  "leading_hex s = (let ds = takeWhile (\<lambda>c. hex_val c \<noteq> None) s in
     if ds = [] then None else Some (foldl (\<lambda>n c. 16 * n + the (hex_val c)) 0 ds))"

definition signed :: "(string \<Rightarrow> nat option) \<Rightarrow> string \<Rightarrow> int option" where
  "signed rd s = (case s of
      [] \<Rightarrow> None
    | c # cs \<Rightarrow> if c = CHR ''-'' then map_option (\<lambda>n. - int n) (rd cs)
        else if c = CHR ''+'' then map_option int (rd cs) else map_option int (rd s))"

text \<open>\<open>parseInt(s, 10)\<close>, and \<open>parseInt(s)\<close>, which reads a prefix \<open>0x\<close> as hexadecimal.\<close>

definition parseInt10 :: "string \<Rightarrow> int option" where
  "parseInt10 s = signed leading_nat (dropWhile is_space s)"

definition parseInt :: "string \<Rightarrow> int option" where
  "parseInt s = signed (\<lambda>t. if starts_ci ''0x'' t then leading_hex (drop 2 t) else leading_nat t) (dropWhile is_space s)"

text \<open>\<open>`${n}`\<close> for a number that may be NaN.\<close>

definition number_str :: "int option \<Rightarrow> string" where
  "number_str v = (case v of None \<Rightarrow> ''NaN'' | Some i \<Rightarrow> int_str i)"

lemma digit_char: "digit_val c = Some d \<Longrightarrow> \<not> is_space c \<and> c \<noteq> CHR ''-'' \<and> c \<noteq> CHR ''+'' \<and> lower_char c = c"
  by (auto simp: digit_val_def is_space_def lower_char_def Let_def split: if_splits)

lemma is_digit_nat_str: "c \<in> set (nat_str n) \<Longrightarrow> is_digit c"
  by (auto simp: is_digit_def dest: nat_str_digits)

lemma takeWhile_nat_str:
  assumes "\<And>c t. r = c # t \<Longrightarrow> \<not> is_digit c"
  shows "takeWhile is_digit (nat_str n @ r) = nat_str n"
  using assms by (cases r) (auto simp: takeWhile_append1 takeWhile_append2 is_digit_nat_str takeWhile_tail
      takeWhile_append intro: takeWhile_eq_all_conv [THEN iffD2])

lemma leading_nat_str:
  assumes "\<And>c t. r = c # t \<Longrightarrow> \<not> is_digit c"
  shows "leading_nat (nat_str n @ r) = Some n"
  using assms by (simp add: leading_nat_def takeWhile_nat_str)

lemma nat_str_cons: "\<exists>c cs d. nat_str n = c # cs \<and> digit_val c = Some d"
proof -
  obtain c cs where c: "nat_str n = c # cs" by (cases "nat_str n") auto
  then have "digit_val c \<noteq> None" using nat_str_digits [of c n] by simp
  with c show ?thesis by auto
qed

lemma parseInt10_nat_str:
  assumes "\<And>c t. r = c # t \<Longrightarrow> \<not> is_digit c"
  shows "parseInt10 (nat_str n @ r) = Some (int n)"
proof -
  obtain c cs d where c: "nat_str n = c # cs" "digit_val c = Some d" using nat_str_cons by blast
  have "leading_nat (c # cs @ r) = Some n" using leading_nat_str [where n = n, OF assms] c(1) by simp
  then show ?thesis using c digit_char [OF c(2)] by (simp add: parseInt10_def signed_def)
qed

lemma starts_0x_nat_str: "\<not> starts_ci ''0x'' (nat_str n)"
proof
  assume "starts_ci ''0x'' (nat_str n)"
  then obtain t where "map lower_char (nat_str n) = CHR ''0'' # CHR ''x'' # t"
    by (auto simp: starts_ci_def starts_with_iff lower_char_def)
  then have "CHR ''x'' \<in> lower_char ` set (nat_str n)" by (metis list.set_intros(1,2) list.set_map)
  then obtain c where "c \<in> set (nat_str n)" "lower_char c = CHR ''x''" by auto
  then show False using nat_str_digits [of c n] digit_char [of c] by (auto simp: digit_val_def)
qed

lemma parseInt_nat_str [simp]: "parseInt (nat_str n) = Some (int n)"
proof -
  obtain c cs d where c: "nat_str n = c # cs" "digit_val c = Some d" using nat_str_cons by blast
  have "leading_nat (c # cs) = Some n" using leading_nat_str [where r = "[]" and n = n] c(1) by simp
  then show ?thesis using c digit_char [OF c(2)] starts_0x_nat_str [of n] by (simp add: parseInt_def signed_def)
qed

end
