(* ===== verification/Executor.thy ===== *)
theory Executor
  imports Steps Queues Buffers Strings
begin

text \<open>
  The executor (\<open>src/src/dbos-executor.ts\<close>, class \<open>DBOSExecutor\<close>, and \<open>dispatchLoop\<close> of
  \<open>src/src/wfqueue.ts\<close>): registries, starting a workflow, running it to its result, recovery,
  temporary workflows, the buffer of transaction outputs, and the dispatch of queued workflows.

  A workflow function is a method on the state. A started workflow runs to its end at the point
  where it is started, one of the orders its promise allows; its handle carries the outcome. What
  other executors do while a conflicting execution waits for the result is the parameter \<open>others\<close>.
  Identifiers come from \<open>generateUUID\<close>, a parameter that stands for the \<open>uuid\<close> package.
\<close>

record ('u, 'x) Workflow =
  wf_name :: string
  wf_className :: string
  wf_call :: "wctx \<Rightarrow> jsval list \<Rightarrow> (('u, 'x) dbos, jsval) meth"

record ('u, 'x) WorkflowInfo =
  wi_workflow :: "('u, 'x) Workflow"
  wi_maxRecoveryAttempts :: "nat option"

record ('u, 'x) registry =
  workflowInfoMap :: "(string, ('u, 'x) WorkflowInfo) jmap"
  transactionInfos :: "(string, 'u TransactionInfo) jmap"
  stepInfos :: "(string, 'x StepInfo) jmap"
  procedureInfos :: "(string, 'u ProcedureInfo) jmap"

datatype ('u, 'x) op_config =
    WorkflowOp "('u, 'x) WorkflowInfo"
  | TransactionOp "'u TransactionInfo"
  | StepOp "'x StepInfo"
  | ProcedureOp "'u ProcedureInfo"
  | OtherOp

record ('u, 'x) MethodRegistration =
  mr_className :: string
  mr_name :: string
  mr_config :: "('u, 'x) op_config"

definition tempWorkflowName :: string where
  "tempWorkflowName = ''temp_workflow''"

definition full_name :: "string \<Rightarrow> string \<Rightarrow> string" where
  "full_name cls nm = cls @ ''.'' @ nm"

section \<open>Registration\<close>

definition temp_info :: "('u, 'x) WorkflowInfo" where
  "temp_info = \<lparr>wi_workflow = \<lparr>wf_name = tempWorkflowName, wf_className = [], wf_call = (\<lambda>_ _. retE JUndefined)\<rparr>,
     wi_maxRecoveryAttempts = None\<rparr>"

definition empty_registry :: "('u, 'x) registry" where
  "empty_registry = \<lparr>workflowInfoMap = [(tempWorkflowName, temp_info)], transactionInfos = [], stepInfos = [], procedureInfos = []\<rparr>"

definition registerWorkflow :: "string \<Rightarrow> string \<Rightarrow> ('u, 'x) WorkflowInfo \<Rightarrow> (('u, 'x) registry, unit) meth" where
  "registerWorkflow cls nm info =
     (if wf_name (wi_workflow info) = tempWorkflowName
      then raiseE (DBOSError (''Unexpected use of reserved workflow name: '' @ wf_name (wi_workflow info)) 1)
      else bindE (getsE (\<lambda>r. jm_has (workflowInfoMap r) (full_name cls nm))) (\<lambda>dup.
        if dup then raiseE (DBOSError (''Repeated workflow name: '' @ full_name cls nm) 1)
        else modifyE (\<lambda>r. r\<lparr>workflowInfoMap := jm_set (full_name cls nm) info (workflowInfoMap r)\<rparr>)))"

definition registerTransaction :: "string \<Rightarrow> string \<Rightarrow> 'u TransactionInfo \<Rightarrow> (('u, 'x) registry, unit) meth" where
  "registerTransaction cls nm info =
     bindE (getsE (\<lambda>r. jm_has (transactionInfos r) (full_name cls nm))) (\<lambda>dup.
     if dup then raiseE (DBOSError (''Repeated Transaction name: '' @ full_name cls nm) 1)
     else modifyE (\<lambda>r. r\<lparr>transactionInfos := jm_set (full_name cls nm) info (transactionInfos r)\<rparr>))"

definition registerStep :: "string \<Rightarrow> string \<Rightarrow> 'x StepInfo \<Rightarrow> (('u, 'x) registry, unit) meth" where
  "registerStep cls nm info =
     bindE (getsE (\<lambda>r. jm_has (stepInfos r) (full_name cls nm))) (\<lambda>dup.
     if dup then raiseE (DBOSError (''Repeated Commmunicator name: '' @ full_name cls nm) 1)
     else modifyE (\<lambda>r. r\<lparr>stepInfos := jm_set (full_name cls nm) info (stepInfos r)\<rparr>))"

definition registerProcedure :: "string \<Rightarrow> string \<Rightarrow> 'u ProcedureInfo \<Rightarrow> (('u, 'x) registry, unit) meth" where
  "registerProcedure cls nm info =
     bindE (getsE (\<lambda>r. jm_has (procedureInfos r) (full_name cls nm))) (\<lambda>dup.
     if dup then raiseE (DBOSError (''Repeated Procedure name: '' @ full_name cls nm) 1)
     else modifyE (\<lambda>r. r\<lparr>procedureInfos := jm_set (full_name cls nm) info (procedureInfos r)\<rparr>))"

definition registerClass :: "('u, 'x) MethodRegistration list \<Rightarrow> (('u, 'x) registry, unit list) meth" where
  "registerClass ops = mapE (\<lambda>ro. case mr_config ro of
       WorkflowOp i \<Rightarrow> registerWorkflow (mr_className ro) (mr_name ro) i
     | TransactionOp i \<Rightarrow> registerTransaction (mr_className ro) (mr_name ro) i
     | StepOp i \<Rightarrow> registerStep (mr_className ro) (mr_name ro) i
     | ProcedureOp i \<Rightarrow> registerProcedure (mr_className ro) (mr_name ro) i
     | OtherOp \<Rightarrow> retE ()) ops"

section \<open>Look-up\<close>

definition getWorkflowInfo :: "('u, 'x) registry \<Rightarrow> ('u, 'x) Workflow \<Rightarrow> ('u, 'x) WorkflowInfo option" where
  "getWorkflowInfo r wfl = jm_get (workflowInfoMap r)
     (if wf_name wfl = tempWorkflowName then wf_name wfl else full_name (wf_className wfl) (wf_name wfl))"

definition ambiguous :: "string \<Rightarrow> string \<Rightarrow> jserror" where
  "ambiguous kind nm = DBOSError (''Recovered '' @ kind @ '' function name '' @ CHR 39 # nm @ CHR 39 #
     '' is ambiguous.  The ambiguous name was recently added; remove it and recover pending workflows before re-adding the new function.'') 1"

text \<open>By full name, with the key found; rows of old releases have no class name, and are looked up by function name alone.\<close>

definition info_by_names :: "string \<Rightarrow> ('i \<Rightarrow> string) \<Rightarrow> (string, 'i) jmap \<Rightarrow> string \<Rightarrow> string \<Rightarrow> jserror + (string \<times> 'i) option" where
  "info_by_names kind name_of m cls nm =
     (case jm_get m (full_name cls nm) of
        Some i \<Rightarrow> Inr (Some (full_name cls nm, i))
      | None \<Rightarrow> if cls \<noteq> [] then Inr None
          else (case filter (\<lambda>(_, i). name_of i = nm) m of
                  [] \<Rightarrow> Inr None
                | [ki] \<Rightarrow> Inr (Some ki)
                | _ \<Rightarrow> Inl (ambiguous kind nm)))"

definition getWorkflowInfoByStatus :: "('u, 'x) registry \<Rightarrow> WorkflowStatus \<Rightarrow> jserror + ('u, 'x) WorkflowInfo option" where
  "getWorkflowInfoByStatus r st =
     bindR (info_by_names ''workflow'' (\<lambda>i. wf_name (wi_workflow i)) (workflowInfoMap r) (wst_workflowClassName st) (wst_workflowName st))
       (\<lambda>i. Inr (map_option snd i))"

definition getTransactionInfoByNames :: "('u, 'x) registry \<Rightarrow> string \<Rightarrow> string \<Rightarrow> jserror + (string \<times> 'u TransactionInfo) option" where
  "getTransactionInfoByNames r cls nm = info_by_names ''transaction'' ti_name (transactionInfos r) cls nm"

definition getStepInfoByNames :: "('u, 'x) registry \<Rightarrow> string \<Rightarrow> string \<Rightarrow> jserror + (string \<times> 'x StepInfo) option" where
  "getStepInfoByNames r cls nm = info_by_names ''step'' si_name (stepInfos r) cls nm"

section \<open>The executor\<close>

record ('u, 'x) DBOSExecutor =
  dx_runtime :: runtime
  dx_kind :: UserDatabaseName
  dx_sqlError :: "string \<Rightarrow> jserror"
  dx_registry :: "('u, 'x) registry"
  dx_queues :: wfQueuesByName
  generateUUID :: "nat \<Rightarrow> uuid"
  dx_vmid :: "string option" \<comment> \<open>\<open>process.env.DBOS__VMID\<close>\<close>
  dx_appVersion :: string
  dx_appID :: string
  dx_fuel :: nat

definition exec_of :: "('u, 'x) DBOSExecutor \<Rightarrow> ('u, 'x) dbosExec" where
  "exec_of dx = \<lparr>ex_runtime = dx_runtime dx, ex_kind = dx_kind dx, ex_sqlError = dx_sqlError dx,
     transactionInfoMap = jm_get (transactionInfos (dx_registry dx)), stepInfoMap = jm_get (stepInfos (dx_registry dx)),
     procedureInfoMap = jm_get (procedureInfos (dx_registry dx))\<rparr>"

definition executorID :: "('u, 'x) DBOSExecutor \<Rightarrow> string" where
  "executorID dx = (case or_undefined (dx_vmid dx) of None \<Rightarrow> ''local'' | Some v \<Rightarrow> v)"

record parentCtx =
  pc_request :: jsval
  pc_authenticatedUser :: string
  pc_authenticatedRoles :: "string list"
  pc_assumedRole :: string

definition no_parent :: parentCtx where
  "no_parent = \<lparr>pc_request = JObj [], pc_authenticatedUser = [], pc_authenticatedRoles = [], pc_assumedRole = []\<rparr>"

record InternalWorkflowParams =
  p_workflowUUID :: "uuid option"
  p_parentCtx :: parentCtx
  p_configuredInstance :: "string option"
  p_recovery :: bool
  p_queueName :: "string option"
  p_executeWorkflow :: bool
  p_tempWfType :: string
  p_tempWfName :: string
  p_tempWfClass :: string

definition plain_params :: InternalWorkflowParams where
  "plain_params = \<lparr>p_workflowUUID = None, p_parentCtx = no_parent, p_configuredInstance = None, p_recovery = False,
     p_queueName = None, p_executeWorkflow = False, p_tempWfType = [], p_tempWfName = [], p_tempWfClass = []\<rparr>"

definition maxRecoveryAttempts :: "('u, 'x) WorkflowInfo \<Rightarrow> nat" where
  "maxRecoveryAttempts info = (case wi_maxRecoveryAttempts info of None \<Rightarrow> 50 | Some n \<Rightarrow> if n = 0 then 50 else n)"

definition is_temp :: "('u, 'x) Workflow \<Rightarrow> bool" where
  "is_temp wfl \<longleftrightarrow> wf_name wfl = tempWorkflowName"

definition internalStatus ::
    "('u, 'x) DBOSExecutor \<Rightarrow> ('u, 'x) Workflow \<Rightarrow> ('u, 'x) WorkflowInfo \<Rightarrow> InternalWorkflowParams \<Rightarrow> uuid \<Rightarrow> int \<Rightarrow> WorkflowStatusInternal" where
  "internalStatus dx wfl info params u t = \<lparr>
     wsi_workflowUUID = u,
     wsi_status = (if p_queueName params \<noteq> None then ENQUEUED else PENDING),
     wsi_name = (if is_temp wfl then tempWorkflowName @ ''-'' @ p_tempWfType params @ ''-'' @ p_tempWfName params else wf_name wfl),
     wsi_className = (if is_temp wfl then p_tempWfClass params else wf_className wfl),
     wsi_configName = or_empty (p_configuredInstance params),
     wsi_queueName = p_queueName params,
     wsi_authenticatedUser = pc_authenticatedUser (p_parentCtx params),
     wsi_output = JUndefined, wsi_error = Some (Str []),
     wsi_assumedRole = pc_assumedRole (p_parentCtx params),
     wsi_authenticatedRoles = pc_authenticatedRoles (p_parentCtx params),
     wsi_request = pc_request (p_parentCtx params),
     wsi_executorID = executorID dx,
     wsi_applicationVersion = dx_appVersion dx, wsi_applicationID = dx_appID dx,
     wsi_createdAt = t, wsi_maxRetries = maxRecoveryAttempts info, wsi_recovery = p_recovery params\<rparr>"

definition getQueueByName :: "('u, 'x) DBOSExecutor \<Rightarrow> string \<Rightarrow> (('u, 'x) dbos, WorkflowQueue) meth" where
  "getQueueByName dx nm = (case jm_get (dx_queues dx) nm of
     None \<Rightarrow> raiseE (DBOSNotRegisteredError (''Workflow queue '' @ CHR 39 # nm @ CHR 39 # '' does is not defined.''))
   | Some q \<Rightarrow> retE q)"

text \<open>A new context starts counting at 0 with an empty buffer; the context of the caller is kept.\<close>

definition fresh_ctx :: "('u, 'x) dbos \<Rightarrow> ('u, 'x) dbos" where
  "fresh_ctx s = s\<lparr>functionID := 0, resultBuffer := []\<rparr>"

definition restore_ctx :: "('u, 'x) dbos \<Rightarrow> ('u, 'x) dbos \<Rightarrow> ('u, 'x) dbos" where
  "restore_ctx caller s = s\<lparr>functionID := functionID caller, resultBuffer := resultBuffer caller, txn_snapshot := txn_snapshot caller\<rparr>"

definition dequeue_if_queued :: "('u, 'x) DBOSExecutor \<Rightarrow> WorkflowStatusInternal \<Rightarrow> (('u, 'x) dbos, unit) meth" where
  "dequeue_if_queued dx st = (case or_undefined (wsi_queueName st) of
     None \<Rightarrow> retE ()
   | Some nm \<Rightarrow> bindE (getQueueByName dx nm) (\<lambda>q. on_sys (dequeueWorkflow (wsi_workflowUUID st) q)))"

definition is_single_txn :: "InternalWorkflowParams \<Rightarrow> bool" where
  "is_single_txn params \<longleftrightarrow> p_tempWfType params = ''transaction'' \<or> p_tempWfType params = ''procedure''"

text \<open>The \<open>catch\<close> block: another execution has won, or the error is the outcome of the workflow.\<close>

definition on_workflow_error ::
    "('u, 'x) DBOSExecutor \<Rightarrow> (sysdb \<Rightarrow> sysdb) list \<Rightarrow> WorkflowStatusInternal \<Rightarrow> uuid \<Rightarrow> jserror \<Rightarrow> (('u, 'x) dbos, jsval) meth" where
  "on_workflow_error dx others st u err = (case err of
     DBOSWorkflowConflictUUIDError _ \<Rightarrow> on_sys (getWorkflowResult (dx_runtime dx) others u)
   | _ \<Rightarrow>
      bindE (liftE (stringify (serializeError (dx_runtime dx) err))) (\<lambda>e.
      seqE (dequeue_if_queued dx st)
      (seqE (on_sys (recordWorkflowError u (st\<lparr>wsi_error := e, wsi_status := ERROR\<rparr>))) (raiseE err))))"

definition runWorkflow ::
    "('u, 'x) DBOSExecutor \<Rightarrow> (sysdb \<Rightarrow> sysdb) list \<Rightarrow> ('u, 'x) Workflow \<Rightarrow> InternalWorkflowParams \<Rightarrow> WorkflowStatusInternal \<Rightarrow>
     wctx \<Rightarrow> jsval list \<Rightarrow> (('u, 'x) dbos, jsval) meth" where
  "runWorkflow dx others wfl params st ctx args =
     bindE (finallyE
       (catchE
         (bindE (wf_call wfl ctx args) (\<lambda>result.
          seqE (dequeue_if_queued dx st)
          (seqE (on_sys (bufferWorkflowOutput (workflowUUID ctx) (st\<lparr>wsi_output := result, wsi_status := SUCCESS\<rparr>)))
                (retE result))))
         (on_workflow_error dx others st (workflowUUID ctx)))
       (whenE (is_single_txn params) (on_sys (bufferWorkflowInputs (workflowUUID ctx) args)))) (\<lambda>result.
     seqE (modifyE (\<lambda>s. if resultBuffer s = [] then s
             else s\<lparr>workflowResultBuffer := jm_set (workflowUUID ctx) (resultBuffer s) (workflowResultBuffer s)\<rparr>))
          (retE result))"

definition in_new_context :: "(('u, 'x) dbos, 'a) meth \<Rightarrow> ('u, 'x) dbos \<Rightarrow> (jserror + 'a) \<times> ('u, 'x) dbos" where
  "in_new_context m = (\<lambda>s. case m (fresh_ctx s) of (r, s') \<Rightarrow> (r, restore_ctx s s'))"

definition internalWorkflow ::
    "('u, 'x) DBOSExecutor \<Rightarrow> (sysdb \<Rightarrow> sysdb) list \<Rightarrow> ('u, 'x) Workflow \<Rightarrow> InternalWorkflowParams \<Rightarrow> (uuid \<times> nat) option \<Rightarrow>
     jsval list \<Rightarrow> (('u, 'x) dbos, WorkflowHandle) meth" where
  "internalWorkflow dx others wfl params caller args =
     bindE (case or_undefined (p_workflowUUID params) of
              Some u \<Rightarrow> retE (u, True)
            | None \<Rightarrow> bindE (getsE uuidCount) (\<lambda>n. seqE (modifyE (\<lambda>s. s\<lparr>uuidCount := Suc n\<rparr>)) (retE (generateUUID dx n, False)))) (\<lambda>(u, preset).
     case getWorkflowInfo (dx_registry dx) wfl of
       None \<Rightarrow> raiseE (DBOSNotRegisteredError (wf_name wfl))
     | Some info \<Rightarrow>
         bindE nowE (\<lambda>t.
         let st = internalStatus dx wfl info params u t; ctx = \<lparr>workflowUUID = u, presetUUID = preset\<rparr> in
         bindE (if \<not> is_single_txn params \<or> p_queueName params \<noteq> None
                then on_sys (initWorkflowStatus (dx_runtime dx) st args) else retE args) (\<lambda>args'.
         if p_queueName params = None \<or> p_executeWorkflow params then
           (\<lambda>s. case in_new_context (runWorkflow dx others wfl params st ctx args') s of
              (r, s') \<Rightarrow> (Inr (InvokedHandle u (wf_name wfl) r caller), s'))
         else
           bindE (getQueueByName dx (or_empty (p_queueName params))) (\<lambda>q.
           seqE (on_sys (enqueueWorkflow u q)) (retE (RetrievedHandle u caller))))))"

definition workflow ::
    "('u, 'x) DBOSExecutor \<Rightarrow> (sysdb \<Rightarrow> sysdb) list \<Rightarrow> ('u, 'x) Workflow \<Rightarrow> InternalWorkflowParams \<Rightarrow> jsval list \<Rightarrow>
     (('u, 'x) dbos, WorkflowHandle) meth" where
  "workflow dx others wfl params args = internalWorkflow dx others wfl params None args"

text \<open>
  The same with the state written out, for evaluation: the start under a given identifier.
\<close>

definition start_as ::
    "('u, 'x) DBOSExecutor \<Rightarrow> (sysdb \<Rightarrow> sysdb) list \<Rightarrow> ('u, 'x) Workflow \<Rightarrow> InternalWorkflowParams \<Rightarrow> (uuid \<times> nat) option \<Rightarrow>
     jsval list \<Rightarrow> uuid \<Rightarrow> bool \<Rightarrow> (('u, 'x) dbos, WorkflowHandle) meth" where
  "start_as dx others wfl params caller args u preset s =
     (case getWorkflowInfo (dx_registry dx) wfl of
       None \<Rightarrow> (Inl (DBOSNotRegisteredError (wf_name wfl)), s)
     | Some info \<Rightarrow>
         (case (if \<not> is_single_txn params \<or> p_queueName params \<noteq> None
                then on_sys (initWorkflowStatus (dx_runtime dx) (internalStatus dx wfl info params u (now (systemDatabase s))) args) s
                else (Inr args, s)) of
            (Inl e, s1) \<Rightarrow> (Inl e, s1)
          | (Inr args', s1) \<Rightarrow>
              if p_queueName params = None \<or> p_executeWorkflow params then
                (case in_new_context (runWorkflow dx others wfl params (internalStatus dx wfl info params u (now (systemDatabase s)))
                    \<lparr>workflowUUID = u, presetUUID = preset\<rparr> args') s1 of
                   (r, s2) \<Rightarrow> (Inr (InvokedHandle u (wf_name wfl) r caller), s2))
              else bindE (getQueueByName dx (or_empty (p_queueName params))) (\<lambda>q.
                   seqE (on_sys (enqueueWorkflow u q)) (retE (RetrievedHandle u caller))) s1))"

lemma internalWorkflow_start [code]:
  "internalWorkflow dx others wfl params caller args s =
     (case or_undefined (p_workflowUUID params) of
        Some u \<Rightarrow> start_as dx others wfl params caller args u True s
      | None \<Rightarrow> start_as dx others wfl params caller args (generateUUID dx (uuidCount s)) False (s\<lparr>uuidCount := Suc (uuidCount s)\<rparr>))"
proof -
  have start: "(case getWorkflowInfo (dx_registry dx) wfl of
       None \<Rightarrow> raiseE (DBOSNotRegisteredError (wf_name wfl))
     | Some info \<Rightarrow>
         bindE nowE (\<lambda>t.
         let st = internalStatus dx wfl info params u t; ctx = \<lparr>workflowUUID = u, presetUUID = preset\<rparr> in
         bindE (if \<not> is_single_txn params \<or> p_queueName params \<noteq> None
                then on_sys (initWorkflowStatus (dx_runtime dx) st args) else retE args) (\<lambda>args'.
         if p_queueName params = None \<or> p_executeWorkflow params then
           (\<lambda>s. case in_new_context (runWorkflow dx others wfl params st ctx args') s of
              (r, s') \<Rightarrow> (Inr (InvokedHandle u (wf_name wfl) r caller), s'))
         else
           bindE (getQueueByName dx (or_empty (p_queueName params))) (\<lambda>q.
           seqE (on_sys (enqueueWorkflow u q)) (retE (RetrievedHandle u caller)))))) s = start_as dx others wfl params caller args u preset s" for u preset s
    by (cases "getWorkflowInfo (dx_registry dx) wfl"; cases "p_queueName params = None \<or> p_executeWorkflow params")
      (auto simp: start_as_def nowE_def raiseE_def Let_def bindE_def [of "on_sys _"] retE_def bindE_def [of "\<lambda>s. (Inr _, s)"] split: prod.split sum.split)
  show ?thesis
    by (cases "or_undefined (p_workflowUUID params)")
      (simp_all add: internalWorkflow_def start bindE_assoc seqE_def modifyE_def bindE_step)
qed

lemma workflow_start [code]: "workflow dx others wfl params args s = internalWorkflow dx others wfl params None args s"
  by (simp add: workflow_def)

text \<open>Child workflows: \<open>startChildWorkflow\<close> and \<open>proxyInvokeWF\<close> of the workflow context.\<close>

definition startChildWorkflow ::
    "('u, 'x) DBOSExecutor \<Rightarrow> (sysdb \<Rightarrow> sysdb) list \<Rightarrow> wctx \<Rightarrow> parentCtx \<Rightarrow> ('u, 'x) Workflow \<Rightarrow> jsval list \<Rightarrow>
     (('u, 'x) dbos, WorkflowHandle) meth" where
  "startChildWorkflow dx others ctx parent wfl args =
     bindE functionIDGetIncrement (\<lambda>funcId.
     internalWorkflow dx others wfl (plain_params\<lparr>p_workflowUUID := Some (child_uuid (workflowUUID ctx) funcId), p_parentCtx := parent\<rparr>)
       (Some (workflowUUID ctx, funcId)) args)"

definition invokeChildWorkflow ::
    "('u, 'x) DBOSExecutor \<Rightarrow> (sysdb \<Rightarrow> sysdb) list \<Rightarrow> wctx \<Rightarrow> parentCtx \<Rightarrow> ('u, 'x) Workflow \<Rightarrow> jsval list \<Rightarrow>
     (('u, 'x) dbos, jsval) meth" where
  "invokeChildWorkflow dx others ctx parent wfl args =
     bindE (startChildWorkflow dx others ctx parent wfl args) (\<lambda>h. on_sys (handle_getResult (dx_runtime dx) others h))"

definition proxyInvokeWF ::
    "('u, 'x) DBOSExecutor \<Rightarrow> (sysdb \<Rightarrow> sysdb) list \<Rightarrow> wctx \<Rightarrow> parentCtx \<Rightarrow> ('u, 'x) Workflow \<Rightarrow> uuid option \<Rightarrow> string option \<Rightarrow>
     WorkflowQueue option \<Rightarrow> jsval list \<Rightarrow> (('u, 'x) dbos, WorkflowHandle) meth" where
  "proxyInvokeWF dx others ctx parent wfl givenUUID inst queue args =
     bindE functionIDGetIncrement (\<lambda>funcId.
     let childUUID = (case or_undefined givenUUID of Some u \<Rightarrow> u | None \<Rightarrow> child_uuid (workflowUUID ctx) funcId) in
     internalWorkflow dx others wfl (plain_params\<lparr>p_workflowUUID := Some childUUID, p_parentCtx := parent,
         p_configuredInstance := inst, p_queueName := map_option q_name queue\<rparr>)
       (Some (workflowUUID ctx, funcId)) args)"

section \<open>Temporary workflows\<close>

definition temp_workflow :: "(wctx \<Rightarrow> jsval list \<Rightarrow> (('u, 'x) dbos, jsval) meth) \<Rightarrow> ('u, 'x) Workflow" where
  "temp_workflow f = \<lparr>wf_name = tempWorkflowName, wf_className = [], wf_call = f\<rparr>"

definition await_result ::
    "('u, 'x) DBOSExecutor \<Rightarrow> (sysdb \<Rightarrow> sysdb) list \<Rightarrow> (('u, 'x) dbos, WorkflowHandle) meth \<Rightarrow> (('u, 'x) dbos, jsval) meth" where
  "await_result dx others m = bindE m (\<lambda>h. on_sys (handle_getResult (dx_runtime dx) others h))"

definition exec_transaction ::
    "('u, 'x) DBOSExecutor \<Rightarrow> (sysdb \<Rightarrow> sysdb) list \<Rightarrow> string \<Rightarrow> string \<Rightarrow> InternalWorkflowParams \<Rightarrow> jsval list \<Rightarrow>
     (('u, 'x) dbos, jsval) meth" where
  "exec_transaction dx others cls nm params args =
     await_result dx others (workflow dx others
       (temp_workflow (\<lambda>ctx. transaction (exec_of dx) ctx (dx_fuel dx) (full_name cls nm)))
       (params\<lparr>p_tempWfType := ''transaction'', p_tempWfName := nm, p_tempWfClass := cls\<rparr>) args)"

definition exec_procedure ::
    "('u, 'x) DBOSExecutor \<Rightarrow> (sysdb \<Rightarrow> sysdb) list \<Rightarrow> string \<Rightarrow> string \<Rightarrow> InternalWorkflowParams \<Rightarrow> jsval list \<Rightarrow>
     (('u, 'x) dbos, jsval) meth" where
  "exec_procedure dx others cls nm params args =
     await_result dx others (workflow dx others
       (temp_workflow (\<lambda>ctx. procedure (exec_of dx) ctx (dx_fuel dx) (full_name cls nm)))
       (params\<lparr>p_tempWfType := ''procedure'', p_tempWfName := nm, p_tempWfClass := cls\<rparr>) args)"

definition exec_external ::
    "('u, 'x) DBOSExecutor \<Rightarrow> (sysdb \<Rightarrow> sysdb) list \<Rightarrow> string \<Rightarrow> string \<Rightarrow> InternalWorkflowParams \<Rightarrow> jsval list \<Rightarrow>
     (('u, 'x) dbos, jsval) meth" where
  "exec_external dx others cls nm params args =
     await_result dx others (workflow dx others
       (temp_workflow (\<lambda>ctx. external (exec_of dx) ctx (full_name cls nm)))
       (params\<lparr>p_tempWfType := ''external'', p_tempWfName := nm, p_tempWfClass := cls\<rparr>) args)"

definition str_of :: "jsval \<Rightarrow> string" where
  "str_of v = (case v of JStr s \<Rightarrow> s | _ \<Rightarrow> [])"

definition opt_str_of :: "jsval \<Rightarrow> string option" where
  "opt_str_of v = (case v of JStr s \<Rightarrow> Some s | _ \<Rightarrow> None)"

definition arg :: "jsval list \<Rightarrow> nat \<Rightarrow> jsval" where
  "arg args i = (if i < length args then args ! i else JUndefined)"

text \<open>The topic of a message is recorded as \<open>null\<close> when there is none; both mean no topic.\<close>

definition send_workflow :: "('u, 'x) DBOSExecutor \<Rightarrow> ('u, 'x) Workflow" where
  "send_workflow dx = temp_workflow (\<lambda>ctx args.
     seqE (ctx_send (exec_of dx) ctx (str_of (arg args 0)) (arg args 1) (opt_str_of (arg args 2))) (retE JUndefined))"

definition exec_send ::
    "('u, 'x) DBOSExecutor \<Rightarrow> (sysdb \<Rightarrow> sysdb) list \<Rightarrow> uuid \<Rightarrow> jsval \<Rightarrow> string option \<Rightarrow> string option \<Rightarrow> (('u, 'x) dbos, jsval) meth" where
  "exec_send dx others dest message topic idempotencyKey =
     await_result dx others (workflow dx others (send_workflow dx)
       (plain_params\<lparr>p_workflowUUID := map_option (\<lambda>k. dest @ k) (or_undefined idempotencyKey), p_tempWfType := ''send''\<rparr>)
       [JStr dest, message, case topic of None \<Rightarrow> JUndefined | Some t \<Rightarrow> JStr t])"

section \<open>Recovery\<close>

definition nth_str :: "string list \<Rightarrow> nat \<Rightarrow> string option" where
  "nth_str xs i = (if i < length xs then Some (xs ! i) else None)"

definition roles_of :: "jsval \<Rightarrow> string list" where
  "roles_of v = map str_of (arr_of v)"

definition getRecoveryContext :: "WorkflowStatus \<Rightarrow> parentCtx" where
  "getRecoveryContext st = \<lparr>pc_request = wst_request st, pc_authenticatedUser = wst_authenticatedUser st,
     pc_authenticatedRoles = roles_of (wst_authenticatedRoles st), pc_assumedRole = wst_assumedRole st\<rparr>"

text \<open>The class in a registered \<open>Class.function\<close>.\<close>

definition class_of :: "string \<Rightarrow> string \<Rightarrow> string" where
  "class_of key nm = take (length key - Suc (length nm)) key"

text \<open>The temporary workflow a recorded name stands for: its type, the name and class of the operation, the function.\<close>

definition temp_by_name ::
    "('u, 'x) DBOSExecutor \<Rightarrow> uuid \<Rightarrow> WorkflowStatus \<Rightarrow> jserror + (string \<times> string \<times> string \<times> ('u, 'x) Workflow)" where
  "temp_by_name dx u st =
     (let nm = wst_workflowName st; parts = split_on (CHR ''-'') nm;
          op = (case nth_str parts 2 of None \<Rightarrow> ''undefined'' | Some x \<Rightarrow> x) in
      if take (length tempWorkflowName) (hd parts) \<noteq> tempWorkflowName
      then Inl (DBOSError (''This should never happen! Cannot find workflow info for a non-temporary workflow! UUID '' @ u @ '', name '' @ nm) 1)
      else if nth_str parts 1 = Some ''transaction'' then
        bindR (getTransactionInfoByNames (dx_registry dx) (wst_workflowClassName st) op) (\<lambda>i. case i of
          None \<Rightarrow> Inl (DBOSNotRegisteredError op)
        | Some (key, info) \<Rightarrow> Inr (''transaction'', ti_name info, class_of key (ti_name info),
            temp_workflow (\<lambda>ctx. transaction (exec_of dx) ctx (dx_fuel dx) key)))
      else if nth_str parts 1 = Some ''external'' then
        bindR (getStepInfoByNames (dx_registry dx) (wst_workflowClassName st) op) (\<lambda>i. case i of
          None \<Rightarrow> Inl (DBOSNotRegisteredError op)
        | Some (key, info) \<Rightarrow> Inr (''external'', si_name info, class_of key (si_name info),
            temp_workflow (\<lambda>ctx. external (exec_of dx) ctx key)))
      else if nth_str parts 1 = Some ''send'' then Inr (''send'', [], [], send_workflow dx)
      else Inl (DBOSNotRegisteredError nm))"

definition executeWorkflowUUID ::
    "('u, 'x) DBOSExecutor \<Rightarrow> (sysdb \<Rightarrow> sysdb) list \<Rightarrow> uuid \<Rightarrow> bool \<Rightarrow> (('u, 'x) dbos, WorkflowHandle) meth" where
  "executeWorkflowUUID dx others u startNewWorkflow =
     bindE (on_sys (readWorkflowStatus (dx_runtime dx) u)) (\<lambda>wfStatus.
     bindE (on_sys (getWorkflowInputs (dx_runtime dx) u)) (\<lambda>inputs.
     case (inputs, wfStatus) of
       (Some args, Some st) \<Rightarrow>
         bindE (liftE (getWorkflowInfoByStatus (dx_registry dx) st)) (\<lambda>wfInfo.
         let startUUID = (if startNewWorkflow then None else Some u) in
         case wfInfo of
           Some info \<Rightarrow>
             workflow dx others (wi_workflow info)
               (plain_params\<lparr>p_workflowUUID := startUUID, p_parentCtx := getRecoveryContext st,
                  p_configuredInstance := Some (wst_workflowConfigName st), p_recovery := True,
                  p_queueName := wst_queueName st, p_executeWorkflow := True\<rparr>) args
         | None \<Rightarrow>
             bindE (liftE (temp_by_name dx u st)) (\<lambda>(ty, nm, cls, wfl).
             workflow dx others wfl
               (plain_params\<lparr>p_workflowUUID := startUUID, p_parentCtx := getRecoveryContext st,
                  p_configuredInstance := Some (wst_workflowConfigName st), p_recovery := True,
                  p_tempWfType := ty, p_tempWfName := nm, p_tempWfClass := cls\<rparr>) args))
     | _ \<Rightarrow> raiseE (DBOSError (''Failed to find inputs for workflow UUID: '' @ u) 1)))"

text \<open>A failed recovery is logged, and the next workflow is tried.\<close>

fun recover_all ::
    "('u, 'x) DBOSExecutor \<Rightarrow> (sysdb \<Rightarrow> sysdb) list \<Rightarrow> uuid list \<Rightarrow> (('u, 'x) dbos, WorkflowHandle list) meth" where
  "recover_all dx others [] = retE []"
| "recover_all dx others (u # us) =
     bindE (catchE (bindE (executeWorkflowUUID dx others u False) (\<lambda>h. retE [h])) (\<lambda>e. retE [])) (\<lambda>h.
     bindE (recover_all dx others us) (\<lambda>hs. retE (h @ hs)))"

definition recoverPendingWorkflows ::
    "('u, 'x) DBOSExecutor \<Rightarrow> (sysdb \<Rightarrow> sysdb) list \<Rightarrow> string list \<Rightarrow> (('u, 'x) dbos, WorkflowHandle list) meth" where
  "recoverPendingWorkflows dx others executorIDs =
     bindE (mapE (\<lambda>eid. if eid = ''local'' \<and> or_undefined (dx_vmid dx) \<noteq> None then retE []
              else on_sys (getPendingWorkflows eid)) executorIDs) (\<lambda>wIDs.
     recover_all dx others (concat wIDs))"

section \<open>Dispatch of queued workflows\<close>

text \<open>The body of \<open>dispatchLoop\<close>: an error of a workflow's start ends the loop.\<close>

definition check_queue ::
    "('u, 'x) DBOSExecutor \<Rightarrow> (sysdb \<Rightarrow> sysdb) list \<Rightarrow> WorkflowQueue \<Rightarrow> (('u, 'x) dbos, WorkflowHandle list) meth" where
  "check_queue dx others q =
     bindE (on_sys (findAndMarkStartableWorkflows q)) (\<lambda>wfids.
     mapE (\<lambda>u. executeWorkflowUUID dx others u False) wfids)"

fun dispatchLoop ::
    "('u, 'x) DBOSExecutor \<Rightarrow> (sysdb \<Rightarrow> sysdb) list \<Rightarrow> nat \<Rightarrow> (('u, 'x) dbos, unit) meth" where
  "dispatchLoop dx others 0 = retE ()"
| "dispatchLoop dx others (Suc turns) =
     seqE (on_sys (modifyE (sleep_clock 1000)))
     (seqE (mapE (\<lambda>(_, q). check_queue dx others q) (dx_queues dx)) (dispatchLoop dx others turns))"

section \<open>The buffer of transaction outputs\<close>

definition result_rows ::
    "(uuid \<times> (nat, BufferedResult) jmap) list \<Rightarrow> jserror + ((uuid \<times> nat) \<times> transaction_outputs_row) list" where
  "result_rows batch = bindR (traverse (\<lambda>(u, buf). bindR (buffer_rows buf) (\<lambda>rows. Inr (map (\<lambda>(f, r). ((u, f), r)) rows))) batch)
     (\<lambda>xs. Inr (concat xs))"

definition insert_results ::
    "(string \<Rightarrow> jserror) \<Rightarrow> ((uuid \<times> nat) \<times> transaction_outputs_row) list \<Rightarrow> ('u userdb, unit) meth" where
  "insert_results sqlError rows = (\<lambda>db.
     if rows = [] then (Inl (sqlError ''42601''), db)
     else if list_ex (\<lambda>(k, _). transaction_outputs db k \<noteq> None) rows then (Inl (sqlError ''23505''), db)
     else (Inr (), db\<lparr>transaction_outputs := foldl (\<lambda>m (k, r). m(k \<mapsto> r)) (transaction_outputs db) rows\<rparr>))"

text \<open>\<open>arrivals\<close>: the outputs other workflows buffer at each suspension; \<open>flts\<close>: the errors of the connection.\<close>

function flushResultBatches ::
    "(string \<Rightarrow> jserror) \<Rightarrow> (jserror option \<times> (uuid \<times> (nat, BufferedResult) jmap) list) list \<Rightarrow> nat \<Rightarrow> nat \<Rightarrow>
     ((uuid, (nat, BufferedResult) jmap) jmap \<times> ('u, 'x) dbos, unit) meth" where
  "flushResultBatches sqlError evs finishedCnt totalSize (localBuffer, s) =
     (if finishedCnt < totalSize then
        let batch = take 50 localBuffer;
            (flt, arrivals) = (case evs of [] \<Rightarrow> (None, []) | e # _ \<Rightarrow> e);
            arrived = (\<lambda>s. s\<lparr>workflowResultBuffer := put_all arrivals (workflowResultBuffer s)\<rparr>) in
        if batch = [] then (Inl (sqlError ''42601''), (localBuffer, s))
        else case result_rows batch of
          Inl e \<Rightarrow> (Inl e, (localBuffer, s))
        | Inr rows \<Rightarrow>
            (case flt of
               Some e \<Rightarrow> (Inl e, (localBuffer, arrived s))
             | None \<Rightarrow>
                (case on_user (insert_results sqlError rows) s of
                   (Inl e, s') \<Rightarrow> (Inl e, (localBuffer, arrived s'))
                 | (Inr _, s') \<Rightarrow> flushResultBatches sqlError (tl evs) (finishedCnt + length batch) totalSize
                     (jm_del_all (map fst batch) localBuffer, arrived s')))
      else (Inr (), (localBuffer, s)))"
  by pat_completeness auto

termination
proof (relation "measure (\<lambda>(_, _, _, _, localBuffer, _). length localBuffer)", goal_cases)
  case (2 sqlError evs finishedCnt totalSize localBuffer s batch)
  then have "batch \<noteq> []" "set batch \<subseteq> set localBuffer" by (auto dest: in_set_takeD)
  with 2 show ?case by (simp add: jm_del_all_shorter)
qed simp

declare flushResultBatches.simps [simp del]

definition flushWorkflowResultBuffer ::
    "('u, 'x) DBOSExecutor \<Rightarrow> (jserror option \<times> (uuid \<times> (nat, BufferedResult) jmap) list) list \<Rightarrow> (('u, 'x) dbos, unit) meth" where
  "flushWorkflowResultBuffer dx evs = (\<lambda>s.
     case flushResultBatches (dx_sqlError dx) evs 0 (length (workflowResultBuffer s))
            (workflowResultBuffer s, s\<lparr>workflowResultBuffer := []\<rparr>) of
       (Inr _, (_, s')) \<Rightarrow> (Inr (), s')
     | (Inl e, (l, s')) \<Rightarrow> (Inr (), s'\<lparr>workflowResultBuffer := jm_restore l (workflowResultBuffer s')\<rparr>))"

definition flushWorkflowBuffers ::
    "('u, 'x) DBOSExecutor \<Rightarrow> bool \<Rightarrow> (jserror option \<times> (uuid \<times> (nat, BufferedResult) jmap) list) list \<Rightarrow> io list \<Rightarrow> io list \<Rightarrow>
     (('u, 'x) dbos, unit) meth" where
  "flushWorkflowBuffers dx initialized evs evs1 evs2 =
     whenE initialized (seqE (flushWorkflowResultBuffer dx evs) (on_sys (flushWorkflowSystemBuffers evs1 evs2)))"

end
