(* ===== verification/Replay.thy ===== *)
theory Replay
  imports Steps
begin

text \<open>
  Crash and recovery of a workflow. A workflow is a program over the operations of its context:
  it ends with a result, or calls an operation and goes on with its outcome. A crash after any number
  of operations loses the context (the counter and the buffer) and keeps the databases and the outside
  world; recovery runs the program from its start.

  The main lemma: the recovered run repeats the operations that were done, gets the same
  outcomes, changes nothing, and then is where the crashed run was.
\<close>

datatype wfop =
    OpTransaction string "jsval list"
  | OpStep string "jsval list"
  | OpSend uuid jsval "string option"
  | OpSetEvent string jsval
  | OpSleep int
  | OpRecv "string option" int
  | OpGetEvent uuid string int

datatype wfprog = Finish "jserror + jsval" | Call wfop "jserror + jsval \<Rightarrow> wfprog"

definition void :: "('s, unit) meth \<Rightarrow> ('s, jsval) meth" where
  "void m = seqE m (retE JUndefined)"

text \<open>\<open>wk\<close> says how the wait of the operation with a given number ends.\<close>

fun exec_op :: "('u, 'x) dbosExec \<Rightarrow> wctx \<Rightarrow> nat \<Rightarrow> (nat \<Rightarrow> wake) \<Rightarrow> wfop \<Rightarrow> (('u, 'x) dbos, jsval) meth" where
  "exec_op ex ctx fuel wk (OpTransaction nm args) = transaction ex ctx fuel nm args"
| "exec_op ex ctx fuel wk (OpStep nm args) = external ex ctx nm args"
| "exec_op ex ctx fuel wk (OpSend dest m topic) = void (ctx_send ex ctx dest m topic)"
| "exec_op ex ctx fuel wk (OpSetEvent k v) = void (ctx_setEvent ex ctx k v)"
| "exec_op ex ctx fuel wk (OpSleep d) = void (ctx_sleepms ex ctx d)"
| "exec_op ex ctx fuel wk (OpRecv topic t) = (\<lambda>s. ctx_recv ex ctx (wk (functionID s)) topic t s)"
| "exec_op ex ctx fuel wk (OpGetEvent u k t) = (\<lambda>s. ctx_getEvent ex ctx (wk (functionID s)) u k t s)"

primrec run_prog :: "('u, 'x) dbosExec \<Rightarrow> wctx \<Rightarrow> nat \<Rightarrow> (nat \<Rightarrow> wake) \<Rightarrow> wfprog \<Rightarrow> (('u, 'x) dbos, jsval) meth" where
  "run_prog ex ctx fuel wk (Finish r) = liftE r"
| "run_prog ex ctx fuel wk (Call c k) = (\<lambda>s. case exec_op ex ctx fuel wk c s of (r, s') \<Rightarrow> run_prog ex ctx fuel wk (k r) s')"

text \<open>The first operations of a run: what is left of the program, the outcomes, the state.\<close>

fun run_ops :: "('u, 'x) dbosExec \<Rightarrow> wctx \<Rightarrow> nat \<Rightarrow> (nat \<Rightarrow> wake) \<Rightarrow> nat \<Rightarrow> wfprog \<Rightarrow> ('u, 'x) dbos \<Rightarrow>
    wfprog \<times> (wfop \<times> (jserror + jsval)) list \<times> ('u, 'x) dbos" where
  "run_ops ex ctx fuel wk 0 p s = (p, [], s)"
| "run_ops ex ctx fuel wk (Suc n) (Finish r) s = (Finish r, [], s)"
| "run_ops ex ctx fuel wk (Suc n) (Call c k) s =
     (case exec_op ex ctx fuel wk c s of (r, s') \<Rightarrow>
        (case run_ops ex ctx fuel wk n (k r) s' of (p, tr, t) \<Rightarrow> (p, (c, r) # tr, t)))"

definition crash :: "('u, 'x) dbos \<Rightarrow> ('u, 'x) dbos" where
  "crash s = s\<lparr>functionID := 0, resultBuffer := []\<rparr>"

lemma run_ops_then_rest:
  "run_ops ex ctx fuel wk n p s = (p', tr, t) \<Longrightarrow> run_prog ex ctx fuel wk p s = run_prog ex ctx fuel wk p' t"
  by (induction n p s arbitrary: p' tr t rule: run_ops.induct[of _ ex ctx fuel wk]) (auto split: prod.splits)

section \<open>What the databases know of an operation\<close>

definition op_rows :: "('u, 'x) dbos \<Rightarrow> uuid \<times> nat \<rightharpoonup> operation_outputs_row" where
  "op_rows s = operation_outputs (systemDatabase s)"

definition knows_txn :: "runtime \<Rightarrow> uuid \<Rightarrow> ('u, 'x) dbos \<Rightarrow> nat \<Rightarrow> jserror + jsval \<Rightarrow> bool" where
  "knows_txn rt u s fid r \<longleftrightarrow>
     (\<exists>row. txn_log s (u, fid) = Some row \<and> decode_txn rt row = r) \<or>
     (\<exists>b. jm_get (resultBuffer s) fid = Some b \<and> canon_val rt (buffered_output b) = r)"

definition knows_row :: "runtime \<Rightarrow> uuid \<Rightarrow> ('u, 'x) dbos \<Rightarrow> nat \<Rightarrow> jserror + jsval \<Rightarrow> bool" where
  "knows_row rt u s fid r \<longleftrightarrow> (\<exists>row. op_rows s (u, fid) = Some row \<and> parse rt (oo_output row) = r)"

fun knows :: "runtime \<Rightarrow> uuid \<Rightarrow> ('u, 'x) dbos \<Rightarrow> nat \<Rightarrow> wfop \<Rightarrow> jserror + jsval \<Rightarrow> bool" where
  "knows rt u s fid (OpTransaction _ _) r = knows_txn rt u s fid r"
| "knows rt u s fid (OpStep _ _) r = (recorded_op rt (systemDatabase s) (u, fid) = Some r)"
| "knows rt u s fid (OpSend _ _ _) r = (r = Inr JUndefined \<and> op_rows s (u, fid) \<noteq> None)"
| "knows rt u s fid (OpSetEvent _ _) r = (r = Inr JUndefined \<and> op_rows s (u, fid) \<noteq> None)"
| "knows rt u s fid (OpSleep d) r = (r = Inr JUndefined \<and> (0 < d \<longrightarrow> (\<exists>v. knows_row rt u s fid (Inr v))))"
| "knows rt u s fid (OpRecv _ _) r = knows_row rt u s fid r"
| "knows rt u s fid (OpGetEvent _ _ _) r = knows_row rt u s fid r"

fun width :: "wfop \<Rightarrow> nat" where
  "width (OpSleep d) = (if d \<le> 0 then 0 else 1)"
| "width (OpRecv _ _) = 2"
| "width (OpGetEvent _ _ _) = 2"
| "width _ = 1"

text \<open>Outcomes that survive storage: values that read back as they were, and errors of steps.\<close>

fun is_step :: "wfop \<Rightarrow> bool" where
  "is_step (OpStep _ _) = True"
| "is_step _ = False"

fun is_void :: "wfop \<Rightarrow> bool" where
  "is_void (OpSend _ _ _) = True"
| "is_void (OpSetEvent _ _) = True"
| "is_void (OpSleep _) = True"
| "is_void _ = False"

text \<open>The errors with which recording itself fails.\<close>

definition storage_error :: "('u, 'x) dbosExec \<Rightarrow> jserror \<Rightarrow> bool" where
  "storage_error ex e \<longleftrightarrow> e = runtime_error ''RangeError'' ''Invalid time value'' \<or> (\<exists>u. e = DBOSWorkflowConflictUUIDError u) \<or>
     e = foreign_key_violation \<or> (\<exists>c. e = ex_sqlError ex c)"

fun registered :: "('u, 'x) dbosExec \<Rightarrow> wfop \<Rightarrow> bool" where
  "registered ex (OpTransaction nm _) \<longleftrightarrow> transactionInfoMap ex nm \<noteq> None"
| "registered ex (OpStep nm _) \<longleftrightarrow> stepInfoMap ex nm \<noteq> None"
| "registered ex _ \<longleftrightarrow> True"

definition stable :: "('u, 'x) dbosExec \<Rightarrow> wfop \<times> (jserror + jsval) \<Rightarrow> bool" where
  "stable ex cr = (case cr of (c, r) \<Rightarrow> registered ex c \<and> (case r of
     Inr v \<Rightarrow> is_void c \<or> canon_val (ex_runtime ex) v = Inr v
   | Inl e \<Rightarrow> is_step c \<and> canon_err (ex_runtime ex) e = Inl e \<and> \<not> storage_error ex e))"

section \<open>Records are kept\<close>

definition advance :: "uuid \<Rightarrow> ('u, 'x) dbos \<Rightarrow> ('u, 'x) dbos \<Rightarrow> bool" where
  "advance u s t \<longleftrightarrow>
     (\<forall>k row. txn_log s k = Some row \<longrightarrow> txn_log t k = Some row) \<and>
     (\<forall>k row. op_rows s k = Some row \<longrightarrow> op_rows t k = Some row) \<and>
     (\<forall>f b. jm_get (resultBuffer s) f = Some b \<longrightarrow> jm_get (resultBuffer t) f = Some b \<or>
        (\<exists>row. txn_log t (u, f) = Some row \<and> to_error row = Some Null \<and> stringify (buffered_output b) = Inr (to_output row)))"

lemma advance_refl: "advance u s s"
  by (simp add: advance_def)

lemma advance_trans: "advance u s t \<Longrightarrow> advance u t w \<Longrightarrow> advance u s w"
proof -
  assume st: "advance u s t" and tw: "advance u t w"
  have "jm_get (resultBuffer w) f = Some b \<or>
      (\<exists>row. txn_log w (u, f) = Some row \<and> to_error row = Some Null \<and> stringify (buffered_output b) = Inr (to_output row))"
    if "jm_get (resultBuffer s) f = Some b" for f b
    using st tw that unfolding advance_def by blast
  then show ?thesis using st tw by (simp add: advance_def)
qed

lemma parse_null_column [simp]: "parse rt (Some Null) = Inr JNull" "parse rt None = Inr JNull"
  by (simp_all add: parse_def DBOSReviver_def isSerializedBuffer_def isSerializedDate_def isSerializedBigInt_def)

lemma knows_advance:
  assumes "knows rt u s fid c r" "advance u s t"
  shows "knows rt u t fid c r"
proof -
  have "knows_txn rt u t fid r" if "knows_txn rt u s fid r"
    using that assms(2) unfolding knows_txn_def advance_def canon_val_def decode_txn_def by fastforce
  moreover have "knows_row rt u t fid r'" if "knows_row rt u s fid r'" for r'
    using that assms(2) unfolding knows_row_def advance_def by blast
  moreover have "recorded_op rt (systemDatabase t) (u, fid) = Some r" if "recorded_op rt (systemDatabase s) (u, fid) = Some r"
    using that assms(2) by (auto simp: recorded_op_def advance_def op_rows_def)
  moreover have "op_rows t (u, fid) \<noteq> None" if "op_rows s (u, fid) \<noteq> None"
    using that assms(2) by (auto simp: advance_def)
  ultimately show ?thesis using assms(1) by (cases c) auto
qed

section \<open>One operation\<close>

definition ready :: "('u, 'x) dbos \<Rightarrow> bool" where
  "ready s \<longleftrightarrow> faults s = [] \<and> distinct (map fst (resultBuffer s)) \<and> (\<forall>f \<in> fst ` set (resultBuffer s). f < functionID s)"

lemma buffer_rows_map:
  "buffer_rows buf = Inr rows \<Longrightarrow> map fst rows = map fst buf \<and>
   (distinct (map fst buf) \<longrightarrow> map_of buf f = Some b \<longrightarrow>
      (\<exists>row. map_of rows f = Some row \<and> to_error row = Some Null \<and> stringify (buffered_output b) = Inr (to_output row)))"
proof (induction buf arbitrary: rows)
  case (Cons x buf)
  obtain g c where x: "x = (g, c)" by (cases x)
  from Cons.prems obtain o' rows' where "stringify (buffered_output c) = Inr o'" "buffer_rows buf = Inr rows'"
    "rows = (g, \<lparr>to_output = o', to_error = Some Null, to_txn_id = None, to_txn_snapshot = br_txn_snapshot c, to_created_at = br_created_at c\<rparr>) # rows'"
    by (auto simp: buffer_rows_def x traverse_Cons_Inr bindR_def split: sum.splits simp del: traverse.simps(2))
  with Cons.IH show ?case by (auto simp: x)
qed (simp add: buffer_rows_def)

lemma log_rows_in: "distinct (map fst rows) \<Longrightarrow> map_of rows f = Some row \<Longrightarrow> log_rows u rows m (u, f) = Some row"
proof (induction rows arbitrary: m)
  case (Cons x rows)
  obtain g r where x: "x = (g, r)" by (cases x)
  show ?case
  proof (cases "g = f")
    case True
    then have "f \<notin> fst ` set rows" using Cons.prems(1) x by simp
    then show ?thesis using True Cons.prems(2) by (simp add: x log_rows_def fold_rows_other)
  next
    case False
    then have "map_of rows f = Some row" "distinct (map fst rows)" using Cons.prems x by auto
    then have "log_rows u rows (m((u, g) \<mapsto> r)) (u, f) = Some row" by (rule Cons.IH [rotated])
    then show ?thesis by (simp add: x log_rows_def del: fun_upd_apply)
  qed
qed simp

lemma flushResultBuffer_inv:
  assumes "flushResultBuffer ex ctx k s = (Inr x, t)"
  shows "\<exists>rows. buffer_rows (resultBuffer s) = Inr rows \<and> (\<forall>p \<in> set rows. txn_log s (workflowUUID ctx, fst p) = None) \<and>
    t = s\<lparr>userDatabase := (userDatabase s)\<lparr>transaction_outputs := log_rows (workflowUUID ctx) rows (txn_log s)\<rparr>\<rparr>"
proof (cases "resultBuffer s = []")
  case True
  with assms show ?thesis by (simp add: flushResultBuffer_def em_simps buffer_rows_def log_rows_def txn_log_def)
next
  case False
  from assms False have "catchE (bindE (liftE (buffer_rows (resultBuffer s))) (\<lambda>rows.
      on_user (run_sql (ex_sqlError ex) (insert_txn_outputs (ex_sqlError ex) (workflowUUID ctx) rows)))) (conflict_on k ctx) s = (Inr x, t)"
    by (simp add: flushResultBuffer_def)
  then have "bindE (liftE (buffer_rows (resultBuffer s))) (\<lambda>rows.
      on_user (run_sql (ex_sqlError ex) (insert_txn_outputs (ex_sqlError ex) (workflowUUID ctx) rows))) s = (Inr x, t)"
    by (rule catchE_rethrow) (auto simp: conflict_on_def)
  then obtain rows where "buffer_rows (resultBuffer s) = Inr rows"
    "on_user (run_sql (ex_sqlError ex) (insert_txn_outputs (ex_sqlError ex) (workflowUUID ctx) rows)) s = (Inr x, t)"
    by (auto simp: liftE_def elim!: bindE_InrD)
  then show ?thesis
    by (auto simp: on_user_run run_sql_run insert_txn_outputs_def log_rows_def txn_log_def list_ex_iff
        split: if_splits prod.splits)
qed

lemma log_rows_keeps:
  assumes "\<forall>p \<in> set rows. m (u, fst p) = None" "m k = Some row"
  shows "log_rows u rows m k = Some row"
proof -
  obtain v g where k: "k = (v, g)" by (cases k)
  have "v \<noteq> u \<or> g \<notin> fst ` set rows" using assms k by auto
  then show ?thesis using assms(2) by (simp add: k log_rows_def fold_rows_other)
qed

text \<open>Writing the buffer out keeps everything that is known.\<close>

lemma flushed_advance:
  assumes "buffer_rows (resultBuffer s) = Inr rows" "\<forall>p \<in> set rows. txn_log s (u, fst p) = None" "distinct (map fst (resultBuffer s))"
    and "\<And>k row. log_rows u rows (txn_log s) k = Some row \<Longrightarrow> txn_log t k = Some row" "op_rows t = op_rows s"
  shows "advance u s t"
  unfolding advance_def
proof (intro conjI allI impI disjI2)
  show "txn_log t k = Some row" if "txn_log s k = Some row" for k row
    using assms(2,4) log_rows_keeps [OF assms(2) that] by blast
  show "op_rows t k = Some row" if "op_rows s k = Some row" for k row using that assms(5) by simp
  fix f b assume b: "jm_get (resultBuffer s) f = Some b"
  from buffer_rows_map [OF assms(1), of f b] b assms(3) obtain row where
    row: "map_of rows f = Some row" "to_error row = Some Null" "stringify (buffered_output b) = Inr (to_output row)" by blast
  have "distinct (map fst rows)" using buffer_rows_map [OF assms(1)] assms(3) by simp
  from log_rows_in [OF this row(1)] assms(4) row
  show "\<exists>row. txn_log t (u, f) = Some row \<and> to_error row = Some Null \<and> stringify (buffered_output b) = Inr (to_output row)" by blast
qed

lemma flush_in_txn_inv:
  assumes "flush_in_txn ex ctx s = (Inr x, t)" "ready s"
  shows "advance (workflowUUID ctx) s t \<and> resultBuffer t = [] \<and> systemDatabase t = systemDatabase s \<and>
    outside t = outside s \<and> functionID t = functionID s \<and> faults t = [] \<and> app_of t = app_of s"
proof -
  let ?k = "isKeyConflictError (ex_kind ex)" and ?s = "s\<lparr>userDatabase := begin_txn (userDatabase s)\<rparr>"
  from assms(1) obtain y s1 where in1: "in_txn (flushResultBuffer ex ctx ?k) s = (Inr y, s1)" and t: "t = s1\<lparr>resultBuffer := []\<rparr>"
    by (auto simp: flush_in_txn_def seqE_def clear_buffer_def modifyE_def elim!: bindE_InrD)
  from in1 obtain s2 where fl: "flushResultBuffer ex ctx ?k ?s = (Inr y, s2)"
    by (auto elim: in_txn_value)
  from flushResultBuffer_inv [OF fl] obtain rows where rows: "buffer_rows (resultBuffer s) = Inr rows"
    "\<forall>p \<in> set rows. txn_log s (workflowUUID ctx, fst p) = None"
    and s2: "s2 = ?s\<lparr>userDatabase := (userDatabase ?s)\<lparr>transaction_outputs := log_rows (workflowUUID ctx) rows (txn_log s)\<rparr>\<rparr>"
    by auto
  have "next_fault (userDatabase s2) = None" "\<not> ud_aborted (userDatabase s2)"
    using assms(2) by (simp_all add: s2 begin_txn_def next_fault_def ready_def faults_def)
  with in1 fl have s1: "s1 = s2\<lparr>userDatabase := pop_fault (userDatabase s2)\<rparr>" by (simp add: in_txn_run)
  have "advance (workflowUUID ctx) s t"
    by (rule flushed_advance [OF rows])
      (use assms(2) in \<open>auto simp: t s1 s2 txn_log_def pop_fault_def op_rows_def ready_def\<close>)
  then show ?thesis using assms(2)
    by (simp add: t s1 s2 pop_fault_def begin_txn_def ready_def faults_def app_of_def)
qed

section \<open>Transactions\<close>

text \<open>The parts of the state an attempt of a transaction may not touch unless it returns.\<close>

definition same_context :: "('u, 'x) dbos \<Rightarrow> ('u, 'x) dbos \<Rightarrow> bool" where
  "same_context s t \<longleftrightarrow> txn_log t = txn_log s \<and> op_rows t = op_rows s \<and> resultBuffer t = resultBuffer s \<and>
     functionID t = functionID s \<and> faults t = faults s"

lemma same_context_trans: "same_context s t \<Longrightarrow> same_context t w \<Longrightarrow> same_context s w"
  by (simp add: same_context_def)

lemma on_user_context: "on_user m s = (r, t) \<Longrightarrow>
    op_rows t = op_rows s \<and> resultBuffer t = resultBuffer s \<and> functionID t = functionID s \<and> systemDatabase t = systemDatabase s"
  by (auto simp: on_user_run op_rows_def split: prod.splits)

definition ctx_part :: "('u, 'x) dbos \<Rightarrow> sysdb \<times> (nat, BufferedResult) jmap \<times> nat" where
  "ctx_part s = (systemDatabase s, resultBuffer s, functionID s)"

lemma keeps_ctx_user: "keeps (\<lambda>s. ctx_part s = c) (on_user m)"
  by (rule keepsI) (auto simp: ctx_part_def on_user_run split: prod.splits)

lemma keeps_ctx_misc: "keeps (\<lambda>s. ctx_part s = c) nowE" "keeps (\<lambda>s. ctx_part s = c) (set_snapshot x)"
  "keeps (\<lambda>s. ctx_part s = c) (conflict_on k ctx e)"
  by (auto simp: keeps_def nowE_def set_snapshot_def conflict_on_def em_simps ctx_part_def)

lemma wrappedTransaction_fails:
  assumes "wrappedTransaction ex ctx info fid args s = (Inl e, t)" "\<not> ud_aborted (userDatabase s)"
  shows "ctx_part t = ctx_part s"
proof -
  let ?s = "s\<lparr>txn_snapshot := pg_current_snapshot (userDatabase s)\<rparr>" and ?c = "ctx_part s"
  have fl: "keeps (\<lambda>s. ctx_part s = ?c) (flushResultBuffer ex ctx k)" for k
    unfolding flushResultBuffer_def by (intro keeps_rules keeps_ctx_user keeps_ctx_misc)
  have rec: "keeps (\<lambda>s. ctx_part s = ?c) (recordOutput ex ctx fid sn v k)" for sn v k
    unfolding recordOutput_def by (intro keeps_rules keeps_ctx_user keeps_ctx_misc)
  have body: "keeps (\<lambda>s. ctx_part s = ?c) (txn_body ex ctx info args)"
    unfolding txn_body_def by (intro keeps_rules fl keeps_ctx_user)
  have s0: "ctx_part ?s = ?c" by (simp add: ctx_part_def)
  have "ctx_part t = ?c" if "run_and_record ex ctx info fid args ?s = (Inl e, t)"
    using that unfolding run_and_record_def
  proof (cases rule: bindE_InlD)
    case first
    then show ?thesis using keeps_result [OF body s0] by blast
  next
    case (second v s1)
    have "ctx_part s1 = ?c" using keeps_result [OF body s0 second(1)] .
    moreover have "\<not> is_readOnly (ti_config info)"
      using second(2) by (auto simp: buffer_result_def nowE_def em_simps split: if_splits)
    ultimately have c1: "ctx_part s1 = ?c" and "record_result ex ctx info fid v s1 = (Inl e, t)" using second(2) by auto
    from record_result_fails [OF this(2)] show ?thesis using keeps_result [OF rec c1] by blast
  qed
  then show ?thesis using assms
    by (auto simp: wrappedTransaction_run split: option.splits sum.splits if_splits)
qed

lemma attempt_fails:
  assumes "in_txn (wrappedTransaction ex ctx info fid args) s = (Inl e, t)" "faults s = []"
  shows "same_context s t"
proof -
  let ?s = "s\<lparr>userDatabase := begin_txn (userDatabase s)\<rparr>"
  obtain r s' where run: "wrappedTransaction ex ctx info fid args ?s = (r, s')" by fastforce
  have f: "faults s' = []"
    using keeps_result [OF keeps_faults_wrapped [of "[]"] _ run] assms(2) by (simp add: faults_def begin_txn_def)
  with assms(1) run have r: "r = Inl e" "t = s'\<lparr>userDatabase := rollback (userDatabase s) (userDatabase s')\<rparr>"
    by (auto simp: in_txn_run next_fault_def faults_def split: sum.splits if_splits)
  have "ctx_part s' = ctx_part ?s" using wrappedTransaction_fails [OF run [unfolded r(1)]] by simp
  with r f assms(2) show ?thesis
    by (simp add: same_context_def ctx_part_def op_rows_def txn_log_def faults_def rollback_def)
qed

text \<open>An attempt that returns: what was known stays known, and the output is known.\<close>

definition settled :: "('u, 'x) dbosExec \<Rightarrow> wctx \<Rightarrow> nat \<Rightarrow> jsval \<Rightarrow> ('u, 'x) dbos \<Rightarrow> ('u, 'x) dbos \<Rightarrow> bool" where
  "settled ex ctx fid v s t \<longleftrightarrow> advance (workflowUUID ctx) s t \<and> knows_txn (ex_runtime ex) (workflowUUID ctx) t fid (Inr v) \<and>
     functionID t = functionID s \<and> distinct (map fst (resultBuffer t)) \<and> fst ` set (resultBuffer t) \<subseteq> insert fid (fst ` set (resultBuffer s)) \<and>
     (ud_aborted (userDatabase t) \<longrightarrow> txn_log t = txn_log s)"

text \<open>Both relations see the log of transactions, the log of operations, the buffer and the counter.\<close>

lemma advance_view:
  assumes "txn_log s' = txn_log s" "op_rows s' = op_rows s" "resultBuffer s' = resultBuffer s"
    and "txn_log t' = txn_log t" "op_rows t' = op_rows t" "resultBuffer t' = resultBuffer t"
  shows "advance u s' t' = advance u s t"
  by (simp only: advance_def assms)

lemma knows_txn_view:
  "txn_log t' = txn_log t \<Longrightarrow> resultBuffer t' = resultBuffer t \<Longrightarrow> knows_txn rt u t' fid r = knows_txn rt u t fid r"
  by (simp only: knows_txn_def)

lemma settled_view:
  assumes "settled ex ctx fid v s' t" "txn_log s' = txn_log s" "op_rows s' = op_rows s" "resultBuffer s' = resultBuffer s"
    "functionID s' = functionID s"
  shows "settled ex ctx fid v s t"
  using assms(1) advance_view [OF assms(2-4) refl refl refl] unfolding settled_def assms(2-5) by blast

lemma settled_write:
  assumes "run_and_record ex ctx info fid args s = (Inr v, t)" "\<not> is_readOnly (ti_config info)"
    and "distinct (map fst (resultBuffer s))" "canon_val (ex_runtime ex) v = Inr v"
  shows "settled ex ctx fid v s t"
proof -
  let ?u = "workflowUUID ctx"
  from run_and_record_split [OF assms(1,2)] obtain x s2 s3 y s4 where
    fl: "flushResultBuffer ex ctx (isKeyConflictError (ex_kind ex)) s = (Inr x, s2)"
    and body: "on_user (run_body (ti_transaction info args)) s2 = (Inr v, s3)"
    and rec: "recordOutput ex ctx fid (txn_snapshot s3) v (isKeyConflictError (ex_kind ex)) s3 = (Inr y, s4)"
    and t: "t = s4\<lparr>resultBuffer := []\<rparr>" .
  from flushResultBuffer_inv [OF fl] obtain rows where rows: "buffer_rows (resultBuffer s) = Inr rows"
    "\<forall>p \<in> set rows. txn_log s (?u, fst p) = None" and s2: "txn_log s2 = log_rows ?u rows (txn_log s)"
    "op_rows s2 = op_rows s" "functionID s2 = functionID s"
    by (auto simp: txn_log_def op_rows_def)
  have log3: "txn_log s3 = txn_log s2" using body by (auto simp: on_user_run run_body_def zoomE_def txn_log_def split: prod.splits)
  note r = recordOutput_ok [OF rec]
  then obtain row where row: "txn_log s4 = (txn_log s3)((?u, fid) \<mapsto> row)" "to_error row = None" "stringify v = Inr (to_output row)" by blast
  have "advance ?u s t"
  proof (rule flushed_advance [OF rows assms(3)])
    show "txn_log t k = Some r" if "log_rows ?u rows (txn_log s) k = Some r" for k r
      using that row(1) log3 s2(1) \<open>txn_log s3 (?u, fid) = None\<close> by (auto simp: t txn_log_def)
    show "op_rows t = op_rows s"
      using r(6) on_user_context [OF body] s2(2) by (simp add: t op_rows_def)
  qed
  moreover have "txn_log t (?u, fid) = Some row" using row(1) by (simp add: t txn_log_def)
  then have "knows_txn (ex_runtime ex) ?u t fid (Inr v)"
    using row(2,3) assms(4) by (auto simp: knows_txn_def decode_txn_def canon_val_def)
  ultimately show ?thesis using r(1,8) on_user_context [OF body] s2(3) by (simp add: settled_def t)
qed

lemma settled_readonly:
  assumes "run_and_record ex ctx info fid args s = (Inr v, t)" "is_readOnly (ti_config info)"
    and "distinct (map fst (resultBuffer s))" "canon_val (ex_runtime ex) v = Inr v" "fid \<notin> fst ` set (resultBuffer s)"
  shows "settled ex ctx fid v s t"
proof -
  from assms(1,2) obtain s3 where body: "on_user (run_body (ti_transaction info args)) s = (Inr v, s3)"
    and t: "t = s3\<lparr>resultBuffer := jm_set fid \<lparr>br_output = Some v, br_txn_snapshot = txn_snapshot s3,
              br_created_at = Some (now (systemDatabase s3))\<rparr> (resultBuffer s3)\<rparr>"
    by (auto simp: run_and_record_def txn_body_def buffer_result_def nowE_def em_simps split: prod.splits sum.splits)
  note c = on_user_context [OF body]
  have log: "txn_log t = txn_log s" using body t by (auto simp: on_user_run run_body_def zoomE_def txn_log_def split: prod.splits)
  have "map_of (resultBuffer s) fid = None" using assms(5) by (simp add: map_of_eq_None_iff)
  then have "advance (workflowUUID ctx) s t"
    using c log by (auto simp: advance_def t jm_get_set op_rows_def txn_log_def)
  moreover have "knows_txn (ex_runtime ex) (workflowUUID ctx) t fid (Inr v)"
    using assms(4) by (auto simp: knows_txn_def t jm_get_set buffered_output_def)
  moreover have keys: "map fst (resultBuffer t) = map fst (resultBuffer s) @ [fid]"
    using c assms(5) by (simp add: t jm_keys_set)
  then have "distinct (map fst (resultBuffer t))" "set (map fst (resultBuffer t)) \<subseteq> insert fid (set (map fst (resultBuffer s)))"
    using assms(3,5) by auto
  ultimately show ?thesis using c log by (simp add: settled_def t)
qed

lemma settled_wrapped:
  assumes "wrappedTransaction ex ctx info fid args s = (Inr v, t)" "\<not> ud_aborted (userDatabase s)"
    and "distinct (map fst (resultBuffer s))" "canon_val (ex_runtime ex) v = Inr v" "fid \<notin> fst ` set (resultBuffer s)"
  shows "settled ex ctx fid v s t"
proof (cases "if presetUUID ctx then txn_log s (workflowUUID ctx, fid) else None")
  case None
  let ?s = "s\<lparr>txn_snapshot := pg_current_snapshot (userDatabase s)\<rparr>"
  from None assms(1,2) have "run_and_record ex ctx info fid args ?s = (Inr v, t)"
    by (simp add: wrappedTransaction_run split: option.splits)
  then have "settled ex ctx fid v ?s t"
    using settled_write [of ex ctx info fid args ?s v t] settled_readonly [of ex ctx info fid args ?s v t] assms(3-5)
    by (cases "is_readOnly (ti_config info)") simp_all
  then show ?thesis by (rule settled_view) (simp_all add: txn_log_def op_rows_def)
next
  case (Some row)
  with assms(1,2) have "txn_log s (workflowUUID ctx, fid) = Some row" "decode_txn (ex_runtime ex) row = Inr v"
    "t = s\<lparr>txn_snapshot := pg_current_snapshot (userDatabase s)\<rparr>"
    by (auto simp: wrappedTransaction_run split: sum.splits if_splits)
  moreover from this(3) have "advance (workflowUUID ctx) s t"
    by (simp add: advance_def txn_log_def op_rows_def)
  ultimately show ?thesis using assms(2,3) by (auto simp: settled_def knows_txn_def txn_log_def)
qed

lemma settled_attempt:
  assumes "in_txn (wrappedTransaction ex ctx info fid args) s = (Inr v, t)" "faults s = []"
    and "distinct (map fst (resultBuffer s))" "canon_val (ex_runtime ex) v = Inr v" "fid \<notin> fst ` set (resultBuffer s)"
  shows "settled ex ctx fid v s t \<and> faults t = []"
proof -
  let ?s = "s\<lparr>userDatabase := begin_txn (userDatabase s)\<rparr>"
  from assms(1) obtain s' where run: "wrappedTransaction ex ctx info fid args ?s = (Inr v, s')" by (rule in_txn_value)
  have f: "faults s' = []"
    using keeps_result [OF keeps_faults_wrapped [of "[]"] _ run] assms(2) by (simp add: faults_def begin_txn_def)
  have "settled ex ctx fid v ?s s'" by (rule settled_wrapped [OF run]) (use assms in auto)
  then have st: "settled ex ctx fid v s s'" by (rule settled_view) (simp_all add: op_rows_def)
  from assms(1) run f have t: "t = s'\<lparr>userDatabase := pop_fault (if ud_aborted (userDatabase s')
      then rollback (userDatabase s) (userDatabase s') else userDatabase s')\<rparr>"
    by (auto simp: in_txn_run next_fault_def faults_def)
  have log: "txn_log t = txn_log s'"
    using st by (auto simp: t settled_def txn_log_def pop_fault_def rollback_def)
  have same: "op_rows t = op_rows s'" "resultBuffer t = resultBuffer s'" "functionID t = functionID s'"
    by (simp_all add: t op_rows_def)
  have "ud_aborted (userDatabase t) \<longrightarrow> txn_log t = txn_log s" by (simp add: t pop_fault_def rollback_def)
  moreover have "faults t = []" using f by (simp add: t faults_def pop_fault_def rollback_def)
  ultimately show ?thesis
    using st advance_view [OF refl refl refl log same(1,2)] knows_txn_view [OF log same(2)] same
    by (simp add: settled_def)
qed

lemma settled_txn:
  assumes "txn_attempts ex ctx info fid args fuel w s = (Inr v, t)" "faults s = []"
    and "distinct (map fst (resultBuffer s))" "canon_val (ex_runtime ex) v = Inr v" "fid \<notin> fst ` set (resultBuffer s)"
  shows "settled ex ctx fid v s t \<and> faults t = []"
  using assms(1,2,3,5)
proof (induction fuel arbitrary: w s)
  case (Suc fuel)
  let ?s = "s\<lparr>txn_snapshot := ''invalid''\<rparr>"
  obtain r1 s1 where att: "in_txn (wrappedTransaction ex ctx info fid args) ?s = (r1, s1)" by fastforce
  have f: "faults ?s = []" using Suc.prems(2) by (simp add: faults_def)
  show ?case
  proof (cases r1)
    case (Inr v')
    with Suc.prems(1) att have "v' = v" "s1 = t" by (simp_all add: attempt_step del: txn_attempts.simps)
    with settled_attempt [OF att [unfolded Inr] f] Suc.prems assms(4) have "settled ex ctx fid v ?s t \<and> faults t = []" by simp
    then show ?thesis using settled_view [of ex ctx fid v ?s t s] by (simp add: txn_log_def op_rows_def)
  next
    case (Inl e)
    note c = attempt_fails [OF att [unfolded Inl] f]
    show ?thesis
    proof (cases "isRetriableTransactionError (ex_kind ex) e")
      case True
      let ?s2 = "s1\<lparr>systemDatabase := sleep_clock \<lfloor>w\<rfloor> (systemDatabase s1)\<rparr>"
      have view: "txn_log ?s2 = txn_log s" "op_rows ?s2 = op_rows s" "resultBuffer ?s2 = resultBuffer s"
        "functionID ?s2 = functionID s" "faults ?s2 = []"
        using c f by (simp_all add: same_context_def txn_log_def op_rows_def faults_def sleep_clock_def)
      have "txn_attempts ex ctx info fid args fuel (next_wait w) ?s2 = (Inr v, t)"
        using Suc.prems(1) att Inl True by (simp add: attempt_step del: txn_attempts.simps)
      from Suc.IH [OF this] have "settled ex ctx fid v ?s2 t \<and> faults t = []" using view Suc.prems by simp
      then show ?thesis using settled_view [OF _ view(1-4)] by blast
    next
      case False
      have "record_txn_error ex ctx fid e s1 = (Inr v, t)"
        using Suc.prems(1) att Inl False by (simp add: attempt_step del: txn_attempts.simps)
      then show ?thesis using record_txn_error_frame by blast
    qed
  qed
qed (simp add: raiseE_def)

section \<open>The log of operations only grows\<close>

definition row_kept :: "uuid \<times> nat \<Rightarrow> operation_outputs_row \<Rightarrow> sysdb \<Rightarrow> bool" where
  "row_kept k row db \<longleftrightarrow> operation_outputs db k = Some row"

definition wake_keeps :: "wake \<Rightarrow> bool" where
  "wake_keeps w \<longleftrightarrow> (\<forall>k row db. row_kept k row db \<longrightarrow> row_kept k row (others_of w db))"

lemma kept_insert_op: "keeps (row_kept k row) (insert_op u f r)"
  by (auto simp: keeps_def insert_op_def row_kept_def)

lemma kept_clock: "keeps (row_kept k row) (modifyE (\<lambda>db. sleep_clock (d db) db))"
  by (rule keeps_modify) (simp add: row_kept_def sleep_clock_def)

lemma kept_sleep_until: "keeps (row_kept k row) (sleep_until rt u f d)"
  unfolding sleep_until_def insert_op_if_absent_def by (intro keeps_rules kept_insert_op)

lemma kept_race: "wake_keeps w \<Longrightarrow> keeps (row_kept k row) (race w e)"
  unfolding race_def
  by (rule keeps_modify) (cases w; cases k; simp add: wake_keeps_def row_kept_def sleep_clock_def)

lemma kept_record: "keeps (row_kept k row) (recordNotificationOutput u f v)"
  "keeps (row_kept k row) (recordOperationOutput u f v)" "keeps (row_kept k row) (recordOperationError rt u f e)"
  by (auto simp: keeps_def row_kept_def record_notification_eq recordOperationOutput_eq recordOperationError_eq split: sum.splits)

lemma kept_send: "keeps (row_kept k row) (send u f d m t)"
  and kept_setEvent: "keeps (row_kept k row) (setEvent u f key v)"
  by (auto simp: keeps_def row_kept_def send_eq setEvent_eq split: sum.splits)

lemma kept_consume: "keeps (row_kept k row) (consume rt u f t)"
  unfolding consume_def
  by (intro keeps_rules kept_record keeps_modify) (simp_all add: row_kept_def)

lemma kept_sleepms: "keeps (row_kept k row) (sleepms rt u f d)"
  unfolding sleepms_def by (intro keeps_rules kept_sleep_until kept_clock)

lemma kept_recv: "wake_keeps w \<Longrightarrow> keeps (row_kept k row) (recv rt w u f tf t d)"
  unfolding recv_def sleep_or_fail_def by (intro keeps_rules kept_sleep_until kept_race kept_consume)

lemma kept_getEvent: "wake_keeps w \<Longrightarrow> keeps (row_kept k row) (getEvent rt w u key d caller)"
  unfolding getEvent_def sleep_or_fail_def event_value_def by (intro keeps_rules kept_sleep_until kept_race kept_record)

lemma on_sys_advance:
  assumes "on_sys m s = (r, t)" "\<And>k row. keeps (row_kept k row) m"
  shows "advance u s t \<and> functionID t = functionID s \<and> ready t = ready s"
proof -
  obtain db where db: "m (systemDatabase s) = (r, db)" and t: "t = s\<lparr>systemDatabase := db\<rparr>"
    using assms(1) by (auto simp: on_sys_run split: prod.splits)
  have "operation_outputs db k = Some row" if "operation_outputs (systemDatabase s) k = Some row" for k row
    using keeps_result [OF assms(2) _ db, of k row] that by (simp add: row_kept_def)
  then show ?thesis by (auto simp: t advance_def op_rows_def txn_log_def ready_def faults_def)
qed

section \<open>What is known after an operation\<close>

lemma parse_num: "parse rt (Some (Num q)) = Inr (JNum q)"
  by (simp add: parse_def DBOSReviver_def isSerializedBuffer_def isSerializedDate_def isSerializedBigInt_def)

lemma send_knows: "send u f d m topic db = (Inr x, db') \<Longrightarrow> \<exists>row. operation_outputs db' (u, f) = Some row"
  and setEvent_knows: "setEvent u f k m db = (Inr x, db') \<Longrightarrow> \<exists>row. operation_outputs db' (u, f) = Some row"
  by (auto simp: send_eq setEvent_eq split: if_splits sum.splits)

lemma sleepms_knows:
  assumes "sleepms rt u f d db = (Inr x, db')"
  shows "\<exists>row v. operation_outputs db' (u, f) = Some row \<and> parse rt (oo_output row) = Inr v"
proof (cases "operation_outputs db (u, f)")
  case None
  with assms have "operation_outputs db' (u, f) = Some \<lparr>oo_output = Some (Num (of_int (now db + d))), oo_error = None\<rparr>"
    by (auto simp: sleepms_def sleep_until_def insert_op_if_absent_def insert_op_def em_simps stringify_def sleep_clock_def
        split: if_splits)
  then show ?thesis by (auto simp: parse_num)
next
  case (Some row)
  with assms show ?thesis
    by (auto simp: sleepms_def sleep_until_def em_simps sleep_clock_def split: sum.splits)
qed

lemma recv_knows:
  assumes "recv rt w u f tf t d db = (Inr v, db')" "canon_val rt v = Inr v"
  shows "\<exists>row. operation_outputs db' (u, f) = Some row \<and> parse rt (oo_output row) = Inr v"
proof (cases "operation_outputs db (u, f)")
  case None
  with assms(1) obtain db1 where "consume rt u f (topic_or_null t) db1 = (Inr v, db')"
    by (auto simp: recv_def elim!: seqE_InrD)
  from consume_ok(3) [OF this] assms(2) show ?thesis by (auto simp: canon_val_def)
next
  case (Some row)
  with assms(1) show ?thesis by (auto simp: recv_def liftE_def)
qed

lemma getEvent_knows:
  assumes "getEvent rt w u k d (Some cw) db = (Inr v, db')" "canon_val rt v = Inr v"
  shows "\<exists>row. operation_outputs db' (cw_workflowUUID cw, cw_functionID cw) = Some row \<and> parse rt (oo_output row) = Inr v"
proof (cases "operation_outputs db (cw_workflowUUID cw, cw_functionID cw)")
  case None
  with assms(1) obtain db1 where "recordOperationOutput (cw_workflowUUID cw) (cw_functionID cw) v db1 = (Inr (), db')"
    by (auto simp: getEvent_def retE_def elim!: seqE_InrD bindE_InrD)
  with assms(2) show ?thesis by (auto simp: recordOperationOutput_eq canon_val_def split: sum.splits if_splits)
next
  case (Some row)
  with assms(1) show ?thesis by (auto simp: getEvent_def liftE_def)
qed

section \<open>Each operation moves on\<close>

text \<open>The whole contract of an operation that ends with a stable outcome.\<close>

definition moves_on :: "runtime \<Rightarrow> uuid \<Rightarrow> ('u, 'x) dbos \<Rightarrow> wfop \<Rightarrow> jserror + jsval \<Rightarrow> ('u, 'x) dbos \<Rightarrow> bool" where
  "moves_on rt u s c r t \<longleftrightarrow> ready t \<and> advance u s t \<and> functionID t = functionID s + width c \<and> knows rt u t (functionID s) c r"

lemma ready_bump: "ready s \<Longrightarrow> functionID s \<le> n \<Longrightarrow> ready (s\<lparr>functionID := n\<rparr>)"
  by (auto simp: ready_def faults_def)

lemma advance_bump: "advance u (s\<lparr>functionID := n\<rparr>) t = advance u s t"
  by (simp add: advance_def txn_log_def op_rows_def)

lemma flush_ready:
  assumes "flush_in_txn ex ctx s = (Inr x, t)" "ready s"
  shows "ready t" "advance (workflowUUID ctx) s t" "functionID t = functionID s"
  using flush_in_txn_inv [OF assms] by (simp_all add: ready_def)

lemma txn_moves_on:
  assumes "transaction ex ctx fuel nm args s = (r, t)" "ready s" "stable ex (OpTransaction nm args, r)"
  shows "moves_on (ex_runtime ex) (workflowUUID ctx) s (OpTransaction nm args) r t"
proof -
  let ?s = "s\<lparr>functionID := Suc (functionID s)\<rparr>"
  from assms(3) obtain info v where reg: "transactionInfoMap ex nm = Some info" and r: "r = Inr v"
    and v: "canon_val (ex_runtime ex) v = Inr v"
    by (auto simp: stable_def split: sum.splits)
  have "txn_attempts ex ctx info (functionID s) args fuel 1 ?s = (Inr v, t)"
    using assms(1) by (simp add: transaction_def reg bind_functionID r)
  then have st: "settled ex ctx (functionID s) v ?s t \<and> faults t = []"
    by (rule settled_txn) (use assms(2) v in \<open>auto simp: ready_def faults_def\<close>)
  then have "\<forall>f \<in> fst ` set (resultBuffer t). f < functionID t"
    using assms(2) unfolding settled_def ready_def by fastforce
  with st show ?thesis by (auto simp: moves_on_def settled_def ready_def advance_bump r)
qed

lemma sys_moves_on:
  assumes "seqE (flush_in_txn ex ctx) (on_sys m) (s\<lparr>functionID := n\<rparr>) = (Inr x, t)" "ready s"
    and "n = functionID s + width c" "\<And>k row. keeps (row_kept k row) m"
    and "\<And>db. m db = (Inr x, systemDatabase t) \<Longrightarrow> knows (ex_runtime ex) (workflowUUID ctx) t (functionID s) c r"
  shows "moves_on (ex_runtime ex) (workflowUUID ctx) s c r t"
proof -
  let ?s = "s\<lparr>functionID := n\<rparr>"
  from assms(1) obtain y s1 where fl: "flush_in_txn ex ctx ?s = (Inr y, s1)" and m: "on_sys m s1 = (Inr x, t)"
    by (rule seqE_InrD)
  have "ready ?s" using assms(2,3) by (simp add: ready_bump)
  note f = flush_ready [OF fl this] and a = on_sys_advance [OF m assms(4), of "workflowUUID ctx"]
  have "m (systemDatabase s1) = (Inr x, systemDatabase t)" using m by (auto simp: on_sys_run split: prod.splits)
  from assms(5) [OF this] show ?thesis
    using f a assms(3) advance_trans [of _ s s1 t] by (simp add: moves_on_def advance_bump)
qed

lemma knows_rowI: "operation_outputs (systemDatabase s) (u, f) = Some row \<Longrightarrow> parse rt (oo_output row) = r \<Longrightarrow> knows_row rt u s f r"
  by (auto simp: knows_row_def op_rows_def)

text \<open>Steps: writing and recording fail with errors of storage only.\<close>

lemma throws_storage_flush: "throws (storage_error ex) (flushResultBuffer ex ctx k)"
proof -
  have rows: "throws (storage_error ex) (liftE (buffer_rows buf))" for buf
    by (rule throws_lift)
      (auto simp: buffer_rows_def bindR_def storage_error_def dest!: traverse_Inl stringify_error split: sum.splits)
  have sql: "throws (storage_error ex) (run_sql (ex_sqlError ex) (insert_txn_outputs (ex_sqlError ex) u rs))" for u rs
    by (auto simp: throws_def run_sql_run insert_txn_outputs_def storage_error_def split: if_splits)
  show ?thesis unfolding flushResultBuffer_def
    by (intro throws_rules throws_catch [where Q = "storage_error ex"] rows sql)
      (auto simp: conflict_on_def storage_error_def intro!: throws_raise)
qed

lemma keeps_faults_flush: "keeps (\<lambda>s. faults s = F) (flushResultBuffer ex ctx k)"
  unfolding flushResultBuffer_def insert_txn_outputs_def
  by (intro keeps_rules keeps_faults keeps_faults_conflict) (auto simp: keeps_def)

lemma flush_in_txn_fails:
  assumes "flush_in_txn ex ctx s = (Inl e, t)" "ready s"
  shows "storage_error ex e"
proof -
  let ?k = "isKeyConflictError (ex_kind ex)" and ?s = "s\<lparr>userDatabase := begin_txn (userDatabase s)\<rparr>"
  obtain r s' where run: "flushResultBuffer ex ctx ?k ?s = (r, s')" by fastforce
  have "faults s' = []"
    using keeps_result [OF keeps_faults_flush [of "[]"] _ run] assms(2) by (simp add: faults_def begin_txn_def ready_def)
  with assms(1) run have "r = Inl e"
    by (auto simp: flush_in_txn_def seqE_def bindE_def clear_buffer_def modifyE_def in_txn_run next_fault_def faults_def
        split: sum.splits if_splits)
  with run show ?thesis using throwsD [OF throws_storage_flush] by blast
qed

definition step_view :: "('u, 'x) dbos \<Rightarrow> (uuid \<times> nat \<rightharpoonup> operation_outputs_row) \<times> 'u userdb \<times> (nat, BufferedResult) jmap \<times> nat" where
  "step_view s = (op_rows s, userDatabase s, resultBuffer s, functionID s)"

lemma keeps_view_outside: "keeps (\<lambda>s. step_view s = c) (on_outside m)"
  and keeps_view_sleep: "keeps (\<lambda>s. step_view s = c) (sleep_rat d)"
  by (auto simp: keeps_def step_view_def on_outside_run sleep_rat_def on_sys_run modifyE_def sleep_clock_def op_rows_def split: prod.splits)

lemma keeps_view_attempts: "keeps (\<lambda>s. step_view s = c) (step_attempts body rate n i)"
  by (induction n arbitrary: i) (auto intro!: keeps_rules keeps_view_outside keeps_view_sleep)

lemma keeps_view_step: "keeps (\<lambda>s. step_view s = c) (run_step info args)"
  unfolding run_step_def by (intro keeps_rules keeps_view_outside keeps_view_attempts)

lemma advance_step_view: "step_view t = step_view s \<Longrightarrow> advance u s t \<and> functionID t = functionID s \<and> ready t = ready s"
  by (simp add: step_view_def advance_def txn_log_def ready_def faults_def)

lemma record_storage:
  "recordOperationOutput u f v db = (Inl e, db') \<Longrightarrow> storage_error ex e"
  "recordOperationError rt u f e' db = (Inl e, db') \<Longrightarrow> storage_error ex e"
  by (auto simp: recordOperationOutput_eq recordOperationError_eq storage_error_def dest: stringify_error split: sum.splits if_splits)

lemma once_moves_on:
  assumes "wfs.once (ex_runtime ex) u fid (run_step info args) s = (r, t)" "stable ex (OpStep nm args, r)"
  shows "advance u s t \<and> functionID t = functionID s \<and> ready t = ready s \<and> recorded_op (ex_runtime ex) (systemDatabase t) (u, fid) = Some r"
proof (cases "recorded_op (ex_runtime ex) (systemDatabase s) (u, fid)")
  case (Some r')
  with wfs.once_recorded [of "ex_runtime ex" s u fid r' "run_step info args"] assms(1) have "r' = r" "t = s" by auto
  with Some show ?thesis by (simp add: advance_refl)
next
  case None
  obtain q s1 where body: "run_step info args s = (q, s1)" by fastforce
  then have view: "step_view s1 = step_view s" using keeps_result [OF keeps_view_step] by blast
  let ?m = "case q of Inr v \<Rightarrow> recordOperationOutput u fid v | Inl e \<Rightarrow> recordOperationError (ex_runtime ex) u fid e"
  have run: "seqE (on_sys ?m) (liftE q) s1 = (r, t)"
    using assms(1) None body
    by (cases q) (simp_all add: wfs.once_def bindE_def [of "on_sys (checkOperationOutput (ex_runtime ex) u fid)"] wfs.check_absent
        liftE_def retE_def raiseE_def)
  obtain w where ok: "on_sys ?m s1 = (Inr w, t)" and r: "r = q"
  proof (cases "on_sys ?m s1")
    case (Pair z s2)
    show ?thesis
    proof (cases z)
      case (Inl e)
      have "storage_error ex e"
        using Pair Inl by (cases q) (auto simp: on_sys_run dest!: record_storage [where ex = ex] split: prod.splits)
      moreover have "r = Inl e" using run Pair Inl by (simp add: seqE_def bindE_def)
      ultimately show ?thesis using assms(2) by (simp add: stable_def)
    next
      case (Inr w)
      with run Pair have "s2 = t" "r = q" by (simp_all add: seqE_def bindE_def liftE_def)
      with that Pair Inr show ?thesis by simp
    qed
  qed
  have "advance u s1 t \<and> functionID t = functionID s1 \<and> ready t = ready s1"
    by (rule on_sys_advance [OF ok]) (cases q; simp add: kept_record)
  moreover have "recorded_op (ex_runtime ex) (systemDatabase t) (u, fid) = Some r"
  proof (cases q)
    case (Inl e)
    with wfs.record_err_ok [of "ex_runtime ex" u fid e s1 w t] ok r assms(2) show ?thesis by (simp add: stable_def)
  next
    case (Inr v)
    with wfs.record_out_ok [of u fid v s1 w t "ex_runtime ex"] ok r assms(2) show ?thesis by (simp add: stable_def)
  qed
  ultimately show ?thesis using advance_step_view [OF view, of u] advance_trans [of u s s1 t] by simp
qed

lemma step_moves_on:
  assumes "external ex ctx nm args s = (r, t)" "ready s" "stable ex (OpStep nm args, r)"
  shows "moves_on (ex_runtime ex) (workflowUUID ctx) s (OpStep nm args) r t"
proof -
  let ?u = "workflowUUID ctx" and ?s = "s\<lparr>functionID := Suc (functionID s)\<rparr>"
  from assms(3) obtain info where reg: "stepInfoMap ex nm = Some info" by (auto simp: stable_def)
  let ?once = "wfs.once (ex_runtime ex) ?u (functionID s) (run_step info args)"
  have run: "seqE (flush_in_txn ex ctx) ?once ?s = (r, t)"
    using assms(1) by (simp add: external_once [OF reg] bind_functionID)
  have rdy: "ready ?s" using assms(2) by (simp add: ready_bump)
  obtain q s1 where fl: "flush_in_txn ex ctx ?s = (q, s1)" by fastforce
  have "\<exists>x. q = Inr x"
  proof (rule ccontr)
    assume "\<not> ?thesis"
    then obtain e where q: "q = Inl e" by (cases q) auto
    with run fl have "r = Inl e" by (simp add: seqE_def bindE_def)
    with flush_in_txn_fails [OF fl [unfolded q] rdy] assms(3) show False by (simp add: stable_def)
  qed
  then obtain x where fl: "flush_in_txn ex ctx ?s = (Inr x, s1)" using fl by blast
  then have "?once s1 = (r, t)" using run by (simp add: seqE_def bindE_def)
  from once_moves_on [OF this assms(3)] flush_ready [OF fl rdy] show ?thesis
    using advance_trans [of ?u s s1 t] by (simp add: moves_on_def advance_bump)
qed

lemma void_InrD: "void m s = (r, t) \<Longrightarrow> r = Inr v \<Longrightarrow> \<exists>x. m s = (Inr x, t) \<and> v = JUndefined"
  by (auto simp: void_def seqE_def retE_def elim!: bindE_InrD)

lemma op_moves_on:
  assumes "exec_op ex ctx fuel wk c s = (r, t)" "ready s" "stable ex (c, r)" "\<And>n. wake_keeps (wk n)"
  shows "moves_on (ex_runtime ex) (workflowUUID ctx) s c r t"
proof (cases c)
  case (OpTransaction nm args)
  with assms txn_moves_on [of ex ctx fuel nm args s r t] show ?thesis by simp
next
  case (OpStep nm args)
  with assms step_moves_on [of ex ctx nm args s r t] show ?thesis by simp
next
  case (OpSend d m topic)
  with assms(3) obtain v where r: "r = Inr v" by (auto simp: stable_def split: sum.splits)
  with assms(1) OpSend void_InrD obtain x where v: "v = JUndefined" and run: "ctx_send ex ctx d m topic s = (Inr x, t)" by fastforce
  from run have "seqE (flush_in_txn ex ctx) (on_sys (send (workflowUUID ctx) (functionID s) d m topic)) (s\<lparr>functionID := Suc (functionID s)\<rparr>) = (Inr x, t)"
    by (simp add: ctx_send_def bind_functionID)
  then show ?thesis
    by (rule sys_moves_on [OF _ assms(2)])
      (auto simp: OpSend kept_send r v op_rows_def dest: send_knows)
next
  case (OpSetEvent k m)
  with assms(3) obtain v where r: "r = Inr v" by (auto simp: stable_def split: sum.splits)
  with assms(1) OpSetEvent void_InrD obtain x where v: "v = JUndefined" and run: "ctx_setEvent ex ctx k m s = (Inr x, t)" by fastforce
  from run have "seqE (flush_in_txn ex ctx) (on_sys (setEvent (workflowUUID ctx) (functionID s) k m)) (s\<lparr>functionID := Suc (functionID s)\<rparr>) = (Inr x, t)"
    by (simp add: ctx_setEvent_def bind_functionID)
  then show ?thesis
    by (rule sys_moves_on [OF _ assms(2)])
      (auto simp: OpSetEvent kept_setEvent r v op_rows_def dest: setEvent_knows)
next
  case (OpRecv topic d)
  with assms(3) obtain v where r: "r = Inr v" and v: "canon_val (ex_runtime ex) v = Inr v" by (auto simp: stable_def split: sum.splits)
  from assms(1) have "seqE (flush_in_txn ex ctx) (on_sys (recv (ex_runtime ex) (wk (functionID s)) (workflowUUID ctx) (functionID s)
      (Suc (functionID s)) topic d)) (s\<lparr>functionID := Suc (Suc (functionID s))\<rparr>) = (Inr v, t)"
    by (simp add: OpRecv r ctx_recv_def bind_functionID)
  then show ?thesis
    by (rule sys_moves_on [OF _ assms(2)])
      (use recv_knows [OF _ v] assms(4) in \<open>auto simp: OpRecv kept_recv r intro: knows_rowI dest!: recv_knows [OF _ v]\<close>)
next
  case (OpGetEvent target k d)
  let ?n = "functionID s" and ?s = "s\<lparr>functionID := Suc (Suc (functionID s))\<rparr>"
  from OpGetEvent assms(3) obtain v where r: "r = Inr v" and v: "canon_val (ex_runtime ex) v = Inr v" by (auto simp: stable_def split: sum.splits)
  from assms(1) have run: "on_sys (getEvent (ex_runtime ex) (wk ?n) target k d
      (Some \<lparr>cw_workflowUUID = workflowUUID ctx, cw_functionID = ?n, cw_timeoutFunctionID = Suc ?n\<rparr>)) ?s = (Inr v, t)"
    by (simp add: OpGetEvent r ctx_getEvent_def bind_functionID)
  have "knows_row (ex_runtime ex) (workflowUUID ctx) t ?n (Inr v)"
    using run by (auto simp: on_sys_run dest!: getEvent_knows [OF _ v] intro: knows_rowI split: prod.splits)
  then show ?thesis
    using on_sys_advance [OF run kept_getEvent [OF assms(4)], of "workflowUUID ctx"] ready_bump [OF assms(2)]
    by (simp add: moves_on_def OpGetEvent r advance_bump)
next
  case (OpSleep d)
  with assms(3) obtain v where r: "r = Inr v" by (auto simp: stable_def split: sum.splits)
  with assms(1) OpSleep void_InrD obtain x where v: "v = JUndefined" and run: "ctx_sleepms ex ctx d s = (Inr x, t)" by fastforce
  show ?thesis
  proof (cases "d \<le> 0")
    case True
    with run assms(2) show ?thesis by (simp add: moves_on_def OpSleep r v ctx_sleepms_def retE_def advance_refl)
  next
    case False
    let ?n = "functionID s" and ?s = "s\<lparr>functionID := Suc (functionID s)\<rparr>"
    from run False have run: "on_sys (sleepms (ex_runtime ex) (workflowUUID ctx) ?n d) ?s = (Inr x, t)"
      by (simp add: ctx_sleepms_def bind_functionID)
    then have "\<exists>v. knows_row (ex_runtime ex) (workflowUUID ctx) t ?n (Inr v)"
      by (auto simp: on_sys_run knows_row_def op_rows_def dest!: sleepms_knows split: prod.splits)
    then show ?thesis
      using on_sys_advance [OF run kept_sleepms, of "workflowUUID ctx"] ready_bump [OF assms(2)] False
      by (simp add: moves_on_def OpSleep r v advance_bump)
  qed
qed

section \<open>A known operation is replayed\<close>

definition idle :: "('u, 'x) dbos \<Rightarrow> bool" where
  "idle s \<longleftrightarrow> resultBuffer s = [] \<and> faults s = []"

lemma idle_ready: "idle s \<Longrightarrow> ready s"
  by (simp add: idle_def ready_def)

definition replays :: "('u, 'x) dbos \<Rightarrow> wfop \<Rightarrow> ('u, 'x) dbos \<Rightarrow> bool" where
  "replays s c t \<longleftrightarrow> same_effects (s\<lparr>functionID := functionID s + width c\<rparr>) t \<and> idle t"

lemma replays_functionID: "replays s c t \<Longrightarrow> functionID t = functionID s + width c"
  by (simp add: replays_def same_effects_def)

lemma sys_replays:
  assumes "idle s" "n = functionID s + width c" "m (systemDatabase s) = (Inr x, db)" "db = (systemDatabase s)\<lparr>now := now db\<rparr>"
  shows "\<exists>t. seqE (flush_in_txn ex ctx) (on_sys m) (s\<lparr>functionID := n\<rparr>) = (Inr x, t) \<and> replays s c t"
    and "\<exists>t. on_sys m (s\<lparr>functionID := n\<rparr>) = (Inr x, t) \<and> replays s c t"
proof -
  let ?s = "s\<lparr>functionID := n\<rparr>"
  have q: "resultBuffer ?s = []" "next_fault (userDatabase ?s) = None" "faults ?s = []"
    using assms(1) by (simp_all add: idle_def next_fault_def faults_def)
  obtain t where t: "flush_in_txn ex ctx ?s = (Inr (), t)" "same_effects ?s t" "systemDatabase t = systemDatabase ?s" "faults t = []"
    using flush_in_txn_empty [OF q(1,2), of ex ctx] q(3) by auto
  have eff: "same_effects ?s (u\<lparr>systemDatabase := db\<rparr>) \<and> idle (u\<lparr>systemDatabase := db\<rparr>)"
    if "same_effects ?s u" "faults u = []" for u
    using that assms(1,4) q by (simp add: same_effects_def idle_def app_of_def txn_log_def faults_def)
  have "same_effects ?s ?s" by (simp add: same_effects_def)
  with eff [of ?s] q(3) show "\<exists>t. on_sys m ?s = (Inr x, t) \<and> replays s c t"
    using assms(2,3) by (simp add: on_sys_run replays_def)
  show "\<exists>t. seqE (flush_in_txn ex ctx) (on_sys m) ?s = (Inr x, t) \<and> replays s c t"
    using eff [OF t(2,4)] t(1,3) assms(2,3) by (simp add: seqE_def bindE_def on_sys_run replays_def)
qed

lemma void_run: "m s = (Inr x, t) \<Longrightarrow> void m s = (Inr JUndefined, t)"
  by (simp add: void_def seqE_def bindE_def retE_def)

lemma void_replays:
  assumes "\<exists>t. m s = (Inr (), t) \<and> replays s c t"
  shows "\<exists>t. void m s = (Inr JUndefined, t) \<and> replays s c t"
proof -
  from assms obtain t where "m s = (Inr (), t)" "replays s c t" by blast
  then show ?thesis using void_run [of m s "()" t] by blast
qed

lemma sleepms_known:
  assumes "operation_outputs db (u, f) = Some row" "parse rt (oo_output row) = Inr v"
  shows "\<exists>t. sleepms rt u f d db = (Inr (), db\<lparr>now := t\<rparr>)"
  using assms by (intro exI [of _ "now db + node_timeout (max (num_of v - now db) 0)"])
    (simp add: sleepms_def sleep_until_def em_simps sleep_clock_def)

lemma txn_replays:
  assumes "knows_txn (ex_runtime ex) (workflowUUID ctx) s (functionID s) (Inr v)" "idle s" "presetUUID ctx" "0 < fuel"
    and "transactionInfoMap ex nm = Some info" "canon_val (ex_runtime ex) v = Inr v"
  shows "\<exists>t. transaction ex ctx fuel nm args s = (Inr v, t) \<and> replays s (OpTransaction nm args) t"
proof -
  let ?s = "s\<lparr>functionID := Suc (functionID s)\<rparr>"
  from assms(1,2) obtain row where row: "txn_log ?s (workflowUUID ctx, functionID s) = Some row" "decode_txn (ex_runtime ex) row = Inr v"
    by (auto simp: knows_txn_def idle_def txn_log_def)
  have f: "faults ?s = []" "resultBuffer ?s = []" using assms(2) by (simp_all add: idle_def faults_def)
  obtain t where t: "txn_attempts ex ctx info (functionID s) args fuel 1 ?s = (Inr v, t)" "same_effects ?s t"
    using txn_attempts_replay [OF assms(3) row(2), of ?s "functionID s" fuel info args 1] row(1) f(1) assms(4) by auto
  have "faults t = []" using settled_txn [OF t(1) f(1)] f(2) assms(6) by simp
  with t f show ?thesis
    by (auto simp: transaction_def assms(5) bind_functionID replays_def idle_def same_effects_def)
qed

lemma op_replays:
  assumes "knows (ex_runtime ex) (workflowUUID ctx) s (functionID s) c r" "idle s" "stable ex (c, r)" "presetUUID ctx" "0 < fuel"
  shows "\<exists>t. exec_op ex ctx fuel wk c s = (r, t) \<and> replays s c t"
proof (cases c)
  case (OpTransaction nm args)
  with assms(3) obtain info v where "transactionInfoMap ex nm = Some info" "r = Inr v" "canon_val (ex_runtime ex) v = Inr v"
    by (auto simp: stable_def split: sum.splits)
  with txn_replays [of ex ctx s v fuel nm info args] assms OpTransaction show ?thesis by simp
next
  case (OpStep nm args)
  with assms(3) obtain info where "stepInfoMap ex nm = Some info" by (auto simp: stable_def)
  from external_replay [OF this, of s ctx r args] assms(1,2) OpStep show ?thesis
    by (fastforce simp: idle_def next_fault_def faults_def replays_def same_effects_def)
next
  case (OpSend d m topic)
  with assms(1) have r: "r = Inr JUndefined" and "send (workflowUUID ctx) (functionID s) d m topic (systemDatabase s) = (Inr (), systemDatabase s)"
    by (auto simp: send_eq op_rows_def)
  from sys_replays(1) [where m = "send (workflowUUID ctx) (functionID s) d m topic" and s = s, OF assms(2) _ this(2), of "Suc (functionID s)" c ex ctx]
  have "\<exists>t. ctx_send ex ctx d m topic s = (Inr (), t) \<and> replays s c t" by (simp add: OpSend ctx_send_def bind_functionID)
  from void_replays [where m = "ctx_send ex ctx d m topic", OF this] show ?thesis by (simp add: OpSend r)
next
  case (OpSetEvent k m)
  with assms(1) have r: "r = Inr JUndefined" and "setEvent (workflowUUID ctx) (functionID s) k m (systemDatabase s) = (Inr (), systemDatabase s)"
    by (auto simp: setEvent_eq op_rows_def)
  from sys_replays(1) [where m = "setEvent (workflowUUID ctx) (functionID s) k m" and s = s, OF assms(2) _ this(2), of "Suc (functionID s)" c ex ctx]
  have "\<exists>t. ctx_setEvent ex ctx k m s = (Inr (), t) \<and> replays s c t" by (simp add: OpSetEvent ctx_setEvent_def bind_functionID)
  from void_replays [where m = "ctx_setEvent ex ctx k m", OF this] show ?thesis by (simp add: OpSetEvent r)
next
  case (OpSleep d)
  with assms(1) have r: "r = Inr JUndefined" by simp
  show ?thesis
  proof (cases "d \<le> 0")
    case True
    then have "ctx_sleepms ex ctx d s = (Inr (), s)" by (simp add: ctx_sleepms_def retE_def)
    from void_run [where m = "ctx_sleepms ex ctx d", OF this] show ?thesis using assms(2) True by (auto simp: OpSleep r replays_def same_effects_def)
  next
    case False
    let ?m = "sleepms (ex_runtime ex) (workflowUUID ctx) (functionID s) d"
    from False assms(1) OpSleep obtain t where t: "?m (systemDatabase s) = (Inr (), (systemDatabase s)\<lparr>now := t\<rparr>)"
      using sleepms_known by (fastforce simp: knows_row_def op_rows_def)
    from sys_replays(2) [where m = ?m and s = s, OF assms(2) _ t, of "Suc (functionID s)" c] False
    have "\<exists>t. ctx_sleepms ex ctx d s = (Inr (), t) \<and> replays s c t" by (simp add: OpSleep ctx_sleepms_def bind_functionID)
    from void_replays [where m = "ctx_sleepms ex ctx d", OF this] show ?thesis by (simp add: OpSleep r)
  qed
next
  case (OpRecv topic d)
  with assms(3) obtain v where r: "r = Inr v" by (auto simp: stable_def split: sum.splits)
  let ?m = "recv (ex_runtime ex) (wk (functionID s)) (workflowUUID ctx) (functionID s) (Suc (functionID s)) topic d"
  have "?m (systemDatabase s) = (Inr v, systemDatabase s)"
    using assms(1) by (auto simp: OpRecv r knows_row_def op_rows_def recv_def liftE_def)
  from sys_replays(1) [where m = ?m and s = s, OF assms(2) _ this, of "Suc (Suc (functionID s))" c ex ctx] show ?thesis
    by (simp add: OpRecv r ctx_recv_def bind_functionID)
next
  case (OpGetEvent target k d)
  with assms(3) obtain v where r: "r = Inr v" by (auto simp: stable_def split: sum.splits)
  let ?m = "getEvent (ex_runtime ex) (wk (functionID s)) target k d
      (Some \<lparr>cw_workflowUUID = workflowUUID ctx, cw_functionID = functionID s, cw_timeoutFunctionID = Suc (functionID s)\<rparr>)"
  have "?m (systemDatabase s) = (Inr v, systemDatabase s)"
    using assms(1) by (auto simp: OpGetEvent r knows_row_def op_rows_def getEvent_def liftE_def)
  from sys_replays(2) [where m = ?m and s = s, OF assms(2) _ this, of "Suc (Suc (functionID s))" c] show ?thesis
    by (simp add: OpGetEvent r ctx_getEvent_def bind_functionID)
qed

section \<open>Crash and recovery\<close>

fun known_trace :: "runtime \<Rightarrow> uuid \<Rightarrow> ('u, 'x) dbos \<Rightarrow> nat \<Rightarrow> (wfop \<times> (jserror + jsval)) list \<Rightarrow> bool" where
  "known_trace rt u s fid [] = True"
| "known_trace rt u s fid ((c, r) # tr) \<longleftrightarrow> knows rt u s fid c r \<and> known_trace rt u s (fid + width c) tr"

lemma known_trace_mono:
  "known_trace rt u s fid tr \<Longrightarrow> (\<And>f c r. knows rt u s f c r \<Longrightarrow> knows rt u t f c r) \<Longrightarrow> known_trace rt u t fid tr"
  by (induction rt u s fid tr rule: known_trace.induct) auto

lemma run_ops_known:
  assumes "\<And>n. wake_keeps (wk n)"
  shows "run_ops ex ctx fuel wk n p s = (p', tr, t) \<Longrightarrow> ready s \<Longrightarrow> list_all (stable ex) tr \<Longrightarrow>
    ready t \<and> advance (workflowUUID ctx) s t \<and> known_trace (ex_runtime ex) (workflowUUID ctx) t (functionID s) tr"
proof (induction n arbitrary: p s tr)
  case (Suc n)
  show ?case
  proof (cases p)
    case (Call c k)
    obtain r s1 where op: "exec_op ex ctx fuel wk c s = (r, s1)" by fastforce
    obtain tr1 where rest: "run_ops ex ctx fuel wk n (k r) s1 = (p', tr1, t)" and tr: "tr = (c, r) # tr1"
      using Suc.prems(1) Call op by (auto split: prod.splits)
    have m: "moves_on (ex_runtime ex) (workflowUUID ctx) s c r s1"
      using op_moves_on [OF op Suc.prems(2) _ assms] Suc.prems(3) tr by simp
    then have "ready s1" by (simp add: moves_on_def)
    from Suc.IH [OF rest this] Suc.prems(3) tr have
      ih: "ready t" "advance (workflowUUID ctx) s1 t" "known_trace (ex_runtime ex) (workflowUUID ctx) t (functionID s1) tr1" by auto
    moreover have "knows (ex_runtime ex) (workflowUUID ctx) t (functionID s) c r"
      using knows_advance [OF _ ih(2)] m by (simp add: moves_on_def)
    ultimately show ?thesis using m tr advance_trans [OF _ ih(2)] by (auto simp: moves_on_def)
  qed (use Suc.prems in \<open>auto simp: advance_refl\<close>)
qed (auto simp: advance_refl)

text \<open>What a crash leaves: the rows of both logs, whatever other processes added to them since.\<close>

definition survives :: "('u, 'x) dbos \<Rightarrow> ('u, 'x) dbos \<Rightarrow> bool" where
  "survives t x \<longleftrightarrow> (\<forall>k row. txn_log t k = Some row \<longrightarrow> txn_log x k = Some row) \<and>
     (\<forall>k row. op_rows t k = Some row \<longrightarrow> op_rows x k = Some row) \<and> functionID x = 0 \<and> idle x"

lemma survives_crash: "faults t = [] \<Longrightarrow> survives t (crash t)"
  by (simp add: survives_def crash_def txn_log_def op_rows_def idle_def faults_def)

lemma knows_survives:
  assumes "survives t x" "resultBuffer t = []" "knows rt u t fid c r"
  shows "knows rt u x fid c r"
proof (rule knows_advance [OF assms(3)])
  show "advance u t x" using assms(1,2) by (simp add: survives_def advance_def)
qed

lemma knows_same_effects: "same_effects s t \<Longrightarrow> knows rt u s fid c r \<Longrightarrow> knows rt u t fid c r"
proof (erule knows_advance)
  assume e: "same_effects s t"
  then obtain n where "systemDatabase t = (systemDatabase s)\<lparr>now := n\<rparr>" unfolding same_effects_def by blast
  then have "op_rows t = op_rows s" by (simp add: op_rows_def)
  with e show "advance u s t" by (simp add: advance_def same_effects_def)
qed

section \<open>Ways to run a program again\<close>

text \<open>The first operations of a program under any interpretation of the operations.\<close>

fun run_with :: "(wfop \<Rightarrow> ('s, jsval) meth) \<Rightarrow> nat \<Rightarrow> wfprog \<Rightarrow> 's \<Rightarrow> wfprog \<times> (wfop \<times> (jserror + jsval)) list \<times> 's" where
  "run_with opr 0 p s = (p, [], s)"
| "run_with opr (Suc n) (Finish r) s = (Finish r, [], s)"
| "run_with opr (Suc n) (Call c k) s =
     (case opr c s of (r, s') \<Rightarrow> (case run_with opr n (k r) s' of (p, tr, t) \<Rightarrow> (p, (c, r) # tr, t)))"

lemma run_ops_with: "run_ops ex ctx fuel wk n p s = run_with (exec_op ex ctx fuel wk) n p s"
  by (induction n p s rule: run_ops.induct [of _ ex ctx fuel wk]) (auto split: prod.splits)

text \<open>A property of every operation of a trace, given the number it has.\<close>

fun all_at :: "(nat \<Rightarrow> wfop \<Rightarrow> jserror + jsval \<Rightarrow> bool) \<Rightarrow> nat \<Rightarrow> (wfop \<times> (jserror + jsval)) list \<Rightarrow> bool" where
  "all_at P fid [] = True"
| "all_at P fid ((c, r) # tr) \<longleftrightarrow> P fid c r \<and> all_at P (fid + width c) tr"

lemma all_at_mono: "all_at P fid tr \<Longrightarrow> (\<And>f c r. P f c r \<Longrightarrow> Q f c r) \<Longrightarrow> all_at Q fid tr"
  by (induction P fid tr rule: all_at.induct) auto

lemma all_at_list: "list_all P tr \<Longrightarrow> all_at (\<lambda>_ c r. P (c, r)) fid tr"
  by (induction tr arbitrary: fid) auto

text \<open>
  The contract of an interpretation that gives known operations their known outcomes: on a state that
  knows the outcome, and where the operation is good, it returns the outcome and has no effect.
\<close>

locale replayer =
  fixes rt :: runtime and u :: uuid and opr :: "wfop \<Rightarrow> (('u, 'x) dbos, jsval) meth"
    and good :: "('u, 'x) dbos \<Rightarrow> nat \<Rightarrow> wfop \<Rightarrow> jserror + jsval \<Rightarrow> bool"
  assumes op_known: "knows rt u s (functionID s) c r \<Longrightarrow> good s (functionID s) c r \<Longrightarrow> idle s \<Longrightarrow> \<exists>t. opr c s = (r, t) \<and> replays s c t"
    and good_kept: "same_effects (s\<lparr>functionID := n\<rparr>) t \<Longrightarrow> good s f c r \<Longrightarrow> good t f c r"
begin

lemma run_again:
  "run_with first n p s = (p', tr, t) \<Longrightarrow> known_trace rt u x (functionID x) tr \<Longrightarrow> all_at (good x) (functionID x) tr \<Longrightarrow> idle x \<Longrightarrow>
   \<exists>y. run_with opr n p x = (p', tr, y) \<and> same_effects (x\<lparr>functionID := functionID y\<rparr>) y \<and> idle y"
proof (induction n arbitrary: p s tr x)
  case (Suc n)
  show ?case
  proof (cases p)
    case (Call c k)
    obtain r s1 where op1: "first c s = (r, s1)" by fastforce
    obtain tr1 where rest: "run_with first n (k r) s1 = (p', tr1, t)" and tr: "tr = (c, r) # tr1"
      using Suc.prems(1) Call op1 by (auto split: prod.splits)
    have "\<exists>x1. opr c x = (r, x1) \<and> replays x c x1"
      by (rule op_known) (use Suc.prems(2-4) tr in auto)
    then obtain x1 where x1: "opr c x = (r, x1)" "replays x c x1" by blast
    have eff: "same_effects (x\<lparr>functionID := functionID x1\<rparr>) x1" "idle x1" and fid: "functionID x1 = functionID x + width c"
      using x1(2) replays_functionID [OF x1(2)] by (simp_all add: replays_def)
    have up: "knows rt u x f c r \<Longrightarrow> knows rt u x1 f c r" for f c r
      by (rule knows_same_effects [OF eff(1)], cases c) (simp_all add: knows_txn_def knows_row_def txn_log_def op_rows_def)
    have "known_trace rt u x1 (functionID x1) tr1"
      using Suc.prems(2) tr fid by (auto intro: known_trace_mono up)
    moreover have "all_at (good x1) (functionID x1) tr1"
      using Suc.prems(3) tr fid by (auto intro: all_at_mono good_kept [OF eff(1)])
    ultimately obtain y where
      y: "run_with opr n (k r) x1 = (p', tr1, y)" "same_effects (x1\<lparr>functionID := functionID y\<rparr>) y" "idle y"
      using Suc.IH [OF rest _ _ eff(2)] by blast
    have "same_effects (x\<lparr>functionID := functionID y\<rparr>) (x1\<lparr>functionID := functionID y\<rparr>)"
      using eff(1) by (simp add: same_effects_def app_of_def txn_log_def)
    from same_effects_trans [OF this y(2)] y x1(1) tr show ?thesis by (simp add: Call)
  qed (use Suc.prems in \<open>auto simp: same_effects_def\<close>)
qed (auto simp: same_effects_def)

end

text \<open>The context of a workflow that is recovered keeps the contract.\<close>

definition replay_good :: "('u, 'x) dbosExec \<Rightarrow> wctx \<Rightarrow> nat \<Rightarrow> ('u, 'x) dbos \<Rightarrow> nat \<Rightarrow> wfop \<Rightarrow> jserror + jsval \<Rightarrow> bool" where
  "replay_good ex ctx fuel s f c r \<longleftrightarrow> stable ex (c, r) \<and> presetUUID ctx \<and> 0 < fuel"

interpretation cx: replayer "ex_runtime ex" "workflowUUID ctx" "exec_op ex ctx fuel wk" "replay_good ex ctx fuel"
  for ex :: "('u, 'x) dbosExec" and ctx fuel wk
  by unfold_locales (auto simp: replay_good_def intro: op_replays)

lemma run_ops_replay:
  assumes "presetUUID ctx'" "workflowUUID ctx' = workflowUUID ctx" "0 < fuel'"
    and "run_ops ex ctx fuel wk n p s = (p', tr, t)" "list_all (stable ex) tr"
    and "known_trace (ex_runtime ex) (workflowUUID ctx) x (functionID x) tr" "idle x"
  shows "\<exists>y. run_ops ex ctx' fuel' wk' n p x = (p', tr, y) \<and> same_effects (x\<lparr>functionID := functionID y\<rparr>) y \<and> idle y"
proof -
  have "all_at (replay_good ex ctx' fuel' x) (functionID x) tr"
    by (rule all_at_mono [OF all_at_list [OF assms(5)]]) (use assms(1,3) in \<open>simp add: replay_good_def\<close>)
  then show ?thesis
    using cx.run_again [of "exec_op ex ctx fuel wk" n p s p' tr t ex ctx' x fuel' wk'] assms by (simp add: run_ops_with)
qed

section \<open>Recovery\<close>

text \<open>
  The main lemma: recovery repeats what the crashed run had done, without effect, and goes on with the
  rest of the program.
\<close>

lemma recovery_repeats:
  assumes "run_ops ex ctx fuel wk n p s = (p', tr, t)" "ready s" "functionID s = 0" "list_all (stable ex) tr"
    and "\<And>n. wake_keeps (wk n)" "resultBuffer t = []" "survives t x"
    and "presetUUID ctx'" "workflowUUID ctx' = workflowUUID ctx" "0 < fuel'"
  shows "\<exists>y. run_ops ex ctx' fuel' wk' n p x = (p', tr, y) \<and> same_effects (x\<lparr>functionID := functionID y\<rparr>) y \<and>
    run_prog ex ctx' fuel' wk' p x = run_prog ex ctx' fuel' wk' p' y"
proof -
  have "known_trace (ex_runtime ex) (workflowUUID ctx) t 0 tr"
    using run_ops_known [OF assms(5,1,2,4)] assms(3) by simp
  then have "known_trace (ex_runtime ex) (workflowUUID ctx) x (functionID x) tr"
    using assms(7) knows_survives [OF assms(7,6)] by (auto simp: survives_def intro: known_trace_mono)
  from run_ops_replay [OF assms(8-10,1,4) this, of wk'] assms(7) obtain y where
    "run_ops ex ctx' fuel' wk' n p x = (p', tr, y)" "same_effects (x\<lparr>functionID := functionID y\<rparr>) y"
    by (auto simp: survives_def)
  with run_ops_then_rest [OF this(1)] show ?thesis by blast
qed

end
