(* ===== verification/Lifecycle.thy ===== *)
theory Lifecycle
  imports Executor Replay Buffers
begin

text \<open>
  The life of a workflow, over the executor: identifiers of children, registration, a run that succeeds or
  fails and what the system database holds afterwards, recovery of pending workflows, the names of
  temporary workflows, and the buffer of transaction outputs.
\<close>

section \<open>Names of child workflows\<close>

lemma split_last_minus:
  "xs @ CHR ''-'' # ys = xs' @ CHR ''-'' # ys' \<Longrightarrow> CHR ''-'' \<notin> set ys \<Longrightarrow> CHR ''-'' \<notin> set ys' \<Longrightarrow> xs = xs' \<and> ys = ys'"
  by (auto simp: append_eq_append_conv2 append_eq_Cons_conv Cons_eq_append_conv)

lemma child_uuid_inject: "child_uuid u f = child_uuid v g \<longleftrightarrow> u = v \<and> f = g"
  using split_last_minus [of u "nat_str f" v "nat_str g"] nat_str_no_minus by (auto simp: child_uuid_def)

section \<open>Registration\<close>

lemma registerWorkflow_lookup:
  assumes "registerWorkflow cls nm info r = (Inr x, r')" "wf_className wfl = cls" "wf_name wfl = nm" "nm \<noteq> tempWorkflowName"
  shows "getWorkflowInfo r' wfl = Some info"
  using assms by (auto simp: registerWorkflow_def getWorkflowInfo_def em_simps jm_get_set split: if_splits)

lemma registerWorkflow_twice:
  assumes "registerWorkflow cls nm info r = (Inr x, r')" "wf_name (wi_workflow info') \<noteq> tempWorkflowName"
  shows "registerWorkflow cls nm info' r' = (Inl (DBOSError (''Repeated workflow name: '' @ full_name cls nm) 1), r')"
  using assms by (auto simp: registerWorkflow_def em_simps jm_has_iff jm_get_set split: if_splits)

lemma keeps_register: "keeps (\<lambda>r. map_of (workflowInfoMap r) k = Some i) (registerWorkflow cls nm info)"
  "keeps (\<lambda>r. map_of (workflowInfoMap r) k = Some i) (registerTransaction cls nm ti)"
  "keeps (\<lambda>r. map_of (workflowInfoMap r) k = Some i) (registerStep cls nm si)"
  "keeps (\<lambda>r. map_of (workflowInfoMap r) k = Some i) (registerProcedure cls nm proc)"
  by (auto simp: keeps_def registerWorkflow_def registerTransaction_def registerStep_def registerProcedure_def em_simps jm_has_iff jm_get_set)

text \<open>No later registration replaces a workflow.\<close>

lemma registerClass_keeps: "keeps (\<lambda>r. map_of (workflowInfoMap r) k = Some i) (registerClass ops)"
  unfolding registerClass_def
  by (intro keeps_rules) (auto split: op_config.split intro: keeps_register keeps_ret)

text \<open>A registered workflow is found by its class and name, and no later registration replaces it.\<close>

lemma registered_workflow_stays:
  assumes "registerWorkflow cls nm info r = (Inr x, r1)" "nm \<noteq> tempWorkflowName" "wf_className wfl = cls" "wf_name wfl = nm"
    and "registerClass ops r1 = (y, r2)"
  shows "getWorkflowInfo r2 wfl = Some info"
proof -
  have "getWorkflowInfo r1 wfl = Some info" using registerWorkflow_lookup [OF assms(1,3,4,2)] .
  then have "map_of (workflowInfoMap r1) (full_name cls nm) = Some info" using assms(2-4) by (simp add: getWorkflowInfo_def)
  from keeps_result [OF registerClass_keeps this assms(5)] show ?thesis using assms(2-4) by (simp add: getWorkflowInfo_def)
qed

section \<open>Running a workflow to its end\<close>

lemma getQueueByName_run: "jm_get (dx_queues dx) nm = Some q \<Longrightarrow> getQueueByName dx nm s = (Inr q, s)"
  by (simp add: getQueueByName_def retE_def)

text \<open>The queue of a workflow, if it has one, is a registered queue.\<close>

definition queue_known :: "('u, 'x) DBOSExecutor \<Rightarrow> WorkflowStatusInternal \<Rightarrow> bool" where
  "queue_known dx st \<longleftrightarrow> (case or_undefined (wsi_queueName st) of None \<Rightarrow> True | Some nm \<Rightarrow> jm_has (dx_queues dx) nm)"

lemma dequeue_frame:
  assumes "queue_known dx st"
  shows "\<exists>rows. dequeue_if_queued dx st s = (Inr (), s\<lparr>systemDatabase := (systemDatabase s)\<lparr>workflow_queue := rows\<rparr>\<rparr>)"
proof (cases "or_undefined (wsi_queueName st)")
  case None
  then show ?thesis by (intro exI [of _ "workflow_queue (systemDatabase s)"]) (simp add: dequeue_if_queued_def retE_def)
next
  case (Some nm)
  with assms obtain q where "jm_get (dx_queues dx) nm = Some q" by (auto simp: queue_known_def jm_has_iff)
  then show ?thesis
    by (auto simp: dequeue_if_queued_def Some getQueueByName_def on_sys_run dequeueWorkflow_def modifyE_def)
qed

lemma runWorkflow_success:
  assumes "wf_call wfl ctx args s = (Inr v, s1)" "queue_known dx st"
  shows "\<exists>t. runWorkflow dx others wfl params st ctx args s = (Inr v, t) \<and>
    workflowStatusBuffer (systemDatabase t) = jm_set (workflowUUID ctx) (st\<lparr>wsi_output := v, wsi_status := SUCCESS\<rparr>)
      (workflowStatusBuffer (systemDatabase s1)) \<and>
    workflow_status (systemDatabase t) = workflow_status (systemDatabase s1) \<and>
    workflowResultBuffer t = (if resultBuffer s1 = [] then workflowResultBuffer s1
      else jm_set (workflowUUID ctx) (resultBuffer s1) (workflowResultBuffer s1)) \<and>
    (is_single_txn params \<longrightarrow> jm_get (workflowInputsBuffer (systemDatabase t)) (workflowUUID ctx) = Some args)"
proof -
  obtain rows where d: "dequeue_if_queued dx st s1 = (Inr (), s1\<lparr>systemDatabase := (systemDatabase s1)\<lparr>workflow_queue := rows\<rparr>\<rparr>)"
    using dequeue_frame [OF assms(2)] by blast
  show ?thesis
    by (simp add: runWorkflow_def bindE_def finallyE_def catchE_def seqE_def assms(1) d on_sys_run bufferWorkflowOutput_def
        bufferWorkflowInputs_def modifyE_def retE_def whenE_def jm_get_set)
qed

lemma runWorkflow_error:
  assumes "wf_call wfl ctx args s = (Inl e, s1)" "queue_known dx st" "\<And>u. e \<noteq> DBOSWorkflowConflictUUIDError u"
    and "stringify (serializeError (dx_runtime dx) e) = Inr c" "stringify (wsi_request st) = Inr req"
  shows "\<exists>t r. runWorkflow dx others wfl params st ctx args s = (Inl e, t) \<and>
    find_wf (workflowUUID ctx) (systemDatabase t) = Some r \<and> ws_status r = ERROR \<and> ws_error r = c"
proof -
  obtain rows where d: "dequeue_if_queued dx st s1 = (Inr (), s1\<lparr>systemDatabase := (systemDatabase s1)\<lparr>workflow_queue := rows\<rparr>\<rparr>)"
    using dequeue_frame [OF assms(2)] by blast
  obtain roles where roles: "stringify (roles_val (wsi_authenticatedRoles st)) = Inr roles" using stringify_roles by blast
  let ?db = "(systemDatabase s1)\<lparr>workflow_queue := rows\<rparr>"
  let ?row = "(status_row (st\<lparr>wsi_error := c, wsi_status := ERROR\<rparr>) ERROR roles req None c (now ?db))\<lparr>ws_workflow_uuid := workflowUUID ctx\<rparr>"
  let ?db' = "upsert_wf ?row (\<lambda>r. r\<lparr>ws_status := ERROR, ws_error := c, ws_updated_at := now ?db\<rparr>) ?db"
  have "on_workflow_error dx others st (workflowUUID ctx) e s1 =
      bindE (liftE (stringify (serializeError (dx_runtime dx) e))) (\<lambda>c.
      seqE (dequeue_if_queued dx st) (seqE (on_sys (recordWorkflowError (workflowUUID ctx) (st\<lparr>wsi_error := c, wsi_status := ERROR\<rparr>)))
        (raiseE e))) s1"
    using assms(3) by (cases e) (auto simp: on_workflow_error_def)
  also have "\<dots> = (Inl e, s1\<lparr>systemDatabase := ?db'\<rparr>)"
    by (simp add: bindE_def seqE_def liftE_def assms(4,5) d on_sys_run recordWorkflowError_def roles getsE_def modifyE_def raiseE_def)
  finally have h: "on_workflow_error dx others st (workflowUUID ctx) e s1 = (Inl e, s1\<lparr>systemDatabase := ?db'\<rparr>)" .
  have "find_wf (workflowUUID ctx) ?db' \<noteq> None \<and> (\<forall>r. find_wf (workflowUUID ctx) ?db' = Some r \<longrightarrow> ws_status r = ERROR \<and> ws_error r = c)"
    by (auto simp: upsert_wf_def row_find_upsert status_row_def split: option.splits)
  then obtain r where "find_wf (workflowUUID ctx) ?db' = Some r" "ws_status r = ERROR" "ws_error r = c" by blast
  then show ?thesis
    by (cases "is_single_txn params")
      (simp_all add: runWorkflow_def bindE_def finallyE_def catchE_def assms(1) h on_sys_run bufferWorkflowInputs_def modifyE_def retE_def whenE_def)
qed

text \<open>The whole way of a result: run, buffered, written by the next flush, read by anyone who waits for it.\<close>

lemma written_result:
  assumes "written db u st" "wsi_status st = SUCCESS" "canon_val rt (wsi_output st) = Inr v"
  shows "getWorkflowResult rt others u db = (Inr v, db)"
  using assms by (auto simp: written_def getWorkflowResult.simps em_simps canon_val_def split: option.splits)

lemma success_is_read_back:
  assumes "wf_call wfl ctx args s = (Inr v, s1)" "queue_known dx st" "canon_val (dx_runtime dx) v = Inr v"
    and "distinct (map fst (workflowStatusBuffer (systemDatabase s1)))"
    and "\<forall>(u, st') \<in> set (workflowStatusBuffer (systemDatabase s1)). serializable st'" "serializable (st\<lparr>wsi_output := v\<rparr>)"
  shows "\<exists>t db. runWorkflow dx others wfl params st ctx args s = (Inr v, t) \<and>
    flushWorkflowStatusBuffer [] (systemDatabase t) = (Inr (), db) \<and>
    getWorkflowResult (dx_runtime dx) others' (workflowUUID ctx) db = (Inr v, db)"
proof -
  let ?st = "st\<lparr>wsi_output := v, wsi_status := SUCCESS\<rparr>"
  obtain t where t: "runWorkflow dx others wfl params st ctx args s = (Inr v, t)"
    and buf: "workflowStatusBuffer (systemDatabase t) = jm_set (workflowUUID ctx) ?st (workflowStatusBuffer (systemDatabase s1))"
    using runWorkflow_success [OF assms(1,2)] by blast
  have in_set: "set (jm_set k x m) \<subseteq> insert (k, x) (set m)" for k and x :: WorkflowStatusInternal and m
    by (induction m) (auto split: if_splits)
  have "serializable ?st" using assms(6) by (auto simp: serializable_def split: sum.splits)
  then have ser: "\<forall>(u, st') \<in> set (workflowStatusBuffer (systemDatabase t)). serializable st'"
    using in_set [of "workflowUUID ctx" ?st "workflowStatusBuffer (systemDatabase s1)"] assms(5) unfolding buf by blast
  have "distinct (map fst (workflowStatusBuffer (systemDatabase t)))" using assms(4) by (simp add: buf jm_distinct_set)
  from flushWorkflowStatusBuffer_quiet [OF this ser] obtain db where
    db: "flushWorkflowStatusBuffer [] (systemDatabase t) = (Inr (), db)"
      "\<forall>(u, st') \<in> set (workflowStatusBuffer (systemDatabase t)). written db u st'" by blast
  have "map_of (workflowStatusBuffer (systemDatabase t)) (workflowUUID ctx) = Some ?st" by (simp add: buf jm_get_set)
  then have "written db (workflowUUID ctx) ?st" using db(2) by (auto dest: map_of_SomeD)
  from written_result [OF this, of "dx_runtime dx" v others'] assms(3) t db(1) show ?thesis by auto
qed

section \<open>Recovery\<close>

definition recover_one :: "('u, 'x) DBOSExecutor \<Rightarrow> (sysdb \<Rightarrow> sysdb) list \<Rightarrow> uuid \<Rightarrow> ('u, 'x) dbos \<Rightarrow> ('u, 'x) dbos" where
  "recover_one dx others u s = snd (executeWorkflowUUID dx others u False s)"

text \<open>Recovery never throws, and runs every workflow of its list whatever happened to those before it.\<close>

lemma recover_all_total:
  "\<exists>hs. recover_all dx others us s = (Inr hs, foldl (\<lambda>t u. recover_one dx others u t) s us) \<and> length hs \<le> length us"
proof (induction us arbitrary: s)
  case (Cons u us)
  obtain r s1 where x: "executeWorkflowUUID dx others u False s = (r, s1)" by fastforce
  obtain hs where hs: "recover_all dx others us s1 = (Inr hs, foldl (\<lambda>t u. recover_one dx others u t) s1 us)" "length hs \<le> length us"
    using Cons.IH [of s1] by blast
  show ?case
  proof (cases r)
    case (Inl e)
    with x hs show ?thesis by (simp add: recover_one_def bindE_def catchE_def retE_def)
  next
    case (Inr h)
    with x hs show ?thesis by (simp add: recover_one_def bindE_def catchE_def retE_def)
  qed
qed (simp add: retE_def)

lemma recoverPendingWorkflows_total:
  "\<exists>ids hs. recoverPendingWorkflows dx others eids s = (Inr hs, foldl (\<lambda>t u. recover_one dx others u t) s ids) \<and>
    (\<forall>u. u \<in> set ids \<longleftrightarrow> (\<exists>r \<in> set (workflow_status (systemDatabase s)). ws_workflow_uuid r = u \<and> ws_status r = PENDING \<and>
       ws_executor_id r \<in> set eids \<and> \<not> (ws_executor_id r = ''local'' \<and> or_undefined (dx_vmid dx) \<noteq> None)))"
proof -
  let ?ids = "\<lambda>eid. if eid = ''local'' \<and> or_undefined (dx_vmid dx) \<noteq> None then []
     else map ws_workflow_uuid (filter (\<lambda>r. ws_status r = PENDING \<and> ws_executor_id r = eid) (workflow_status (systemDatabase s)))"
  have "mapE (\<lambda>eid. if eid = ''local'' \<and> or_undefined (dx_vmid dx) \<noteq> None then retE []
              else on_sys (getPendingWorkflows eid)) eids s = (Inr (map ?ids eids), s)"
    by (induction eids) (auto simp: retE_def bindE_def on_sys_run getPendingWorkflows_def getsE_def)
  then have "recoverPendingWorkflows dx others eids s = recover_all dx others (concat (map ?ids eids)) s"
    by (simp add: recoverPendingWorkflows_def bindE_def)
  moreover obtain hs where "recover_all dx others (concat (map ?ids eids)) s =
      (Inr hs, foldl (\<lambda>t u. recover_one dx others u t) s (concat (map ?ids eids)))"
    using recover_all_total by blast
  ultimately show ?thesis
    by (intro exI [of _ "concat (map ?ids eids)"] exI [of _ hs]) auto
qed

section \<open>Temporary workflows\<close>

lemma class_of_full: "class_of (full_name cls nm) nm = cls"
  by (simp add: class_of_def full_name_def)

lemma temp_parts:
  assumes "CHR ''-'' \<notin> set ty" "CHR ''-'' \<notin> set nm"
  shows "split_on (CHR ''-'') (tempWorkflowName @ ''-'' @ ty @ ''-'' @ nm) = [tempWorkflowName, ty, nm]"
proof -
  have "CHR ''-'' \<notin> set tempWorkflowName" by (simp add: tempWorkflowName_def)
  with assms show ?thesis by (simp add: split_on_append split_on_no)
qed

text \<open>The name recorded for a single transaction or step leads recovery back to it.\<close>

lemma temp_transaction_found:
  assumes "jm_get (transactionInfos (dx_registry dx)) (full_name cls nm) = Some info" "ti_name info = nm" "CHR ''-'' \<notin> set nm"
    and "wst_workflowName st = tempWorkflowName @ ''-'' @ ''transaction'' @ ''-'' @ nm" "wst_workflowClassName st = cls"
  shows "temp_by_name dx u st = Inr (''transaction'', nm, cls,
    temp_workflow (\<lambda>ctx. transaction (exec_of dx) ctx (dx_fuel dx) (full_name cls nm)))"
  using assms temp_parts [of "''transaction''" nm]
  by (simp add: temp_by_name_def Let_def nth_str_def getTransactionInfoByNames_def info_by_names_def class_of_full)

lemma temp_step_found:
  assumes "jm_get (stepInfos (dx_registry dx)) (full_name cls nm) = Some info" "si_name info = nm" "CHR ''-'' \<notin> set nm"
    and "wst_workflowName st = tempWorkflowName @ ''-'' @ ''external'' @ ''-'' @ nm" "wst_workflowClassName st = cls"
  shows "temp_by_name dx u st = Inr (''external'', nm, cls,
    temp_workflow (\<lambda>ctx. external (exec_of dx) ctx (full_name cls nm)))"
  using assms temp_parts [of "''external''" nm]
  by (simp add: temp_by_name_def Let_def nth_str_def getStepInfoByNames_def info_by_names_def class_of_full)

text \<open>There is no such way back for a stored procedure.\<close>

lemma temp_procedure_lost:
  assumes "CHR ''-'' \<notin> set nm" "wst_workflowName st = tempWorkflowName @ ''-'' @ ''procedure'' @ ''-'' @ nm"
  shows "temp_by_name dx u st = Inl (DBOSNotRegisteredError (wst_workflowName st))"
  using assms temp_parts [of "''procedure''" nm] by (simp add: temp_by_name_def Let_def nth_str_def)

section \<open>No buffered transaction output is lost\<close>

definition rows_logged :: "('u, 'x) dbos \<Rightarrow> uuid \<Rightarrow> (nat, BufferedResult) jmap \<Rightarrow> bool" where
  "rows_logged s u buf \<longleftrightarrow> (\<forall>(f, b) \<in> set buf. \<exists>row. txn_log s (u, f) = Some row \<and>
     stringify (buffered_output b) = Inr (to_output row))"

definition result_keys :: "(uuid \<times> (nat, BufferedResult) jmap) list \<Rightarrow> (uuid \<times> nat) list" where
  "result_keys batch = concat (map (\<lambda>(u, buf). map (\<lambda>(f, _). (u, f)) buf) batch)"

lemma buffer_rows_in:
  "buffer_rows buf = Inr rows \<Longrightarrow> map fst rows = map fst buf \<and>
   (\<forall>(f, b) \<in> set buf. \<exists>row. (f, row) \<in> set rows \<and> stringify (buffered_output b) = Inr (to_output row))"
  unfolding buffer_rows_def
  by (induction buf arbitrary: rows)
    (auto simp: traverse_Cons_Inr bindR_def split: sum.splits simp del: traverse.simps(2), fastforce)

lemma result_rows_Cons:
  "result_rows ((u, buf) # batch) = Inr rows \<longleftrightarrow>
   (\<exists>rs rest. buffer_rows buf = Inr rs \<and> result_rows batch = Inr rest \<and> rows = map (\<lambda>(f, r). ((u, f), r)) rs @ rest)"
  by (auto simp: result_rows_def bindR_def split: sum.splits)

lemma result_rows_in:
  "result_rows batch = Inr rows \<Longrightarrow> map fst rows = result_keys batch \<and>
   (\<forall>(u, buf) \<in> set batch. \<forall>(f, b) \<in> set buf. \<exists>row. ((u, f), row) \<in> set rows \<and> stringify (buffered_output b) = Inr (to_output row))"
proof (induction batch arbitrary: rows)
  case (Cons x batch)
  obtain u buf where x: "x = (u, buf)" by (cases x)
  from Cons.prems x obtain rs rest where p: "buffer_rows buf = Inr rs" "result_rows batch = Inr rest"
    "rows = map (\<lambda>(f, r). ((u, f), r)) rs @ rest" by (auto simp: result_rows_Cons)
  note b = buffer_rows_in [OF p(1)] and c = Cons.IH [OF p(2)]
  have "map fst (map (\<lambda>(f, r). ((u, f), r)) rs) = map (Pair u) (map fst rs)" by (simp add: split_def)
  also have "\<dots> = map (\<lambda>(f, _). (u, f)) buf" using b by (simp add: split_def comp_def)
  finally have "map fst rows = result_keys (x # batch)" using c by (simp add: p(3) x result_keys_def)
  moreover have "\<exists>row. ((v, f), row) \<in> set rows \<and> stringify (buffered_output d) = Inr (to_output row)"
    if "(v, bf) \<in> set (x # batch)" "(f, d) \<in> set bf" for v bf f d
  proof (cases "(v, bf) = x")
    case True
    with that(2) x b obtain row where "(f, row) \<in> set rs" "stringify (buffered_output d) = Inr (to_output row)" by blast
    with True x show ?thesis by (auto simp: p(3) intro!: exI [of _ row])
  next
    case False
    with that c have "\<exists>row. ((v, f), row) \<in> set rest \<and> stringify (buffered_output d) = Inr (to_output row)" by fastforce
    then show ?thesis by (auto simp: p(3))
  qed
  ultimately show ?case by blast
qed (simp add: result_rows_def result_keys_def)

lemma fold_keys_other: "k \<notin> fst ` set rows \<Longrightarrow> foldl (\<lambda>m (k, r). m(k \<mapsto> r)) m rows k = m k"
  by (induction rows arbitrary: m) auto

lemma fold_keys_in: "distinct (map fst rows) \<Longrightarrow> (k, r) \<in> set rows \<Longrightarrow> foldl (\<lambda>m (k, r). m(k \<mapsto> r)) m rows k = Some r"
  by (induction rows arbitrary: m) (auto simp: fold_keys_other)

lemma insert_results_ok:
  assumes "on_user (insert_results sq rows) s = (Inr x, t)"
  shows "\<And>k r. txn_log s k = Some r \<Longrightarrow> txn_log t k = Some r"
    and "distinct (map fst rows) \<Longrightarrow> (k, r) \<in> set rows \<Longrightarrow> txn_log t k = Some r"
    and "workflowResultBuffer t = workflowResultBuffer s"
proof -
  from assms have abs: "\<forall>(k, _) \<in> set rows. txn_log s k = None" and t: "t = s\<lparr>userDatabase := (userDatabase s)\<lparr>transaction_outputs :=
      foldl (\<lambda>m (k, r). m(k \<mapsto> r)) (txn_log s) rows\<rparr>\<rparr>"
    by (auto simp: on_user_run insert_results_def txn_log_def list_ex_iff split: if_splits prod.splits)
  have log: "txn_log t = foldl (\<lambda>m (k, r). m(k \<mapsto> r)) (txn_log s) rows" by (simp add: t txn_log_def)
  show "txn_log t k = Some r" if "txn_log s k = Some r" for k r
    using abs that by (subst log, subst fold_keys_other) auto
  show "txn_log t k = Some r" if "distinct (map fst rows)" "(k, r) \<in> set rows" by (simp add: log fold_keys_in that)
  show "workflowResultBuffer t = workflowResultBuffer s" by (simp add: t)
qed

lemma insert_results_fails: "on_user (insert_results sq rows) s = (Inl e, t) \<Longrightarrow> t = s"
  by (auto simp: on_user_run insert_results_def split: if_splits)

lemma distinct_result_keys:
  "distinct (map fst batch) \<Longrightarrow> \<forall>(u, buf) \<in> set batch. distinct (map fst buf) \<Longrightarrow> distinct (result_keys batch)"
  by (induction batch) (auto simp: result_keys_def distinct_map inj_on_def split_def rev_image_eqI)

definition bufs_ok :: "(uuid, (nat, BufferedResult) jmap) jmap \<Rightarrow> bool" where
  "bufs_ok m \<longleftrightarrow> distinct (map fst m) \<and> (\<forall>(u, buf) \<in> set m. distinct (map fst buf))"

lemma bufs_ok_parts: "bufs_ok m \<Longrightarrow> bufs_ok (jm_del_all ks m)" "bufs_ok m \<Longrightarrow> bufs_ok (take n m)"
proof -
  have "set (jm_del_all ks m) \<subseteq> set m" by (auto simp: jm_del_all_def)
  then show "bufs_ok m \<Longrightarrow> bufs_ok (jm_del_all ks m)" by (auto simp: bufs_ok_def distinct_del_all)
  show "bufs_ok m \<Longrightarrow> bufs_ok (take n m)" by (auto simp: bufs_ok_def distinct_fst_take dest: in_set_takeD)
qed

abbreviation arrived :: "(uuid \<times> (nat, BufferedResult) jmap) list \<Rightarrow> ('u, 'x) dbos \<Rightarrow> ('u, 'x) dbos" where
  "arrived xs s \<equiv> s\<lparr>workflowResultBuffer := put_all xs (workflowResultBuffer s)\<rparr>"

lemma txn_log_arrived [simp]: "txn_log (arrived xs s) = txn_log s"
  by (simp add: txn_log_def)

text \<open>One turn of the loop either stops with the batch kept, or writes the batch.\<close>

lemma flushResultBatches_turn:
  assumes "flushResultBatches sq evs fin tot (l, s) = (r, (l', t))"
  obtains (stop) xs where "(\<exists>e. r = Inl e) \<or> tot \<le> fin" "l' = l" "t = arrived xs s" "xs = [] \<or> (\<exists>e \<in> set evs. snd e = xs)"
  | (go) rows x s1 xs where "take 50 l \<noteq> []" "result_rows (take 50 l) = Inr rows" "on_user (insert_results sq rows) s = (Inr x, s1)"
      "xs = [] \<or> (\<exists>e \<in> set evs. snd e = xs)" "fin < tot"
      "flushResultBatches sq (tl evs) (fin + length (take 50 l)) tot (jm_del_all (map fst (take 50 l)) l, arrived xs s1) = (r, (l', t))"
proof (cases "fin < tot \<and> take 50 l \<noteq> []")
  case False
  with assms have "(\<exists>e. r = Inl e) \<or> tot \<le> fin" "l' = l" "t = s"
    by (auto simp: flushResultBatches.simps [of sq evs fin tot l s] Let_def split: if_splits prod.splits)
  then show ?thesis using stop [of "[]"] by (simp add: put_all_def)
next
  case True
  obtain flt xs where ev: "(case evs of [] \<Rightarrow> (None, []) | e # _ \<Rightarrow> e) = (flt, xs)" by fastforce
  then have xs: "xs = [] \<or> (\<exists>e \<in> set evs. snd e = xs)" by (cases evs) auto
  note run = assms [unfolded flushResultBatches.simps [of sq evs fin tot l s] Let_def ev prod.case]
  show ?thesis
  proof (cases "result_rows (take 50 l)")
    case (Inl e)
    with True run have "\<exists>e. r = Inl e" "l' = l" "t = s" by auto
    then show ?thesis using stop [of "[]"] by (simp add: put_all_def)
  next
    case (Inr rows)
    show ?thesis
    proof (cases flt)
      case (Some e)
      with True run Inr have "\<exists>e. r = Inl e" "l' = l" "t = arrived xs s" by auto
      with xs show ?thesis using stop by blast
    next
      case None
      obtain q s1 where ins: "on_user (insert_results sq rows) s = (q, s1)" by fastforce
      show ?thesis
      proof (cases q)
        case (Inl e)
        with ins insert_results_fails have "s1 = s" by blast
        with True run Inr None ins Inl have "\<exists>e. r = Inl e" "l' = l" "t = arrived xs s" by auto
        with xs show ?thesis using stop by blast
      next
        case (Inr x)
        show ?thesis
          by (rule go [OF _ \<open>result_rows (take 50 l) = Inr rows\<close> ins [unfolded Inr] xs])
            (use True run \<open>result_rows (take 50 l) = Inr rows\<close> None ins Inr in auto)
      qed
    qed
  qed
qed

lemma rows_logged_mono: "rows_logged s u buf \<Longrightarrow> (\<And>k r. txn_log s k = Some r \<Longrightarrow> txn_log t k = Some r) \<Longrightarrow> rows_logged t u buf"
  unfolding rows_logged_def by blast

lemma batch_logged:
  assumes "bufs_ok batch" "result_rows batch = Inr rows" "on_user (insert_results sq rows) s = (Inr x, t)" "(u, buf) \<in> set batch"
  shows "rows_logged t u buf"
proof -
  note b = result_rows_in [OF assms(2)]
  have "distinct (map fst rows)" using b assms(1) distinct_result_keys [of batch] by (simp add: bufs_ok_def)
  note ins = insert_results_ok(2) [OF assms(3) this]
  have "\<exists>row. ((u, f), row) \<in> set rows \<and> stringify (buffered_output c) = Inr (to_output row)" if "(f, c) \<in> set buf" for f c
    using b assms(4) that by blast
  then show ?thesis using ins unfolding rows_logged_def by blast
qed

lemma flushResultBatches_once:
  "flushResultBatches sq evs fin tot (l, s) = (r, (l', t)) \<Longrightarrow> bufs_ok l \<Longrightarrow>
   (\<forall>k r. txn_log s k = Some r \<longrightarrow> txn_log t k = Some r) \<and>
   (map_of l u = Some buf \<longrightarrow> map_of l' u = Some buf \<or> rows_logged t u buf) \<and>
   (map_of (workflowResultBuffer t) u = Some b' \<longrightarrow> map_of (workflowResultBuffer s) u = Some b' \<or> (\<exists>e \<in> set evs. (u, b') \<in> set (snd e)))"
proof (induction "length l" arbitrary: evs fin l s rule: less_induct)
  case less
  let ?b = "take 50 l"
  have arr: "map_of (put_all xs m) u = Some b' \<Longrightarrow> xs = [] \<or> (\<exists>e \<in> set evs. snd e = xs) \<Longrightarrow>
      map_of m u = Some b' \<or> (\<exists>e \<in> set evs. (u, b') \<in> set (snd e))" for xs m
    by (auto simp: map_of_put_all dest!: map_of_SomeD [of "rev xs"] split: option.splits) force
  from less.prems(1) show ?case
  proof (cases rule: flushResultBatches_turn)
    case (stop xs)
    then show ?thesis using arr [of xs "workflowResultBuffer s"] by auto
  next
    case (go rows x s1 xs)
    note ins = insert_results_ok [OF go(3)]
    have sub: "set ?b \<subseteq> set l" by (auto dest: in_set_takeD)
    have "length (jm_del_all (map fst ?b) l) < length l" using jm_del_all_shorter [OF go(1) sub] .
    note IH = less.hyps [OF this go(6) bufs_ok_parts(1) [OF less.prems(2)]]
    have grow: "txn_log t k = Some row" if "txn_log s k = Some row" for k row
      using IH ins(1) [OF that] by (cases k) simp
    have "map_of l' u = Some buf \<or> rows_logged t u buf" if "map_of l u = Some buf"
    proof (cases "u \<in> set (map fst ?b)")
      case True
      then obtain buf' where b': "(u, buf') \<in> set ?b" by auto
      with sub less.prems(2) have "map_of l u = Some buf'" by (auto simp: bufs_ok_def intro: map_of_is_SomeI)
      with that b' have "(u, buf) \<in> set ?b" by simp
      from batch_logged [OF bufs_ok_parts(2) [OF less.prems(2)] go(2,3) this] have "rows_logged s1 u buf" .
      then have "rows_logged t u buf" by (rule rows_logged_mono) (use IH in auto)
      then show ?thesis ..
    next
      case False
      with IH that show ?thesis by (simp add: map_of_del_all)
    qed
    moreover have "map_of (workflowResultBuffer s) u = Some b' \<or> (\<exists>e \<in> set evs. (u, b') \<in> set (snd e))"
      if "map_of (workflowResultBuffer t) u = Some b'"
    proof -
      from IH that have "map_of (workflowResultBuffer (arrived xs s1)) u = Some b' \<or> (\<exists>e \<in> set (tl evs). (u, b') \<in> set (snd e))" by simp
      then show ?thesis using arr [of xs "workflowResultBuffer s"] go(4) ins(3) by (cases evs) auto
    qed
    ultimately show ?thesis using grow by blast
  qed
qed

lemma flushResultBatches_all:
  "flushResultBatches sq evs fin tot (l, s) = (Inr x, (l', t)) \<Longrightarrow> distinct (map fst l) \<Longrightarrow> tot = fin + length l \<Longrightarrow> l' = []"
proof (induction "length l" arbitrary: evs fin l s rule: less_induct)
  case less
  from less.prems(1) show ?case
  proof (cases rule: flushResultBatches_turn)
    case (stop xs)
    with less.prems(3) show ?thesis by auto
  next
    case (go rows y s1 xs)
    have "length (jm_del_all (map fst (take 50 l)) l) < length l"
      using jm_del_all_shorter [OF go(1)] by (auto dest: in_set_takeD)
    from less.hyps [OF this go(6)] show ?thesis
      using less.prems(2,3) by (simp add: del_all_take distinct_drop drop_map [symmetric])
  qed
qed

lemma flushWorkflowResultBuffer_no_loss:
  assumes "bufs_ok (workflowResultBuffer s)" "map_of (workflowResultBuffer s) u = Some buf"
    and "flushWorkflowResultBuffer dx evs s = (r, t)"
  shows "r = Inr () \<and> (rows_logged t u buf \<or> map_of (workflowResultBuffer t) u = Some buf \<or>
    (\<exists>e \<in> set evs. \<exists>buf'. (u, buf') \<in> set (snd e) \<and> map_of (workflowResultBuffer t) u = Some buf'))"
proof -
  let ?s = "s\<lparr>workflowResultBuffer := []\<rparr>"
  obtain q l d where run: "flushResultBatches (dx_sqlError dx) evs 0 (length (workflowResultBuffer s)) (workflowResultBuffer s, ?s) = (q, (l, d))"
    by (metis prod.exhaust)
  note once = flushResultBatches_once [OF run assms(1)]
  show ?thesis
  proof (cases q)
    case (Inl e)
    with assms(3) run have t: "r = Inr ()" "t = d\<lparr>workflowResultBuffer := jm_restore l (workflowResultBuffer d)\<rparr>"
      by (auto simp: flushWorkflowResultBuffer_def)
    have "rows_logged t u buf = rows_logged d u buf" by (simp add: t rows_logged_def txn_log_def)
    then show ?thesis using once [of u buf] assms(2) t by (auto simp: jm_get_restore split: option.splits)
  next
    case (Inr x)
    with assms(1) run have "l = []" by (auto simp: bufs_ok_def dest!: flushResultBatches_all)
    moreover from Inr assms(3) run have "r = Inr ()" "t = d" by (auto simp: flushWorkflowResultBuffer_def)
    ultimately show ?thesis using once [of u buf] assms(2) by auto
  qed
qed

end
