(* ===== verification/SysInvariant.thy ===== *)
theory SysInvariant
  imports Messaging Queues Buffers
begin

text \<open>
  The system database as a state machine: \<open>sysstep\<close> has one rule per operation of
  \<open>PostgresSystemDatabase\<close> that writes, \<open>sysreach\<close> are the states reached from the empty database.
  The primary and foreign keys (\<open>sys_ok\<close>) hold in every reachable state; waiting operations let
  other sessions run, which are assumed to keep the same invariant.
\<close>

inductive sysstep :: "sysdb \<Rightarrow> sysdb \<Rightarrow> bool" where
  init: "initWorkflowStatus rt st args db = (r0, db') \<Longrightarrow> sysstep db db'"
| error: "recordWorkflowError u st db = (r1, db') \<Longrightarrow> sysstep db db'"
| set_status: "setWorkflowStatus u stat b db = (r1, db') \<Longrightarrow> sysstep db db'"
| record_output: "recordOperationOutput u f v db = (r1, db') \<Longrightarrow> sysstep db db'"
| record_error: "recordOperationError rt u f e db = (r1, db') \<Longrightarrow> sysstep db db'"
| sleep: "sleepms rt u f d db = (r1, db') \<Longrightarrow> sysstep db db'"
| send: "send u f dest m topic db = (r1, db') \<Longrightarrow> sysstep db db'"
| recv: "recv rt w u f tf topic d db = (r2, db') \<Longrightarrow> (\<And>x. sys_ok x \<Longrightarrow> sys_ok (others_of w x)) \<Longrightarrow> sysstep db db'"
| set_event: "setEvent u f k m db = (r1, db') \<Longrightarrow> sysstep db db'"
| get_event: "getEvent rt w u k d caller db = (r2, db') \<Longrightarrow> (\<And>x. sys_ok x \<Longrightarrow> sys_ok (others_of w x)) \<Longrightarrow> sysstep db db'"
| status: "getWorkflowStatus rt u caller db = (r2, db') \<Longrightarrow> sysstep db db'"
| buffer_out: "bufferWorkflowOutput u st db = (r1, db') \<Longrightarrow> sysstep db db'"
| buffer_in: "bufferWorkflowInputs u args db = (r1, db') \<Longrightarrow> sysstep db db'"
| flush: "flushWorkflowSystemBuffers evs evs' db = (r1, db') \<Longrightarrow> sysstep db db'"
| enqueue: "enqueueWorkflow u q db = (r1, db') \<Longrightarrow> sysstep db db'"
| dequeue: "dequeueWorkflow u q db = (r1, db') \<Longrightarrow> sysstep db db'"
| claim: "findAndMarkStartableWorkflows q db = (r3, db') \<Longrightarrow> sysstep db db'"
| schedule: "setLastScheduledTime nm t db = (r4, db') \<Longrightarrow> sysstep db db'"

inductive sysreach :: "sysdb \<Rightarrow> bool" where
  empty: "sysreach (empty_sysdb t)"
| step: "sysreach db \<Longrightarrow> sysstep db db' \<Longrightarrow> sysreach db'"

lemma keeps_recordOperationError [keeps_rules]: "keeps sys_ok (recordOperationError rt u f e)"
  unfolding recordOperationError_def by (intro keeps_rules)

lemma sys_ok_queue:
  assumes "sys_ok db" "pk wq_workflow_uuid rows" "\<And>r. r \<in> set rows \<Longrightarrow> has_wf db (wq_workflow_uuid r)"
  shows "sys_ok (db\<lparr>workflow_queue := rows\<rparr>)"
  using assms by (auto simp: sys_ok_def has_wf_def)

lemma keeps_enqueue: "keeps sys_ok (enqueueWorkflow u q)"
proof (rule keepsI)
  fix db assume ok: "sys_ok db"
  let ?r = "\<lparr>wq_workflow_uuid = u, wq_queue_name = q_name q, wq_created_at_epoch_ms = now db,
     wq_started_at_epoch_ms = None, wq_completed_at_epoch_ms = None\<rparr>"
  have "sys_ok (db\<lparr>workflow_queue := workflow_queue db @ [?r]\<rparr>)"
    if "row_find wq_workflow_uuid u (workflow_queue db) = None" "has_wf db u"
  proof (rule sys_ok_queue [OF ok])
    show "pk wq_workflow_uuid (workflow_queue db @ [?r])"
      using sys_okD(2) [OF ok] that(1) by (auto simp: pk_def row_find_None)
    show "has_wf db (wq_workflow_uuid r)" if "r \<in> set (workflow_queue db @ [?r])" for r
      using that sys_okD(7) [OF ok] \<open>has_wf db u\<close> by auto
  qed
  with ok show "sys_ok (snd (enqueueWorkflow u q db))" by (auto simp: enqueueWorkflow_def has_wf_def)
qed

lemma sys_ok_queue_keys:
  assumes "sys_ok db" "map wq_workflow_uuid rows = map wq_workflow_uuid (workflow_queue db)"
  shows "sys_ok (db\<lparr>workflow_queue := rows\<rparr>)"
proof (rule sys_ok_queue [OF assms(1)])
  show "pk wq_workflow_uuid rows" using sys_okD(2) [OF assms(1)] assms(2) by (simp add: pk_def)
  fix r assume "r \<in> set rows"
  then have "wq_workflow_uuid r \<in> set (map wq_workflow_uuid (workflow_queue db))" using assms(2) [symmetric] by (metis image_eqI set_map)
  then show "has_wf db (wq_workflow_uuid r)" using sys_okD(7) [OF assms(1)] by auto
qed

lemma sys_ok_queue_filter: "sys_ok db \<Longrightarrow> sys_ok (db\<lparr>workflow_queue := filter P (workflow_queue db)\<rparr>)"
  by (rule sys_ok_queue) (auto intro: pk_filter sys_okD)

lemma keeps_dequeue: "keeps sys_ok (dequeueWorkflow u q)"
  unfolding dequeueWorkflow_def row_delete_def
  by (intro keeps_rules keeps_modify sys_ok_queue_keys sys_ok_queue_filter keys_update) auto

lemma sys_ok_claim_loop: "sys_ok db \<Longrightarrow> sys_ok (snd (claim_loop q t n acc ids db))"
proof (induction q t n acc ids db rule: claim_loop.induct)
  case (2 q t n acc u ids db)
  let ?db = "update_wf u (\<lambda>r. r\<lparr>ws_status := PENDING\<rparr>) db"
  have "sys_ok ?db" using "2.prems" by (rule sys_ok_update) simp
  then have "sys_ok (set_started u t ?db)"
    unfolding set_started_def by (rule sys_ok_queue_keys) (simp add: keys_update)
  with 2 show ?case by auto
qed simp

lemma keeps_claim: "keeps sys_ok (findAndMarkStartableWorkflows q)"
proof (rule keepsI)
  fix db assume ok: "sys_ok db"
  have "sys_ok (collect_garbage q d)" if "sys_ok d" for d
    unfolding collect_garbage_def using that by (rule sys_ok_queue_filter)
  with ok sys_ok_claim_loop [OF ok] show "sys_ok (snd (findAndMarkStartableWorkflows q db))"
    by (simp add: findAndMarkStartableWorkflows_def Let_def split_def)
qed

lemma sys_ok_buffers: "sys_ok db \<Longrightarrow> sys_ok (db\<lparr>workflowStatusBuffer := a\<rparr>)" "sys_ok db \<Longrightarrow> sys_ok (db\<lparr>workflowInputsBuffer := b\<rparr>)"
  "sys_ok db \<Longrightarrow> sys_ok (arrive e db)"
  by (auto simp: sys_ok_def has_wf_def)

lemma sys_ok_upsert_statuses: "sys_ok db \<Longrightarrow> sys_ok (upsert_statuses rows db)"
proof (induction rows arbitrary: db)
  case (Cons r rows)
  have "sys_ok (upsert_wf r (excluded r) db)" using Cons.prems by (rule sys_ok_upsert) (simp add: excluded_def)
  from Cons.IH [OF this] show ?case by (simp add: upsert_statuses_Cons)
qed (simp add: upsert_statuses_def)

lemma sys_ok_status_batches: "sys_ok db \<Longrightarrow> flushStatusBatches evs fin tot (l, db) = (r, (l', db')) \<Longrightarrow> sys_ok db'"
proof (induction evs fin tot "(l, db)" arbitrary: l db rule: flushStatusBatches.induct)
  case (1 evs fin tot l db)
  show ?case
  proof (cases "\<exists>rows. fin < tot \<and> status_values (now db) (take flushBatchSize l) = Inr rows \<and> take flushBatchSize l \<noteq> [] \<and> io_error (next_io evs) = None")
    case False
    then show ?thesis using 1(2,3)
      by (subst (asm) flushStatusBatches.simps) (auto simp: Let_def sys_ok_buffers split: if_splits sum.splits option.splits)
  next
    case True
    then obtain rows where g: "fin < tot" "status_values (now db) (take flushBatchSize l) = Inr rows" "take flushBatchSize l \<noteq> []"
      "io_error (next_io evs) = None" by blast
    have "sys_ok (arrive (next_io evs) (upsert_statuses rows db))" using 1(2) by (intro sys_ok_buffers sys_ok_upsert_statuses)
    from "1.hyps" [OF g(1) refl g(2-4) this] show ?thesis using 1(3) g by (subst (asm) flushStatusBatches.simps) (simp add: Let_def)
  qed
qed

lemma sys_ok_insert_inputs:
  assumes "sys_ok db" "insert_inputs rows db = (r, d)"
  shows "sys_ok d"
proof (cases r)
  case (Some e)
  with assms insert_inputs_error show ?thesis by blast
next
  case None
  note e = insert_inputs_effect [OF assms(2) [unfolded None]]
  have "has_wf db u" if "workflow_inputs d u \<noteq> None" for u
  proof (cases "workflow_inputs db u")
    case (Some c)
    then show ?thesis using sys_okD(4) [OF assms(1)] by blast
  next
    case none: None
    with that e(1) have "map_of rows u \<noteq> None" by auto
    then obtain c where "(u, c) \<in> set rows" by (auto dest: map_of_SomeD)
    with assms(2) None none show ?thesis
      by (auto simp: insert_inputs_def list_all_iff has_wf_def split: if_splits)
  qed
  then show ?thesis by (subst e(2), intro sys_ok_same_wf [OF assms(1)]) (auto intro: sys_okD [OF assms(1)])
qed

lemma sys_ok_input_batches: "sys_ok db \<Longrightarrow> flushInputsBatches evs fin tot (l, db) = (r, (l', db')) \<Longrightarrow> sys_ok db'"
proof (induction "tot - fin" arbitrary: evs fin l db rule: less_induct)
  case less
  obtain n b where sc: "scan_inputs (workflowStatusBuffer db) 0 l = (n, b)" by fastforce
  have skip: "sys_ok db'" if "fin < tot" "n \<noteq> 0" "flushInputsBatches evs (fin + n) tot (l, db) = (r, (l', db'))"
    by (rule less.hyps [OF _ less.prems(1) that(3)]) (use that in linarith)
  have go: "sys_ok db'" if "fin < tot" "n \<noteq> 0" "insert_inputs rows db = (x, d)"
    "flushInputsBatches (tl evs) (fin + n) tot (jm_del_all (map fst b) l, arrive (next_io evs) d) = (r, (l', db'))" for rows x d
    by (rule less.hyps [OF _ sys_ok_buffers(3) [OF sys_ok_insert_inputs [OF less.prems(1) that(3)]] that(4)]) (use that in linarith)
  note run = less.prems(2) [unfolded flushInputsBatches.simps [of evs fin tot l db] sc prod.case]
  have stop: "sys_ok (arrive e d)" if "insert_inputs rows db = (x, d)" for e rows x d
    using sys_ok_insert_inputs [OF less.prems(1) that] by (rule sys_ok_buffers)
  from run show ?case using less.prems(1) sys_ok_buffers(3) [OF less.prems(1)]
    by (auto simp: Let_def dest: skip go stop split: if_splits sum.splits option.splits prod.splits)
qed

lemma keeps_flush: "keeps sys_ok (flushWorkflowSystemBuffers evs evs')"
proof -
  have "keeps sys_ok (flushWorkflowStatusBuffer evs)"
  proof (rule keepsI)
    fix db assume ok: "sys_ok db"
    obtain r l d where run: "flushStatusBatches evs 0 (length (workflowStatusBuffer db)) (workflowStatusBuffer db, db\<lparr>workflowStatusBuffer := []\<rparr>) = (r, (l, d))"
      by (metis prod.exhaust)
    from sys_ok_status_batches [OF sys_ok_buffers(1) [OF ok] run] show "sys_ok (snd (flushWorkflowStatusBuffer evs db))"
      by (simp add: flushWorkflowStatusBuffer_eq [OF run] sys_ok_buffers)
  qed
  moreover have "keeps sys_ok (flushWorkflowInputsBuffer evs')"
  proof (rule keepsI)
    fix db assume ok: "sys_ok db"
    obtain r l d where run: "flushInputsBatches evs' 0 (length (workflowInputsBuffer db)) (workflowInputsBuffer db, db\<lparr>workflowInputsBuffer := []\<rparr>) = (r, (l, d))"
      by (metis prod.exhaust)
    from sys_ok_input_batches [OF sys_ok_buffers(2) [OF ok] run] show "sys_ok (snd (flushWorkflowInputsBuffer evs' db))"
      by (cases r) (auto simp: flushWorkflowInputsBuffer_def Let_def em_simps run sys_ok_buffers)
  qed
  ultimately show ?thesis unfolding flushWorkflowSystemBuffers_def by (rule keeps_seq)
qed

lemma sysstep_ok: "sysstep db db' \<Longrightarrow> sys_ok db \<Longrightarrow> sys_ok db'"
proof (induction rule: sysstep.induct)
  case (flush evs evs' db r1 db')
  then show ?case using keeps_result [OF keeps_flush] by blast
next
  case (enqueue u q db r1 db')
  then show ?case using keeps_result [OF keeps_enqueue] by blast
next
  case (dequeue u q db r1 db')
  then show ?case using keeps_result [OF keeps_dequeue] by blast
next
  case (claim q db r3 db')
  then show ?case using keeps_result [OF keeps_claim] by blast
next
  case (recv rt w u f tf topic d db r2 db')
  from keeps_result [OF keeps_recv [OF recv(2)] recv(3,1)] show ?case by simp
next
  case (get_event rt w u k d caller db r2 db')
  from keeps_result [OF keeps_getEvent [OF get_event(2)] get_event(3,1)] show ?case by simp
qed (rule keeps_result; (assumption | intro keeps_rules))+

lemma sysreach_ok: "sysreach db \<Longrightarrow> sys_ok db"
  by (induction rule: sysreach.induct) (auto intro: sys_ok_empty sysstep_ok)

end
