(* ===== verification/Crontab.thy ===== *)
theory Crontab
  imports Strings Dates Errors
begin

text \<open>
  Crontab patterns (\<open>src/src/scheduler/crontab.ts\<close>): a pattern is normalised field by field (names to
  numbers, asterisks to ranges, ranges to lists, steps to filtered lists), validated, and matched
  against the local time. The definitions follow the functions of the file; strings are
  rewritten the way the code rewrites them. Numbers are unbounded here; the code's are doubles, which agree
  below \<open>2\<^sup>5\<^sup>3\<close>, and larger ones are out of the range of every field.

  The theory shows that \<open>convertRange\<close> ends; what the patterns mean is in \<open>CronFields\<close>.
\<close>

section \<open>Normalisation\<close>

text \<open>\<open>/\s{2,}/g\<close> by a space, then \<open>trim\<close>; a single white space character stays as it is.\<close>

function collapse_spaces :: "string \<Rightarrow> string" where
  "collapse_spaces [] = []"
| "collapse_spaces [c] = [c]"
| "collapse_spaces (c # d # s) =
     (if is_space c \<and> is_space d then CHR '' '' # collapse_spaces (dropWhile is_space s) else c # collapse_spaces (d # s))"
  by pat_completeness auto
termination by (relation "measure length") (auto simp: less_Suc_eq_le intro: order_trans [OF length_dropWhile_le])

definition removeExtraSpaces :: "string \<Rightarrow> string" where
  "removeExtraSpaces str = trim (collapse_spaces str)"

definition prependSecondExpression :: "string list \<Rightarrow> string list" where
  "prependSecondExpression expressions = (if length expressions = 5 then ''0'' # expressions else expressions)"

definition months :: "string list" where
  "months = [''january'', ''february'', ''march'', ''april'', ''may'', ''june'', ''july'', ''august'', ''september'',
     ''october'', ''november'', ''december'']"

definition shortMonths :: "string list" where
  "shortMonths = [''jan'', ''feb'', ''mar'', ''apr'', ''may'', ''jun'', ''jul'', ''aug'', ''sep'', ''oct'', ''nov'', ''dec'']"

definition convertMonthNameI :: "string \<Rightarrow> string list \<Rightarrow> string" where
  "convertMonthNameI expression items =
     foldl (\<lambda>e (i, item). replace_all_ci item (nat_str (i + 1)) e) expression (enumerate 0 items)"

definition monthNamesConversion :: "string \<Rightarrow> string" where
  "monthNamesConversion monthExpression = convertMonthNameI (convertMonthNameI monthExpression months) shortMonths"

definition weekDays :: "string list" where
  "weekDays = [''sunday'', ''monday'', ''tuesday'', ''wednesday'', ''thursday'', ''friday'', ''saturday'']"

definition shortWeekDays :: "string list" where
  "shortWeekDays = [''sun'', ''mon'', ''tue'', ''wed'', ''thu'', ''fri'', ''sat'']"

definition convertWeekDayName :: "string \<Rightarrow> string list \<Rightarrow> string" where
  "convertWeekDayName weekExpression items =
     foldl (\<lambda>e (i, item). replace_all_ci item (nat_str i) e) weekExpression (enumerate 0 items)"

definition weekDayNamesConversion :: "string \<Rightarrow> string" where
  "weekDayNamesConversion expression =
     convertWeekDayName (convertWeekDayName (replace_first ''7'' ''0'' expression) weekDays) shortWeekDays"

definition convertAsterisk :: "string \<Rightarrow> string \<Rightarrow> string" where
  "convertAsterisk expression replacement =
     (if CHR ''*'' \<in> set expression then replace_first ''*'' replacement expression else expression)"

text \<open>Only called with at least six fields; the fields after the sixth stay.\<close>

fun convertAsterisksToRanges :: "string list \<Rightarrow> string list" where
  "convertAsterisksToRanges (e0 # e1 # e2 # e3 # e4 # e5 # rest) =
     convertAsterisk e0 ''0-59'' # convertAsterisk e1 ''0-59'' # convertAsterisk e2 ''0-23'' #
     convertAsterisk e3 ''1-31'' # convertAsterisk e4 ''1-12'' # convertAsterisk e5 ''0-6'' # rest"
| "convertAsterisksToRanges es = es"

definition comma_list :: "int list \<Rightarrow> string" where
  "comma_list ns = join_on (CHR '','') (map int_str ns)"

definition replaceWithRange :: "string \<Rightarrow> string \<Rightarrow> nat \<Rightarrow> nat \<Rightarrow> string" where
  "replaceWithRange expression mtext init fin =
     (let (first, last) = (if init > fin then (fin, init) else (init, fin)) in
      replace_first mtext (comma_list (map int [first..<Suc last])) expression)"

text \<open>The leftmost match of \<open>/(\d+)-(\d+)/\<close>: the matched text and the two numbers.\<close>

fun exec_range :: "string \<Rightarrow> (string \<times> nat \<times> nat) option" where
  "exec_range [] = None"
| "exec_range (c # cs) =
     (let ds = takeWhile is_digit (c # cs); r = dropWhile is_digit (c # cs); es = takeWhile is_digit (tl r) in
      case (nat_of_str ds, nat_of_str es) of
        (Some m, Some n) \<Rightarrow> if r \<noteq> [] \<and> hd r = CHR ''-'' then Some (ds @ CHR ''-'' # es, m, n) else exec_range cs
      | _ \<Rightarrow> exec_range cs)"

definition dashes :: "string \<Rightarrow> nat" where
  "dashes s = length (filter (\<lambda>c. c = CHR ''-'') s)"

text \<open>The match is where it is: the text of the match does not occur before it.\<close>

lemma dashes_append [simp]: "dashes (s @ t) = dashes s + dashes t"
  by (simp add: dashes_def)

lemma dashes_Cons: "dashes (c # s) = (if c = CHR ''-'' then Suc (dashes s) else dashes s)"
  by (simp add: dashes_def)

lemma dashes_digits: "(\<And>c. c \<in> set s \<Longrightarrow> is_digit c) \<Longrightarrow> dashes s = 0"
  by (force simp: dashes_def is_digit_def digit_val_def filter_empty_conv)

lemma dashes_join: "dashes (join_on (CHR '','') xs) = sum_list (map dashes xs)"
  by (induction xs rule: induct_list012) (auto simp: dashes_Cons, simp add: dashes_def)

lemma dashes_comma_list: "dashes (comma_list (map int ns)) = 0"
  by (auto simp: comma_list_def dashes_join int_str_def sum_list_eq_0_iff intro!: dashes_digits is_digit_nat_str)

lemma exec_range_text:
  "exec_range s = Some (mtext, m, n) \<Longrightarrow>
   \<exists>a b ds es. s = a @ mtext @ b \<and> mtext = ds @ CHR ''-'' # es \<and> ds \<noteq> [] \<and> es \<noteq> [] \<and> list_all is_digit ds \<and> list_all is_digit es \<and>
     nat_of_str ds = Some m \<and> nat_of_str es = Some n"
proof (induction s)
  case (Cons c cs)
  let ?ds = "takeWhile is_digit (c # cs)" and ?r = "dropWhile is_digit (c # cs)"
  let ?es = "takeWhile is_digit (tl ?r)"
  show ?case
  proof (cases "exec_range cs = Some (mtext, m, n)")
    case True
    from Cons.IH [OF True] obtain a b ds es where "c # cs = (c # a) @ mtext @ b" and
        "mtext = ds @ CHR ''-'' # es \<and> ds \<noteq> [] \<and> es \<noteq> [] \<and> list_all is_digit ds \<and> list_all is_digit es \<and>
         nat_of_str ds = Some m \<and> nat_of_str es = Some n" by auto
    then show ?thesis by blast
  next
    case False
    with Cons.prems have h: "nat_of_str ?ds = Some m" "nat_of_str ?es = Some n" "?r \<noteq> []" "hd ?r = CHR ''-''" "mtext = ?ds @ CHR ''-'' # ?es"
      by (auto simp: Let_def split: option.splits if_splits)
    have "c # cs = ?ds @ ?r" by simp
    also have "?r = CHR ''-'' # tl ?r" using h(3,4) by (metis list.collapse)
    also have "tl ?r = ?es @ dropWhile is_digit (tl ?r)" by simp
    finally have "c # cs = [] @ mtext @ dropWhile is_digit (tl ?r)" using h(5) by simp
    moreover have "?ds \<noteq> []" "?es \<noteq> []" using h(1,2) by (auto simp: nat_of_str_def split: if_splits)
    moreover have "list_all is_digit ?ds" "list_all is_digit ?es" by (auto simp: list_all_iff dest: set_takeWhileD)
    ultimately show ?thesis using h(1,2,5) by blast
  qed
qed simp

lemma replace_first_split:
  assumes "p \<noteq> []"
  obtains x y where "a @ p @ b = x @ p @ y" "replace_first p r (a @ p @ b) = x @ r @ y"
proof -
  have "\<exists>x y. a @ p @ b = x @ p @ y \<and> replace_first p r (a @ p @ b) = x @ r @ y"
  proof (induction a)
    case Nil
    have "[] @ p @ b = [] @ p @ b \<and> replace_first p r ([] @ p @ b) = [] @ r @ b" using assms by (simp add: replace_first_here)
    then show ?case by blast
  next
    case (Cons c a)
    show ?case
    proof (cases "starts_with p (c # a @ p @ b)")
      case True
      then obtain y where y: "(c # a) @ p @ b = [] @ p @ y" by (auto simp: starts_with_iff)
      have "replace_first p r ((c # a) @ p @ b) = [] @ r @ y" unfolding y using assms by (simp add: replace_first_here)
      with y show ?thesis by blast
    next
      case False
      from Cons obtain x y where "a @ p @ b = x @ p @ y" "replace_first p r (a @ p @ b) = x @ r @ y" by blast
      with False have "(c # a) @ p @ b = (c # x) @ p @ y \<and> replace_first p r ((c # a) @ p @ b) = (c # x) @ r @ y" by simp
      then show ?thesis by blast
    qed
  qed
  then show ?thesis using that by blast
qed

lemma replaceWithRange_dashes:
  assumes "exec_range s = Some (mtext, m, n)"
  shows "dashes (replaceWithRange s mtext m n) < dashes s"
proof -
  from exec_range_text [OF assms] obtain a b ds es where e: "s = a @ mtext @ b" "mtext = ds @ CHR ''-'' # es" by blast
  define r where "r = comma_list (map int (case if m > n then (n, m) else (m, n) of (f, l) \<Rightarrow> [f..<Suc l]))"
  have "dashes r = 0" by (simp add: r_def dashes_comma_list)
  moreover have "replaceWithRange s mtext m n = replace_first mtext r s" by (simp add: replaceWithRange_def r_def split: prod.split)
  moreover obtain x y where "s = x @ mtext @ y" "replace_first mtext r s = x @ r @ y"
    using replace_first_split [where p = mtext and a = a and b = b and r = r] e by auto
  moreover have "0 < dashes mtext" by (simp add: e(2) dashes_Cons)
  ultimately show ?thesis by simp
qed

function convertRange :: "string \<Rightarrow> string" where
  "convertRange expression = (case exec_range expression of
      None \<Rightarrow> expression
    | Some (mtext, m, n) \<Rightarrow> convertRange (replaceWithRange expression mtext m n))"
  by pat_completeness auto
termination by (relation "measure dashes") (auto simp: replaceWithRange_dashes)

declare convertRange.simps [simp del]

definition convertAllRanges :: "string list \<Rightarrow> string list" where
  "convertAllRanges expressions = map convertRange expressions"

text \<open>The match of \<open>/^(.+)\/(\w+)$/\<close>: the text before the last slash and the word after it.\<close>

definition is_word :: "char \<Rightarrow> bool" where
  "is_word c = (let n = of_char c :: nat in 48 \<le> n \<and> n \<le> 57 \<or> 65 \<le> n \<and> n \<le> 90 \<or> 97 \<le> n \<and> n \<le> 122 \<or> n = 95)"

definition step_match :: "string \<Rightarrow> (string \<times> string) option" where
  "step_match s =
     (let w = rev (takeWhile is_word (rev s)); r = rev (dropWhile is_word (rev s)) in
      if w \<noteq> [] \<and> 2 \<le> length r \<and> last r = CHR ''/'' \<and> CHR 0x0A \<notin> set r \<and> CHR 0x0D \<notin> set r then Some (butlast r, w) else None)"

text \<open>\<open>value % divider === 0\<close>: never for a divider 0 or a value that is not a number.\<close>

definition step_values :: "int option \<Rightarrow> string list \<Rightarrow> string list" where
  "step_values divider values =
     concat (map (\<lambda>v. case (parseInt10 v, divider) of
         (Some i, Some d) \<Rightarrow> if d \<noteq> 0 \<and> i mod d = 0 then [int_str i] else []
       | _ \<Rightarrow> []) values)"

definition convertStep :: "string \<Rightarrow> jserror + string" where
  "convertStep expression = (case step_match expression of
      None \<Rightarrow> Inr expression
    | Some (base, baseDivider) \<Rightarrow>
        if parseInt baseDivider = None then Inl (runtime_error ''Error'' (baseDivider @ '' is not a valid step value''))
        else Inr (join_on (CHR '','') (step_values (parseInt10 baseDivider) (split_on (CHR '','') base))))"

definition convertSteps :: "string list \<Rightarrow> jserror + string list" where
  "convertSteps expressions = traverse convertStep expressions"

definition normalizeIntegers :: "string list \<Rightarrow> string list" where
  "normalizeIntegers expressions =
     map (\<lambda>e. join_on (CHR '','') (map (number_str \<circ> parseInt) (split_on (CHR '','') e))) expressions"

text \<open>Fewer than five fields: the month or week day is \<open>undefined\<close>, and reading its \<open>replace\<close> throws.\<close>

definition undefined_replace :: jserror where
  "undefined_replace = runtime_error ''TypeError'' ''Cannot read properties of undefined (reading 'replace')''"

definition convertFields :: "string list \<Rightarrow> jserror + string list" where
  "convertFields expressions =
     (let es = prependSecondExpression expressions in
      if length es < 6 then Inl undefined_replace
      else let es = es[4 := monthNamesConversion (es ! 4)]; es = es[5 := weekDayNamesConversion (es ! 5)] in
        bindR (convertSteps (convertAllRanges (convertAsterisksToRanges es))) (\<lambda>es. Inr (normalizeIntegers es)))"

definition convertExpression :: "string \<Rightarrow> jserror + string" where
  "convertExpression crontab =
     bindR (convertFields (split_on (CHR '' '') (removeExtraSpaces crontab))) (\<lambda>es. Inr (join_on (CHR '' '') es))"

section \<open>Validation\<close>

text \<open>\<open>/^(?:\d+|\*|\*\/\d+)$/\<close>\<close>

definition validationRegex :: "string \<Rightarrow> bool" where
  "validationRegex s = (let digits = (\<lambda>t. t \<noteq> [] \<and> list_all is_digit t) in
     digits s \<or> s = ''*'' \<or> starts_with ''*/'' s \<and> digits (drop 2 s))"

definition isValidExpression :: "string \<Rightarrow> int \<Rightarrow> int \<Rightarrow> bool" where
  "isValidExpression expression lo hi =
     list_all (\<lambda>option. (case parseInt10 option of Some i \<Rightarrow> lo \<le> i \<and> i \<le> hi | None \<Rightarrow> True) \<and> validationRegex option)
       (split_on (CHR '','') expression)"

definition isInvalidSecond :: "string \<Rightarrow> bool" where "isInvalidSecond expression = (\<not> isValidExpression expression 0 59)"
definition isInvalidMinute :: "string \<Rightarrow> bool" where "isInvalidMinute expression = (\<not> isValidExpression expression 0 59)"
definition isInvalidHour :: "string \<Rightarrow> bool" where "isInvalidHour expression = (\<not> isValidExpression expression 0 23)"
definition isInvalidDayOfMonth :: "string \<Rightarrow> bool" where "isInvalidDayOfMonth expression = (\<not> isValidExpression expression 1 31)"
definition isInvalidMonth :: "string \<Rightarrow> bool" where "isInvalidMonth expression = (\<not> isValidExpression expression 1 12)"
definition isInvalidWeekDay :: "string \<Rightarrow> bool" where "isInvalidWeekDay expression = (\<not> isValidExpression expression 0 7)"

definition field_text :: "string list \<Rightarrow> nat \<Rightarrow> string" where
  "field_text patterns i = (if i < length patterns then patterns ! i else ''undefined'')"

definition invalid_field :: "string list \<Rightarrow> nat \<Rightarrow> string \<Rightarrow> jserror" where
  "invalid_field patterns i what = runtime_error ''Error'' (field_text patterns i @ '' is a invalid expression for '' @ what)"

definition validateFields :: "string list \<Rightarrow> string list \<Rightarrow> jserror + unit" where
  "validateFields patterns executablePatterns =
     (if isInvalidSecond (executablePatterns ! 0) then Inl (invalid_field patterns 0 ''second'')
      else if isInvalidMinute (executablePatterns ! 1) then Inl (invalid_field patterns 1 ''minute'')
      else if isInvalidHour (executablePatterns ! 2) then Inl (invalid_field patterns 2 ''hour'')
      else if isInvalidDayOfMonth (executablePatterns ! 3) then Inl (invalid_field patterns 3 ''day of month'')
      else if isInvalidMonth (executablePatterns ! 4) then Inl (invalid_field patterns 4 ''month'')
      else if isInvalidWeekDay (executablePatterns ! 5) then Inl (invalid_field patterns 5 ''week day'')
      else Inr ())"

definition validateCrontab :: "string \<Rightarrow> jserror + string" where
  "validateCrontab pattern =
     bindR (convertExpression pattern) (\<lambda>expr.
     let patterns = split_on (CHR '' '') pattern; executablePatterns = split_on (CHR '' '') expr;
         patterns = (if length patterns = 5 then ''0'' # patterns else patterns) in
     bindR (validateFields patterns executablePatterns) (\<lambda>_. Inr (join_on (CHR '' '') executablePatterns)))"

section \<open>The time matcher\<close>

definition matchPattern :: "string \<Rightarrow> int \<Rightarrow> bool" where
  "matchPattern pattern nvalue =
     (let value = int_str nvalue in
      if CHR '','' \<in> set pattern then value \<in> set (split_on (CHR '','') pattern) else pattern = value)"

text \<open>
  The accessors of \<open>Date\<close> in local time. \<open>off\<close> is the offset of the local time zone at an instant, in
  milliseconds; the host environment determines it.
\<close>

type_synonym zone = "int \<Rightarrow> int"

definition getSeconds :: "zone \<Rightarrow> int \<Rightarrow> int" where "getSeconds off t = (t + off t) div 1000 mod 60"
definition getMinutes :: "zone \<Rightarrow> int \<Rightarrow> int" where "getMinutes off t = (t + off t) div 60000 mod 60"
definition getHours :: "zone \<Rightarrow> int \<Rightarrow> int" where "getHours off t = (t + off t) div 3600000 mod 24"
definition getDate :: "zone \<Rightarrow> int \<Rightarrow> int" where "getDate off t = snd (snd (civil_from_days ((t + off t) div 86400000)))"
definition getMonth :: "zone \<Rightarrow> int \<Rightarrow> int" where "getMonth off t = fst (snd (civil_from_days ((t + off t) div 86400000))) - 1"
definition getDay :: "zone \<Rightarrow> int \<Rightarrow> int" where "getDay off t = ((t + off t) div 86400000 + 4) mod 7"

text \<open>
  The matcher. Formatting a date in another time zone and reading it back as local time goes
  through \<open>Intl.DateTimeFormat\<close>: \<open>tm_dtf\<close> is that function on time values, \<open>None\<close> without a time zone.
\<close>

record TimeMatcher =
  tm_pattern :: string
  tm_expressions :: "string list"
  tm_dtf :: "(int \<Rightarrow> int) option"

definition new_TimeMatcher :: "string \<Rightarrow> (int \<Rightarrow> int) option \<Rightarrow> jserror + TimeMatcher" where
  "new_TimeMatcher pattern dtf =
     bindR (validateCrontab pattern) (\<lambda>_. bindR (convertExpression pattern) (\<lambda>p.
     Inr \<lparr>tm_pattern = p, tm_expressions = split_on (CHR '' '') p, tm_dtf = dtf\<rparr>))"

definition tm_apply :: "TimeMatcher \<Rightarrow> int \<Rightarrow> int" where
  "tm_apply tm date = (case tm_dtf tm of Some f \<Rightarrow> f date | None \<Rightarrow> date)"

definition runsThisDay :: "zone \<Rightarrow> TimeMatcher \<Rightarrow> int \<Rightarrow> bool" where
  "runsThisDay off tm date =
     (matchPattern (tm_expressions tm ! 3) (getDate off date) \<and> matchPattern (tm_expressions tm ! 4) (getMonth off date + 1) \<and>
      matchPattern (tm_expressions tm ! 5) (getDay off date))"

definition tm_match :: "zone \<Rightarrow> TimeMatcher \<Rightarrow> int \<Rightarrow> bool" where
  "tm_match off tm date0 =
     (let date = tm_apply tm date0 in
      matchPattern (tm_expressions tm ! 0) (getSeconds off date) \<and> matchPattern (tm_expressions tm ! 1) (getMinutes off date) \<and>
      matchPattern (tm_expressions tm ! 2) (getHours off date) \<and> runsThisDay off tm date)"

text \<open>The loop counts 3600 down before each turn, so it has 3599 turns.\<close>

fun wakeup_loop :: "zone \<Rightarrow> TimeMatcher \<Rightarrow> nat \<Rightarrow> int \<Rightarrow> int" where
  "wakeup_loop off tm 0 msec = msec"
| "wakeup_loop off tm (Suc left) msec = (if tm_match off tm (msec + 1000) then msec + 1000 else wakeup_loop off tm left (msec + 1000))"

definition nextWakeupTime :: "zone \<Rightarrow> TimeMatcher \<Rightarrow> int \<Rightarrow> int" where
  "nextWakeupTime off tm date = wakeup_loop off tm 3599 date"

end
