(* ===== verification/CronFields.thy ===== *)
theory CronFields
  imports Crontab
begin

text \<open>
  What crontab patterns mean. Every pattern the constructor of \<open>TimeMatcher\<close> accepts is six lists of
  numbers within the bounds of their positions, and \<open>match\<close> is membership of the fields of the local time in
  them (\<open>new_TimeMatcher_fields\<close>, \<open>tm_match_fields\<close>). The documented forms of a field (\<open>*\<close>, \<open>*/n\<close>, \<open>a-b\<close>, lists) are accepted and
  stand for the numbers they should (\<open>cron_accepted\<close>). \<open>wakeup_loop_spec\<close> is the loop of \<open>nextWakeupTime\<close>.
\<close>

section \<open>What a validated pattern matches\<close>

lemma int_str_no_comma: "CHR '','' \<notin> set (int_str i)"
proof -
  have "CHR '','' \<notin> set (nat_str n)" for n using is_digit_nat_str [of "CHR '',''" n] by (auto simp: is_digit_def digit_val_def)
  then show ?thesis by (simp add: int_str_def)
qed

lemma split_comma_list: "ns \<noteq> [] \<Longrightarrow> split_on (CHR '','') (comma_list ns) = map int_str ns"
  unfolding comma_list_def by (rule split_join) (auto simp: int_str_no_comma)

lemma comma_in_list: "CHR '','' \<in> set (comma_list ns) \<longleftrightarrow> 2 \<le> length ns"
  unfolding comma_list_def by (induction ns rule: induct_list012) (auto simp: int_str_no_comma)

lemma matchPattern_list: "ns \<noteq> [] \<Longrightarrow> matchPattern (comma_list ns) v \<longleftrightarrow> v \<in> set ns"
proof (cases "2 \<le> length ns")
  case True
  assume "ns \<noteq> []"
  with True show ?thesis by (auto simp: matchPattern_def comma_in_list split_comma_list inj_image_mem_iff [OF injI])
next
  case False
  assume "ns \<noteq> []"
  with False obtain n where "ns = [n]" by (cases ns; cases "tl ns") auto
  then show ?thesis by (auto simp: matchPattern_def comma_list_def int_str_no_comma)
qed

lemma parseInt10_int_str: "0 \<le> i \<Longrightarrow> parseInt10 (int_str i) = Some i"
  using parseInt10_nat_str [of "[]" "nat i"] by (simp add: int_str_def)

lemma regex_number: "validationRegex (number_str v) \<longleftrightarrow> (\<exists>i \<ge> 0. v = Some i)"
proof (cases v)
  case None
  then show ?thesis by (simp add: number_str_def validationRegex_def is_digit_def digit_val_def)
next
  case (Some i)
  have "\<not> is_digit (CHR ''-'')" by (simp add: is_digit_def digit_val_def)
  moreover have "list_all is_digit (nat_str n)" for n by (simp add: list_all_iff is_digit_nat_str)
  ultimately show ?thesis using Some by (cases "i < 0") (auto simp: number_str_def validationRegex_def int_str_def)
qed

lemma number_str_no_comma: "CHR '','' \<notin> set (number_str v)"
  by (auto simp: number_str_def int_str_no_comma split: option.splits)

definition in_bounds :: "int \<Rightarrow> int \<Rightarrow> int list \<Rightarrow> bool" where
  "in_bounds lo hi ns = (ns \<noteq> [] \<and> list_all (\<lambda>i. 0 \<le> i \<and> lo \<le> i \<and> i \<le> hi) ns)"

lemma valid_field:
  assumes "isValidExpression (join_on (CHR '','') (map number_str vs)) lo hi" "vs \<noteq> []"
  shows "\<exists>ns. join_on (CHR '','') (map number_str vs) = comma_list ns \<and> in_bounds lo hi ns"
proof -
  have "split_on (CHR '','') (join_on (CHR '','') (map number_str vs)) = map number_str vs"
    using assms(2) by (intro split_join) (auto simp: number_str_no_comma)
  then have all: "(case parseInt10 (number_str v) of Some i \<Rightarrow> lo \<le> i \<and> i \<le> hi | None \<Rightarrow> True) \<and> (\<exists>i \<ge> 0. v = Some i)" if "v \<in> set vs" for v
    using assms(1) that by (simp add: isValidExpression_def list_all_iff regex_number)
  then have some: "v = Some (the v) \<and> 0 \<le> the v \<and> lo \<le> the v \<and> the v \<le> hi" if "v \<in> set vs" for v
    using that by (fastforce simp: number_str_def parseInt10_int_str)
  have "map number_str vs = map int_str (map the vs)" using some by (auto simp: number_str_def split: option.splits)
  then have "join_on (CHR '','') (map number_str vs) = comma_list (map the vs)" by (simp only: comma_list_def)
  moreover have "in_bounds lo hi (map the vs)" using some assms(2) by (auto simp: in_bounds_def list_all_iff)
  ultimately show ?thesis by blast
qed

lemma number_list_no_space: "CHR '' '' \<notin> set (join_on (CHR '','') (map number_str vs))"
proof -
  have "CHR '' '' \<notin> set (nat_str n)" for n using is_digit_nat_str [of "CHR '' ''" n] by (auto simp: is_digit_def digit_val_def)
  then have "CHR '' '' \<notin> set (number_str v)" for v by (auto simp: number_str_def int_str_def split: option.splits)
  then show ?thesis using set_join_on [of "CHR '',''" "map number_str vs"] by auto
qed

lemma asterisks_length [simp]: "length (convertAsterisksToRanges es) = length es"
  by (cases es rule: convertAsterisksToRanges.cases) auto

lemma convertFields_numbers:
  assumes "convertFields es = Inr fs"
  obtains vss where "fs = map (\<lambda>vs. join_on (CHR '','') (map number_str vs)) vss" "6 \<le> length fs" "\<And>vs. vs \<in> set vss \<Longrightarrow> vs \<noteq> []"
proof -
  obtain ys where ys: "fs = normalizeIntegers ys" "6 \<le> length ys"
    using assms by (auto simp: convertFields_def Let_def convertAllRanges_def convertSteps_def bindR_def
        split: if_splits sum.splits dest!: traverse_length)
  show ?thesis
    by (rule that [of "map (\<lambda>e. map parseInt (split_on (CHR '','') e)) ys"]) (auto simp: ys(1) normalizeIntegers_def ys(2))
qed

definition field_bounds :: "(int \<times> int) list" where
  "field_bounds = [(0, 59), (0, 59), (0, 23), (1, 31), (1, 12), (0, 7)]"

lemma new_TimeMatcher_fields:
  assumes "new_TimeMatcher pattern dtf = Inr tm"
  shows "tm_dtf tm = dtf \<and> (\<forall>i < 6. \<exists>ns. tm_expressions tm ! i = comma_list ns \<and> in_bounds (fst (field_bounds ! i)) (snd (field_bounds ! i)) ns)"
proof -
  from assms obtain p where p: "convertExpression pattern = Inr p" "tm_expressions tm = split_on (CHR '' '') p" "tm_dtf tm = dtf"
    and v: "\<exists>r. validateCrontab pattern = Inr r"
    by (auto simp: new_TimeMatcher_def bindR_def split: sum.splits)
  from p(1) obtain fs where fs: "convertFields (split_on (CHR '' '') (removeExtraSpaces pattern)) = Inr fs" "p = join_on (CHR '' '') fs"
    by (auto simp: convertExpression_def bindR_def split: sum.splits)
  from convertFields_numbers [OF fs(1)] obtain vss where vss: "fs = map (\<lambda>vs. join_on (CHR '','') (map number_str vs)) vss"
    "6 \<le> length fs" "\<And>vs. vs \<in> set vss \<Longrightarrow> vs \<noteq> []" by metis
  have ex: "split_on (CHR '' '') p = fs"
    unfolding fs(2) by (rule split_join) (use vss number_list_no_space in auto)
  from v p(1) ex have ok: "\<exists>ps. validateFields ps fs = Inr ()"
    by (auto simp: validateCrontab_def bindR_def Let_def split: sum.splits)
  have "\<exists>ns. fs ! i = comma_list ns \<and> in_bounds (fst (field_bounds ! i)) (snd (field_bounds ! i)) ns" if "i < 6" for i
  proof -
    have "isValidExpression (fs ! i) (fst (field_bounds ! i)) (snd (field_bounds ! i))"
      using ok that by (auto simp: validateFields_def field_bounds_def less_Suc_eq numeral_eq_Suc isInvalidSecond_def isInvalidMinute_def
          isInvalidHour_def isInvalidDayOfMonth_def isInvalidMonth_def isInvalidWeekDay_def split: if_splits)
    moreover have "fs ! i = join_on (CHR '','') (map number_str (vss ! i))" "vss ! i \<noteq> []" using that vss by auto
    ultimately show ?thesis using valid_field [of "vss ! i"] by simp
  qed
  then show ?thesis using p(2,3) ex by simp
qed

text \<open>The abstract matcher: six lists of numbers.\<close>

definition time_fields :: "zone \<Rightarrow> int \<Rightarrow> int list" where
  "time_fields off t = [getSeconds off t, getMinutes off t, getHours off t, getDate off t, getMonth off t + 1, getDay off t]"

lemma tm_match_fields:
  assumes "length nss = 6" "\<And>i. i < 6 \<Longrightarrow> tm_expressions tm ! i = comma_list (nss ! i) \<and> nss ! i \<noteq> []"
  shows "tm_match off tm t \<longleftrightarrow> list_all2 (\<lambda>v ns. v \<in> set ns) (time_fields off (tm_apply tm t)) nss"
proof -
  have "matchPattern (tm_expressions tm ! i) v \<longleftrightarrow> v \<in> set (nss ! i)" if "i < 6" for i v
    using assms(2) [OF that] matchPattern_list by simp
  then have "tm_match off tm t \<longleftrightarrow> (\<forall>i < 6. time_fields off (tm_apply tm t) ! i \<in> set (nss ! i))"
    by (auto simp: tm_match_def runsThisDay_def time_fields_def Let_def less_Suc_eq numeral_eq_Suc)
  moreover have "length (time_fields off (tm_apply tm t)) = 6" by (simp add: time_fields_def)
  ultimately show ?thesis using assms(1) by (simp add: list_all2_conv_all_nth)
qed
section \<open>What the forms of a field stand for\<close>

text \<open>The documented forms of a field, how each is written, and the numbers it stands for.\<close>

datatype cron_field = Every | EveryNth nat | Span nat nat | OneOf "nat list"

fun cron_text :: "cron_field \<Rightarrow> string" where
  "cron_text Every = ''*''"
| "cron_text (EveryNth n) = ''*/'' @ nat_str n"
| "cron_text (Span a b) = nat_str a @ ''-'' @ nat_str b"
| "cron_text (OneOf ns) = comma_list (map int ns)"

fun cron_numbers :: "nat \<Rightarrow> nat \<Rightarrow> cron_field \<Rightarrow> nat list" where
  "cron_numbers lo hi Every = [lo..<Suc hi]"
| "cron_numbers lo hi (EveryNth n) = filter (\<lambda>i. 0 < n \<and> i mod n = 0) [lo..<Suc hi]"
| "cron_numbers lo hi (Span a b) = [min a b..<Suc (max a b)]"
| "cron_numbers lo hi (OneOf ns) = ns"

lemma not_digit [simp]:
  "\<not> is_digit (CHR ''-'')" "\<not> is_digit (CHR '','')" "\<not> is_digit (CHR ''/'')" "\<not> is_digit (CHR ''*'')" "\<not> is_digit (CHR '' '')"
  by (simp_all add: is_digit_def digit_val_def)

lemma digits_free: "\<not> is_digit c \<Longrightarrow> c \<notin> set (nat_str n)"
  using is_digit_nat_str by blast

lemma exec_range_no_dash: "CHR ''-'' \<notin> set s \<Longrightarrow> exec_range s = None"
proof (rule ccontr)
  assume no: "CHR ''-'' \<notin> set s" and "exec_range s \<noteq> None"
  then obtain mt m n where "exec_range s = Some (mt, m, n)" by auto
  from exec_range_text [OF this] no show False by auto
qed

lemma convertRange_plain: "CHR ''-'' \<notin> set s \<Longrightarrow> convertRange s = s"
  by (subst convertRange.simps) (simp add: exec_range_no_dash)

lemma comma_list_set: "set (comma_list (map int ns)) \<subseteq> insert (CHR '','') (Collect is_digit)"
  using set_join_on [of "CHR '',''" "map int_str (map int ns)"] by (auto simp: comma_list_def int_str_def is_digit_nat_str)

lemma exec_range_span:
  assumes "\<And>c t. r = c # t \<Longrightarrow> \<not> is_digit c"
  shows "exec_range (nat_str a @ CHR ''-'' # nat_str b @ r) = Some (nat_str a @ CHR ''-'' # nat_str b, a, b)"
proof -
  let ?s = "nat_str a @ CHR ''-'' # nat_str b @ r"
  have first: "exec_range s = Some (ds @ CHR ''-'' # es, m, n)"
    if "takeWhile is_digit s = ds" "dropWhile is_digit s = CHR ''-'' # u" "takeWhile is_digit u = es" "nat_of_str ds = Some m" "nat_of_str es = Some n"
    for s ds es u m n
    using that by (cases s) (auto simp: Let_def)
  have dg: "\<And>x. x \<in> set (nat_str a) \<Longrightarrow> is_digit x" by (rule is_digit_nat_str)
  have "takeWhile is_digit (nat_str a @ CHR ''-'' # nat_str b @ r) = nat_str a"
    "dropWhile is_digit (nat_str a @ CHR ''-'' # nat_str b @ r) = CHR ''-'' # nat_str b @ r"
    using dg by (simp_all add: takeWhile_append2 dropWhile_append2)
  moreover have "takeWhile is_digit (nat_str b @ r) = nat_str b" by (rule takeWhile_nat_str [OF assms])
  ultimately show ?thesis by (rule first) simp_all
qed

lemma convertRange_span:
  assumes "\<And>c t. r = c # t \<Longrightarrow> \<not> is_digit c" "CHR ''-'' \<notin> set r"
  shows "convertRange (nat_str a @ CHR ''-'' # nat_str b @ r) = comma_list (map int [min a b..<Suc (max a b)]) @ r"
proof -
  let ?t = "nat_str a @ CHR ''-'' # nat_str b"
  have "replace_first ?t x (?t @ r) = x @ r" for x by (rule replace_first_here) simp
  then have "replaceWithRange (?t @ r) ?t a b = comma_list (map int [min a b..<Suc (max a b)]) @ r"
    by (auto simp: replaceWithRange_def Let_def min_def max_def)
  then have "convertRange (?t @ r) = convertRange (comma_list (map int [min a b..<Suc (max a b)]) @ r)"
    by (subst convertRange.simps) (simp add: exec_range_span [OF assms(1)])
  also have "\<dots> = comma_list (map int [min a b..<Suc (max a b)]) @ r"
    using assms(2) comma_list_set [of "[min a b..<Suc (max a b)]"] by (intro convertRange_plain) auto
  finally show ?thesis by simp
qed

lemma word_digit: "is_digit c \<Longrightarrow> is_word c"
  by (auto simp: is_digit_def digit_val_def is_word_def Let_def split: if_splits)

lemma step_match_none: "CHR ''/'' \<notin> set s \<Longrightarrow> step_match s = None"
proof -
  assume no: "CHR ''/'' \<notin> set s"
  have "last (rev (dropWhile is_word (rev s))) \<noteq> CHR ''/''" if "2 \<le> length (rev (dropWhile is_word (rev s)))"
  proof
    have ne: "rev (dropWhile is_word (rev s)) \<noteq> []" using that by (metis length_0_conv not_numeral_le_zero)
    assume "last (rev (dropWhile is_word (rev s))) = CHR ''/''"
    with last_in_set [OF ne] have "CHR ''/'' \<in> set (dropWhile is_word (rev s))" by simp
    then show False using no set_dropWhileD by fastforce
  qed
  then show ?thesis unfolding step_match_def Let_def by (intro if_not_P) blast
qed

lemma step_match_some:
  assumes "s \<noteq> []" "\<And>c. c \<in> set s \<Longrightarrow> is_digit c \<or> c = CHR '',''"
  shows "step_match (s @ CHR ''/'' # nat_str n) = Some (s, nat_str n)"
proof -
  have w: "\<And>c. c \<in> set (rev (nat_str n)) \<Longrightarrow> is_word c" by (auto intro: word_digit is_digit_nat_str)
  have "\<not> is_word (CHR ''/'')" by (simp add: is_word_def)
  then have "takeWhile is_word (rev (s @ CHR ''/'' # nat_str n)) = rev (nat_str n)"
    "dropWhile is_word (rev (s @ CHR ''/'' # nat_str n)) = CHR ''/'' # rev s"
    using takeWhile_append2 [of "rev (nat_str n)" is_word "CHR ''/'' # rev s", OF w]
      dropWhile_append2 [of "rev (nat_str n)" is_word "CHR ''/'' # rev s", OF w] by simp_all
  moreover have "CHR 0x0A \<notin> set s" "CHR 0x0D \<notin> set s" using assms(2) by (fastforce simp: is_digit_def digit_val_def)+
  moreover have "2 \<le> length (s @ [CHR ''/''])" using assms(1) by (cases s) auto
  ultimately show ?thesis by (simp add: step_match_def Let_def)
qed

lemma step_values_ints:
  "step_values (Some (int n)) (map int_str (map int ns)) = map int_str (map int (filter (\<lambda>i. 0 < n \<and> i mod n = 0) ns))"
  by (induction ns) (auto simp: step_values_def parseInt10_int_str simp flip: of_nat_mod)

lemma normalize_list: "ns \<noteq> [] \<Longrightarrow>
  join_on (CHR '','') (map (number_str \<circ> parseInt) (split_on (CHR '','') (comma_list (map int ns)))) = comma_list (map int ns)"
  by (simp add: split_comma_list) (simp add: comma_list_def number_str_def int_str_def o_def)

text \<open>One field through the passes of \<open>convertExpression\<close>, \<open>star\<close> being the range its asterisk stands for.\<close>

definition convert_field :: "string \<Rightarrow> string \<Rightarrow> jserror + string" where
  "convert_field star e = bindR (convertStep (convertRange (convertAsterisk e star))) (\<lambda>x.
     Inr (join_on (CHR '','') (map (number_str \<circ> parseInt) (split_on (CHR '','') x))))"

lemma no_star: "CHR ''*'' \<notin> set e \<Longrightarrow> convertAsterisk e star = e"
  by (simp add: convertAsterisk_def)

lemma convertStep_list: "convertStep (comma_list (map int ns)) = Inr (comma_list (map int ns))"
  using comma_list_set [of ns] by (subst convertStep_def, subst step_match_none) auto

lemma comma_list_nonempty: "ns \<noteq> [] \<Longrightarrow> comma_list (map int ns) \<noteq> []"
  by (cases ns; cases "tl ns") (auto simp: comma_list_def int_str_def)

lemma convertStep_step:
  assumes "ns \<noteq> []"
  shows "convertStep (comma_list (map int ns) @ CHR ''/'' # nat_str n) = Inr (comma_list (map int (filter (\<lambda>i. 0 < n \<and> i mod n = 0) ns)))"
proof -
  note ne = comma_list_nonempty [OF assms]
  have m: "step_match (comma_list (map int ns) @ CHR ''/'' # nat_str n) = Some (comma_list (map int ns), nat_str n)"
    using comma_list_set [of ns] ne by (intro step_match_some) auto
  have "parseInt10 (nat_str n) = Some (int n)" using parseInt10_nat_str [of "[]" n] by simp
  then show ?thesis using assms by (simp add: convertStep_def m split_comma_list step_values_ints del: map_map) (simp add: comma_list_def)
qed

lemma convert_field_meaning:
  assumes "cron_numbers lo hi f \<noteq> []" "lo \<le> hi"
  shows "convert_field (nat_str lo @ CHR ''-'' # nat_str hi) (cron_text f) = Inr (comma_list (map int (cron_numbers lo hi f)))"
proof (cases f)
  case Every
  have "convertAsterisk ''*'' (nat_str lo @ CHR ''-'' # nat_str hi) = nat_str lo @ CHR ''-'' # nat_str hi @ []"
    by (simp add: convertAsterisk_def)
  then show ?thesis using Every assms convertRange_span [of "[]" lo hi]
    by (simp add: convert_field_def convertStep_list normalize_list min_def max_def del: upt_Suc)
next
  case (EveryNth n)
  have "convertAsterisk (''*/'' @ nat_str n) (nat_str lo @ CHR ''-'' # nat_str hi) = nat_str lo @ CHR ''-'' # nat_str hi @ CHR ''/'' # nat_str n"
    by (simp add: convertAsterisk_def)
  then show ?thesis using EveryNth assms convertRange_span [of "CHR ''/'' # nat_str n" lo hi] digits_free [of "CHR ''-''" n]
      convertStep_step [of "[lo..<Suc hi]" n] normalize_list [of "cron_numbers lo hi f"]
    by (simp add: convert_field_def min_def max_def del: upt_Suc)
next
  case (Span a b)
  have "convertAsterisk (cron_text f) star = nat_str a @ CHR ''-'' # nat_str b @ []" for star
    using Span by (simp add: no_star digits_free)
  then show ?thesis using Span assms convertRange_span [of "[]" a b]
    by (simp add: convert_field_def convertStep_list normalize_list del: upt_Suc)
next
  case (OneOf ns)
  have "CHR ''*'' \<notin> set (comma_list (map int ns))" "CHR ''-'' \<notin> set (comma_list (map int ns))" using comma_list_set [of ns] by auto
  then show ?thesis using OneOf assms by (simp add: convert_field_def no_star convertRange_plain convertStep_list normalize_list)
qed

lemma cron_text_set: "set (cron_text f) \<subseteq> Collect is_digit \<union> {CHR ''*'', CHR ''/'', CHR ''-'', CHR '',''}"
  using comma_list_set by (cases f) (auto simp: is_digit_nat_str)

lemma cron_text_nonempty: "cron_numbers lo hi f \<noteq> [] \<Longrightarrow> cron_text f \<noteq> []"
  by (cases f) (simp_all add: comma_list_nonempty)

lemma no_letters:
  assumes "c \<in> set (cron_text f)"
  shows "lower_char c = c \<and> \<not> is_space c \<and> (of_char c :: nat) < 97"
  using assms cron_text_set [of f] by (auto simp: is_digit_def digit_val_def lower_char_def is_space_def Let_def split: if_splits)

definition starts_with_letter :: "string \<Rightarrow> bool" where
  "starts_with_letter item = (item \<noteq> [] \<and> 97 \<le> (of_char (lower_char (hd item)) :: nat))"

lemma names_unchanged:
  assumes "list_all starts_with_letter items"
  shows "foldl (\<lambda>e (i, item). replace_all_ci item (g i) e) (cron_text f) (enumerate k items) = cron_text f"
  using assms
proof (induction items arbitrary: k)
  case (Cons item items)
  have "lower_char (hd item) \<notin> lower_char ` set (cron_text f)"
  proof
    assume "lower_char (hd item) \<in> lower_char ` set (cron_text f)"
    then obtain c where "c \<in> set (cron_text f)" "lower_char (hd item) = lower_char c" by auto
    then show False using no_letters [of c f] Cons.prems by (auto simp: starts_with_letter_def)
  qed
  then have "replace_all_ci item (g k) (cron_text f) = cron_text f"
    using Cons.prems by (intro replace_all_ci_none) (auto simp: starts_with_letter_def)
  then show ?case using Cons by simp
qed simp

lemma names_are_letters:
  "list_all starts_with_letter months" "list_all starts_with_letter shortMonths"
  "list_all starts_with_letter weekDays" "list_all starts_with_letter shortWeekDays"
  by code_simp+

lemma month_unchanged: "monthNamesConversion (cron_text f) = cron_text f"
  by (simp add: monthNamesConversion_def convertMonthNameI_def names_unchanged names_are_letters)

lemma weekday_unchanged: "CHR ''7'' \<notin> set (cron_text f) \<Longrightarrow> weekDayNamesConversion (cron_text f) = cron_text f"
  by (simp add: weekDayNamesConversion_def convertWeekDayName_def names_unchanged names_are_letters replace_first_none)

lemma collapse_single: "successively (\<lambda>c d. \<not> (is_space c \<and> is_space d)) s \<Longrightarrow> collapse_spaces s = s"
  by (induction s rule: collapse_spaces.induct) auto

lemma trim_tight: "s \<noteq> [] \<Longrightarrow> \<not> is_space (hd s) \<Longrightarrow> \<not> is_space (last s) \<Longrightarrow> trim s = s"
  using dropWhile_eq_self_iff [of is_space s] dropWhile_eq_self_iff [of is_space "rev s"] by (simp add: trim_def hd_rev)

lemma no_space_tight: "(\<And>c. c \<in> set x \<Longrightarrow> \<not> is_space c) \<Longrightarrow> successively (\<lambda>c d. \<not> (is_space c \<and> is_space d)) x"
  by (induction x rule: induct_list012) auto

lemma join_tight:
  assumes "fs \<noteq> []" "\<And>x. x \<in> set fs \<Longrightarrow> x \<noteq> [] \<and> (\<forall>c \<in> set x. \<not> is_space c)"
  shows "successively (\<lambda>c d. \<not> (is_space c \<and> is_space d)) (join_on (CHR '' '') fs) \<and> join_on (CHR '' '') fs \<noteq> [] \<and>
    \<not> is_space (hd (join_on (CHR '' '') fs)) \<and> \<not> is_space (last (join_on (CHR '' '') fs))"
  using assms
proof (induction fs rule: induct_list012)
  case (2 x)
  then have "successively (\<lambda>c d. \<not> (is_space c \<and> is_space d)) x"
    by (intro no_space_tight) auto
  with 2 show ?case by (simp add: hd_in_set last_in_set)
next
  case (3 x y zs)
  let ?j = "join_on (CHR '' '') (y # zs)"
  have IH: "successively (\<lambda>c d. \<not> (is_space c \<and> is_space d)) ?j \<and> ?j \<noteq> [] \<and> \<not> is_space (hd ?j) \<and> \<not> is_space (last ?j)"
    using 3 by auto
  have x: "x \<noteq> []" "\<forall>c \<in> set x. \<not> is_space c" using 3(4) by auto
  then have "successively (\<lambda>c d. \<not> (is_space c \<and> is_space d)) x"
    by (intro no_space_tight) auto
  then show ?case using IH x by (auto simp: successively_append_iff successively_Cons)
qed simp

lemma removeExtraSpaces_join:
  assumes "fs \<noteq> []" "\<And>x. x \<in> set fs \<Longrightarrow> x \<noteq> [] \<and> (\<forall>c \<in> set x. \<not> is_space c)"
  shows "removeExtraSpaces (join_on (CHR '' '') fs) = join_on (CHR '' '') fs"
  using join_tight [OF assms] by (simp add: removeExtraSpaces_def collapse_single trim_tight)

lemma convertFields_six:
  assumes "convert_field ''0-59'' e0 = Inr x0" "convert_field ''0-59'' e1 = Inr x1" "convert_field ''0-23'' e2 = Inr x2"
    "convert_field ''1-31'' e3 = Inr x3" "convert_field ''1-12'' (monthNamesConversion e4) = Inr x4"
    "convert_field ''0-6'' (weekDayNamesConversion e5) = Inr x5"
  shows "convertFields [e0, e1, e2, e3, e4, e5] = Inr [x0, x1, x2, x3, x4, x5]"
proof -
  have "\<exists>y. convertStep (convertRange (convertAsterisk e star)) = Inr y \<and>
      x = join_on (CHR '','') (map (number_str \<circ> parseInt) (split_on (CHR '','') y))" if "convert_field star e = Inr x" for star e x
    using that by (auto simp: convert_field_def bindR_def split: sum.splits)
  note this [OF assms(1)] this [OF assms(2)] this [OF assms(3)] this [OF assms(4)] this [OF assms(5)] this [OF assms(6)]
  then show ?thesis
    by (auto simp: convertFields_def prependSecondExpression_def convertAllRanges_def convertSteps_def normalizeIntegers_def)
qed

lemma valid_list: "in_bounds lo hi (map int ns) \<Longrightarrow> isValidExpression (comma_list (map int ns)) lo hi"
  using regex_number [of "Some i" for i]
  by (auto simp: in_bounds_def isValidExpression_def split_comma_list list_all_iff parseInt10_int_str number_str_def)

text \<open>The ranges of the asterisks; the last field must not be written with a 7.\<close>

definition star_bounds :: "(nat \<times> nat) list" where
  "star_bounds = [(0, 59), (0, 59), (0, 23), (1, 31), (1, 12), (0, 6)]"

definition cron_ok :: "cron_field list \<Rightarrow> bool" where
  "cron_ok fs = (list_all2 (\<lambda>(lo, hi) f. cron_numbers lo hi f \<noteq> [] \<and> list_all (\<lambda>i. lo \<le> i \<and> i \<le> hi) (cron_numbers lo hi f)) star_bounds fs \<and>
     CHR ''7'' \<notin> set (cron_text (last fs)))"

definition cron_lists :: "cron_field list \<Rightarrow> int list list" where
  "cron_lists fs = map2 (\<lambda>(lo, hi) f. map int (cron_numbers lo hi f)) star_bounds fs"

lemma nat_str_bounds: "nat_str 0 = ''0''" "nat_str 1 = ''1''" "nat_str (Suc 0) = ''1''" "nat_str 59 = ''59''" "nat_str 23 = ''23''" "nat_str 31 = ''31''" "nat_str 12 = ''12''" "nat_str 6 = ''6''"
  by (simp_all add: nat_str.simps digit_def)

lemma cron_convert:
  assumes "cron_ok fs"
  shows "convertFields (map cron_text fs) = Inr (map comma_list (cron_lists fs))"
proof -
  from assms obtain f0 f1 f2 f3 f4 f5 where fs: "fs = [f0, f1, f2, f3, f4, f5]"
    by (auto simp: cron_ok_def star_bounds_def list_all2_Cons1)
  have ne: "cron_numbers 0 59 f0 \<noteq> []" "cron_numbers 0 59 f1 \<noteq> []" "cron_numbers 0 23 f2 \<noteq> []" "cron_numbers 1 31 f3 \<noteq> []"
    "cron_numbers 1 12 f4 \<noteq> []" "cron_numbers 0 6 f5 \<noteq> []" "CHR ''7'' \<notin> set (cron_text f5)"
    using assms by (simp_all add: fs cron_ok_def star_bounds_def)
  note m = convert_field_meaning [OF ne(1)] convert_field_meaning [OF ne(2)] convert_field_meaning [OF ne(3)]
    convert_field_meaning [OF ne(4)] convert_field_meaning [OF ne(5)] convert_field_meaning [OF ne(6)]
  show ?thesis unfolding fs list.map
    by (subst convertFields_six) (use m in \<open>simp_all add: month_unchanged weekday_unchanged [OF ne(7)] nat_str_bounds cron_lists_def star_bounds_def\<close>)
qed

lemma comma_list_no_space: "CHR '' '' \<notin> set (comma_list (map int ns))"
  using comma_list_set [of ns] by auto

lemma cron_accepted:
  assumes ok: "cron_ok fs"
  shows "new_TimeMatcher (join_on (CHR '' '') (map cron_text fs)) dtf =
    Inr \<lparr>tm_pattern = join_on (CHR '' '') (map comma_list (cron_lists fs)), tm_expressions = map comma_list (cron_lists fs), tm_dtf = dtf\<rparr>"
proof -
  let ?p = "join_on (CHR '' '') (map cron_text fs)" and ?xs = "map comma_list (cron_lists fs)"
  have len: "length fs = 6" using ok by (auto simp: cron_ok_def star_bounds_def dest: list_all2_lengthD)
  have ne: "cron_numbers (fst (star_bounds ! i)) (snd (star_bounds ! i)) (fs ! i) \<noteq> []" 
    "list_all (\<lambda>j. fst (star_bounds ! i) \<le> j \<and> j \<le> snd (star_bounds ! i)) (cron_numbers (fst (star_bounds ! i)) (snd (star_bounds ! i)) (fs ! i))"
    if "i < 6" for i
    using ok that by (auto simp: cron_ok_def list_all2_conv_all_nth star_bounds_def split_def)
  have tight: "x \<noteq> [] \<and> (\<forall>c \<in> set x. \<not> is_space c)" if "x \<in> set (map cron_text fs)" for x
  proof -
    from that obtain i where "i < 6" "x = cron_text (fs ! i)" using len by (auto simp: in_set_conv_nth)
    then show ?thesis using cron_text_nonempty [OF ne(1)] by (auto dest: no_letters)
  qed
  have space: "is_space (CHR '' '')" by (simp add: is_space_def)
  have "removeExtraSpaces ?p = ?p" using len tight by (intro removeExtraSpaces_join) auto
  moreover have "split_on (CHR '' '') ?p = map cron_text fs"
    using len tight space by (intro split_join) auto
  ultimately have conv: "convertExpression ?p = Inr (join_on (CHR '' '') ?xs)"
    using cron_convert [OF ok] by (simp add: convertExpression_def)
  have xs: "?xs ! i = comma_list (map int (cron_numbers (fst (star_bounds ! i)) (snd (star_bounds ! i)) (fs ! i)))" if "i < 6" for i
    using that len by (simp add: cron_lists_def split_def star_bounds_def)
  have lx: "length ?xs = 6" by (simp add: cron_lists_def len star_bounds_def)
  have "CHR '' '' \<notin> set x" if "x \<in> set ?xs" for x
  proof -
    from that lx obtain i where "i < 6" "x = ?xs ! i" by (metis in_set_conv_nth)
    then show ?thesis using xs comma_list_no_space by metis
  qed
  then have split: "split_on (CHR '' '') (join_on (CHR '' '') ?xs) = ?xs" using lx by (intro split_join) auto
  have "isValidExpression (?xs ! i) (fst (field_bounds ! i)) (snd (field_bounds ! i))" if "i < 6" for i
  proof -
    have "int (fst (star_bounds ! i)) = fst (field_bounds ! i)" "int (snd (star_bounds ! i)) \<le> snd (field_bounds ! i)"
      using that by (auto simp: star_bounds_def field_bounds_def less_Suc_eq numeral_eq_Suc)
    then show ?thesis unfolding xs [OF that] using ne [OF that] by (intro valid_list) (fastforce simp: in_bounds_def list_all_iff)
  qed
  from this [of 0] this [of 1] this [of 2] this [of 3] this [of 4] this [of 5]
  have "validateFields ps ?xs = Inr ()" for ps
    by (simp add: validateFields_def field_bounds_def isInvalidSecond_def isInvalidMinute_def
        isInvalidHour_def isInvalidDayOfMonth_def isInvalidMonth_def isInvalidWeekDay_def)
  then show ?thesis by (simp add: new_TimeMatcher_def validateCrontab_def conv split Let_def)
qed

section \<open>The next wake-up time\<close>

lemma wakeup_loop_spec:
  "\<exists>k \<le> n. wakeup_loop off tm n t = t + 1000 * int k \<and> (\<forall>j. 0 < j \<and> j < k \<longrightarrow> \<not> tm_match off tm (t + 1000 * int j)) \<and>
     (k = n \<or> tm_match off tm (t + 1000 * int k)) \<and> (0 < n \<longrightarrow> 0 < k)"
proof (induction n arbitrary: t)
  case (Suc n)
  show ?case
  proof (cases "tm_match off tm (t + 1000)")
    case True
    then show ?thesis by (intro exI [of _ 1]) auto
  next
    case False
    from Suc [of "t + 1000"] obtain k where k: "k \<le> n" "wakeup_loop off tm n (t + 1000) = t + 1000 + 1000 * int k"
      "\<And>j. 0 < j \<Longrightarrow> j < k \<Longrightarrow> \<not> tm_match off tm (t + 1000 + 1000 * int j)" "k = n \<or> tm_match off tm (t + 1000 + 1000 * int k)" by blast
    have "\<not> tm_match off tm (t + 1000 * int j)" if "0 < j" "j < Suc k" for j
      using that False k(3) [of "j - 1"] by (cases "j = 1") (auto simp: algebra_simps of_nat_diff)
    then show ?thesis using k False by (intro exI [of _ "Suc k"]) (auto simp: algebra_simps)
  qed
qed simp

lemma wakeup_loop_find:
  "wakeup_loop off tm n t = (case find (tm_match off tm) (map (\<lambda>k. t + 1000 * int k) [1..<Suc n]) of Some x \<Rightarrow> x | None \<Rightarrow> t + 1000 * int n)"
proof (induction n arbitrary: t)
  case (Suc n)
  have shift: "map (\<lambda>k. t + 1000 * int k) [1..<Suc (Suc n)] = (t + 1000) # map (\<lambda>k. (t + 1000) + 1000 * int k) [1..<Suc n]"
    by (simp add: upt_conv_Cons map_Suc_upt [symmetric] o_def algebra_simps del: upt_Suc)
  show ?case unfolding shift using Suc [of "t + 1000"] by (simp del: upt_Suc split: option.split)
qed simp

lemma validated_pattern:
  assumes "validateCrontab pattern = Inr p"
  shows "new_TimeMatcher pattern dtf = Inr \<lparr>tm_pattern = p, tm_expressions = split_on (CHR '' '') p, tm_dtf = dtf\<rparr>"
proof -
  from assms have "convertExpression pattern = Inr p"
    by (auto simp: validateCrontab_def bindR_def Let_def join_split split: sum.splits)
  with assms show ?thesis by (simp add: new_TimeMatcher_def)
qed

text \<open>The digit 7 is replaced before a range is expanded: Friday to Sunday is read as Sunday to Friday.\<close>

lemma weekday_range_reversed:
  "convertExpression ''0 0 * * 5-7'' = convertExpression ''0 0 * * 0-5''"
  by code_simp

end
