(* ===== verification/Scheduler.thy ===== *)
theory Scheduler
  imports Executor CronFields
begin

text \<open>
  Scheduled workflows (\<open>src/src/scheduler/scheduler.ts\<close>): the loop of one scheduled method, and the
  scheduler that makes, starts and stops the loops.

  One turn of the loop computes the next wake-up time, sleeps until then, starts the workflow
  with an identifier made of the method and the time, and records the time. A turn gives, besides the loop's
  new state, what it did: nothing, or the time it started a workflow for together with the time the database
  answered. When the loop is stopped (\<open>setStopLoopFlag\<close>) is up to the environment: a list says, turn by
  turn, whether it happened while the loop slept, while it worked, or not at all.

  The theory shows that a loop starts its workflow for every scheduled time, in order and once, across
  restarts (\<open>runs_all_matches\<close>, \<open>restart_runs_all\<close>).
\<close>

section \<open>Configuration\<close>

datatype SchedulerMode = ExactlyOncePerInterval | ExactlyOncePerIntervalWhenActive

record SchedulerConfig =
  sch_crontab :: "string option"
  sch_mode :: "SchedulerMode option"

record ('u, 'x) SchedulerRegistration =
  sr_className :: string
  sr_name :: string
  sr_workflow :: "('u, 'x) Workflow option" \<comment> \<open>\<open>None\<close>: the method is not a workflow\<close>
  sr_schedulerConfig :: "SchedulerConfig option"

definition Scheduled :: "SchedulerConfig \<Rightarrow> ('u, 'x) SchedulerRegistration \<Rightarrow> ('u, 'x) SchedulerRegistration" where
  "Scheduled schedulerConfig registration = registration\<lparr>sr_schedulerConfig := Some schedulerConfig\<rparr>"

section \<open>The loop of a method\<close>

record ('u, 'x) DetachableLoop =
  isRunning :: bool
  lastExec :: int
  timeMatcher :: TimeMatcher
  schedMode :: SchedulerMode
  scheduledMethod :: "('u, 'x) SchedulerRegistration"

definition scheduledMethodName :: "('u, 'x) DetachableLoop \<Rightarrow> string" where
  "scheduledMethodName lp = sr_className (scheduledMethod lp) @ ''.'' @ sr_name (scheduledMethod lp)"

definition new_DetachableLoop :: "int \<Rightarrow> string \<Rightarrow> SchedulerMode \<Rightarrow> ('u, 'x) SchedulerRegistration \<Rightarrow> jserror + ('u, 'x) DetachableLoop" where
  "new_DetachableLoop date crontab mode reg =
     bindR (new_TimeMatcher crontab None) (\<lambda>tm.
     Inr \<lparr>isRunning = False, lastExec = date - date mod 1000, timeMatcher = tm, schedMode = mode, scheduledMethod = reg\<rparr>)"

definition sched_uuid :: "string \<Rightarrow> int \<Rightarrow> uuid" where
  "sched_uuid methodName t = ''sched-'' @ methodName @ ''-'' @ toISOString t"

datatype interruption = NoStop | StopAsleep | StopWorking

definition sleep_until_time :: "int \<Rightarrow> (('u, 'x) dbos, unit) meth" where
  "sleep_until_time nextExecTime = bindE nowE (\<lambda>t.
     whenE (0 < nextExecTime - t) (on_sys (modifyE (sleep_clock (nextExecTime - t)))))"

text \<open>Start the workflow, or report that the method is none; the arguments are the scheduled and the actual time.\<close>

definition start_scheduled ::
    "('u, 'x) DBOSExecutor \<Rightarrow> (sysdb \<Rightarrow> sysdb) list \<Rightarrow> ('u, 'x) DetachableLoop \<Rightarrow> int \<Rightarrow> (('u, 'x) dbos, unit) meth" where
  "start_scheduled dx others lp nextExecTime =
     (case sr_workflow (scheduledMethod lp) of
        None \<Rightarrow> retE ()
      | Some w \<Rightarrow> bindE nowE (\<lambda>t.
          bindE (workflow dx others w (plain_params\<lparr>p_workflowUUID := Some (sched_uuid (scheduledMethodName lp) nextExecTime)\<rparr>)
                   [JDate (Some nextExecTime), JDate (Some t)]) (\<lambda>_. retE ())))"

type_synonym ('u, 'x) turn = "('u, 'x) DetachableLoop \<times> (int \<times> int) option"

definition sched_turn ::
    "('u, 'x) DBOSExecutor \<Rightarrow> (sysdb \<Rightarrow> sysdb) list \<Rightarrow> zone \<Rightarrow> interruption \<Rightarrow> ('u, 'x) DetachableLoop \<Rightarrow> (('u, 'x) dbos, ('u, 'x) turn) meth" where
  "sched_turn dx others off stop lp =
     (let nextExecTime = nextWakeupTime off (timeMatcher lp) (lastExec lp); on = (stop \<noteq> StopWorking) in
      seqE (sleep_until_time nextExecTime)
        (if stop = StopAsleep then retE (lp\<lparr>isRunning := False\<rparr>, None)
         else if \<not> tm_match off (timeMatcher lp) nextExecTime then retE (lp\<lparr>isRunning := on, lastExec := nextExecTime\<rparr>, None)
         else seqE (start_scheduled dx others lp nextExecTime)
           (bindE (on_sys (setLastScheduledTime (scheduledMethodName lp) nextExecTime)) (\<lambda>dbTime.
            retE (lp\<lparr>isRunning := on, lastExec := (if dbTime \<noteq> 0 \<and> dbTime > nextExecTime then dbTime else nextExecTime)\<rparr>,
                  Some (nextExecTime, dbTime))))))"

fun sched_turns ::
    "('u, 'x) DBOSExecutor \<Rightarrow> (sysdb \<Rightarrow> sysdb) list \<Rightarrow> zone \<Rightarrow> interruption list \<Rightarrow> ('u, 'x) DetachableLoop \<Rightarrow>
     (('u, 'x) dbos, ('u, 'x) DetachableLoop \<times> (int \<times> int) list) meth" where
  "sched_turns dx others off [] lp = retE (lp, [])"
| "sched_turns dx others off (i # is) lp =
     (if isRunning lp then
        bindE (sched_turn dx others off i lp) (\<lambda>(lp', out).
        bindE (sched_turns dx others off is lp') (\<lambda>(lp'', outs).
        retE (lp'', (case out of None \<Rightarrow> outs | Some p \<Rightarrow> p # outs))))
      else retE (lp, []))"

text \<open>A recorded time of 0 counts as none.\<close>

definition initial_exec :: "('u, 'x) DetachableLoop \<Rightarrow> (('u, 'x) dbos, ('u, 'x) DetachableLoop) meth" where
  "initial_exec lp =
     (if schedMode lp = ExactlyOncePerInterval then
        bindE (on_sys (getLastScheduledTime (scheduledMethodName lp))) (\<lambda>lasttm.
        retE (case lasttm of Some t \<Rightarrow> if t \<noteq> 0 then lp\<lparr>lastExec := t\<rparr> else lp | None \<Rightarrow> lp))
      else retE lp)"

definition startLoop ::
    "('u, 'x) DBOSExecutor \<Rightarrow> (sysdb \<Rightarrow> sysdb) list \<Rightarrow> zone \<Rightarrow> interruption list \<Rightarrow> ('u, 'x) DetachableLoop \<Rightarrow>
     (('u, 'x) dbos, ('u, 'x) DetachableLoop \<times> (int \<times> int) list) meth" where
  "startLoop dx others off is lp = bindE (initial_exec lp) (\<lambda>lp. sched_turns dx others off is (lp\<lparr>isRunning := True\<rparr>))"

definition setStopLoopFlag :: "('u, 'x) DetachableLoop \<Rightarrow> ('u, 'x) DetachableLoop" where
  "setStopLoopFlag lp = (if \<not> isRunning lp then lp else lp\<lparr>isRunning := False\<rparr>)"

text \<open>The loop with the state written out, for evaluation.\<close>

lemma start_scheduled_run [code]:
  "start_scheduled dx others lp nextExecTime s =
     (case sr_workflow (scheduledMethod lp) of
        None \<Rightarrow> (Inr (), s)
      | Some w \<Rightarrow> (case workflow dx others w (plain_params\<lparr>p_workflowUUID := Some (sched_uuid (scheduledMethodName lp) nextExecTime)\<rparr>)
                   [JDate (Some nextExecTime), JDate (Some (now (systemDatabase s)))] s of
            (Inl e, s1) \<Rightarrow> (Inl e, s1)
          | (Inr _, s1) \<Rightarrow> (Inr (), s1)))"
  by (simp add: start_scheduled_def nowE_def bindE_def [of "workflow _ _ _ _ _"] retE_def split: option.split)

definition slept_until :: "int \<Rightarrow> ('u, 'x) dbos \<Rightarrow> ('u, 'x) dbos" where
  "slept_until t s = (if 0 < t - now (systemDatabase s) then s\<lparr>systemDatabase := sleep_clock (t - now (systemDatabase s)) (systemDatabase s)\<rparr> else s)"

lemma sleep_until_time_run: "sleep_until_time t s = (Inr (), slept_until t s)"
  by (simp add: sleep_until_time_def slept_until_def nowE_def whenE_def on_sys_run modifyE_def retE_def)

lemma sched_turn_run [code]:
  "sched_turn dx others off stop lp s =
     (let nextExecTime = nextWakeupTime off (timeMatcher lp) (lastExec lp); on = (stop \<noteq> StopWorking); s = slept_until nextExecTime s in
      if stop = StopAsleep then (Inr (lp\<lparr>isRunning := False\<rparr>, None), s)
      else if \<not> tm_match off (timeMatcher lp) nextExecTime then (Inr (lp\<lparr>isRunning := on, lastExec := nextExecTime\<rparr>, None), s)
      else case start_scheduled dx others lp nextExecTime s of
        (Inl e, s1) \<Rightarrow> (Inl e, s1)
      | (Inr _, s1) \<Rightarrow> (case on_sys (setLastScheduledTime (scheduledMethodName lp) nextExecTime) s1 of
          (Inl e, s2) \<Rightarrow> (Inl e, s2)
        | (Inr dbTime, s2) \<Rightarrow> (Inr (lp\<lparr>isRunning := on, lastExec := (if dbTime \<noteq> 0 \<and> dbTime > nextExecTime then dbTime else nextExecTime)\<rparr>,
             Some (nextExecTime, dbTime)), s2)))"
  unfolding sched_turn_def Let_def seqE_def bindE_def retE_def sleep_until_time_run by simp

lemma sched_turns_run [code]:
  "sched_turns dx others off [] lp s = (Inr (lp, []), s)"
  "sched_turns dx others off (i # is) lp s =
     (if isRunning lp then
        case sched_turn dx others off i lp s of
          (Inl e, s1) \<Rightarrow> (Inl e, s1)
        | (Inr (lp', out), s1) \<Rightarrow> (case sched_turns dx others off is lp' s1 of
            (Inl e, s2) \<Rightarrow> (Inl e, s2)
          | (Inr (lp'', outs), s2) \<Rightarrow> (Inr (lp'', (case out of None \<Rightarrow> outs | Some p \<Rightarrow> p # outs)), s2))
      else (Inr (lp, []), s))"
  by (simp_all add: bindE_def retE_def split: prod.split sum.split)

section \<open>The scheduler\<close>

definition default_crontab :: string where
  "default_crontab = ''* * * * *''"

fun initScheduler :: "int \<Rightarrow> ('u, 'x) SchedulerRegistration list \<Rightarrow> jserror + ('u, 'x) DetachableLoop list" where
  "initScheduler date [] = Inr []"
| "initScheduler date (ro # ros) = (case sr_schedulerConfig ro of
      None \<Rightarrow> initScheduler date ros
    | Some c \<Rightarrow>
        bindR (new_DetachableLoop date (case sch_crontab c of None \<Rightarrow> default_crontab | Some s \<Rightarrow> s)
                 (case sch_mode c of None \<Rightarrow> ExactlyOncePerInterval | Some m \<Rightarrow> m) ro) (\<lambda>lp.
        bindR (initScheduler date ros) (\<lambda>lps. Inr (lp # lps))))"

text \<open>\<open>destroyScheduler\<close> stops every loop and forgets them; the first component are the stopped loops.\<close>

definition destroyScheduler :: "('u, 'x) DetachableLoop list \<Rightarrow> ('u, 'x) DetachableLoop list \<times> ('u, 'x) DetachableLoop list" where
  "destroyScheduler schedLoops = (map setStopLoopFlag schedLoops, [])"

section \<open>A loop runs every scheduled time\<close>

text \<open>The whole seconds after a time.\<close>

definition seconds_after :: "int \<Rightarrow> nat \<Rightarrow> int list" where
  "seconds_after t k = map (\<lambda>j. t + 1000 * int j) [1..<Suc k]"

lemma seconds_after_append: "seconds_after t (k + m) = seconds_after t k @ seconds_after (t + 1000 * int k) m"
  by (induction m) (simp_all add: seconds_after_def algebra_simps)

lemma next_wakeup_seconds:
  obtains k where "0 < k" "nextWakeupTime off tm t = t + 1000 * int k"
    "filter (tm_match off tm) (seconds_after t k) = (if tm_match off tm (nextWakeupTime off tm t) then [nextWakeupTime off tm t] else [])"
proof -
  from wakeup_loop_spec [of 3599 off tm t] obtain k where k: "0 < k" "nextWakeupTime off tm t = t + 1000 * int k"
    and before: "\<And>j. 0 < j \<Longrightarrow> j < k \<Longrightarrow> \<not> tm_match off tm (t + 1000 * int j)" by (auto simp: nextWakeupTime_def)
  have "filter (tm_match off tm) (map (\<lambda>j. t + 1000 * int j) [1..<k]) = []" using before by (auto simp: filter_empty_conv)
  moreover have "[1..<Suc k] = [1..<k] @ [k]" using k(1) by simp
  ultimately have "filter (tm_match off tm) (seconds_after t k) = (if tm_match off tm (t + 1000 * int k) then [t + 1000 * int k] else [])"
    by (simp add: seconds_after_def del: upt_Suc)
  then show ?thesis using k that by simp
qed

text \<open>Nobody else got ahead: the database answered with the times the loop recorded.\<close>

definition alone :: "(int \<times> int) list \<Rightarrow> bool" where
  "alone outs = list_all (\<lambda>(t, dbTime). dbTime = t) outs"

lemma sched_turn_cases:
  assumes "sched_turn dx others off NoStop lp s = (Inr (lp', out), t)"
  defines "next \<equiv> nextWakeupTime off (timeMatcher lp) (lastExec lp)"
  shows "(out = None \<and> \<not> tm_match off (timeMatcher lp) next \<and> lp' = lp\<lparr>isRunning := True, lastExec := next\<rparr> \<and>
            scheduler_state (systemDatabase t) = scheduler_state (systemDatabase s)) \<or>
         (\<exists>dbTime. out = Some (next, dbTime) \<and> tm_match off (timeMatcher lp) next \<and>
            lp' = lp\<lparr>isRunning := True, lastExec := (if dbTime \<noteq> 0 \<and> dbTime > next then dbTime else next)\<rparr> \<and>
            scheduler_state (systemDatabase t) (scheduledMethodName lp) = Some dbTime)"
proof -
  have sleep: "\<exists>u. sleep_until_time n s = (Inr (), u) \<and> scheduler_state (systemDatabase u) = scheduler_state (systemDatabase s)" for n s
    by (auto simp: sleep_until_time_run slept_until_def sleep_clock_def)
  obtain u where u: "sleep_until_time next s = (Inr (), u)" "scheduler_state (systemDatabase u) = scheduler_state (systemDatabase s)"
    using sleep by blast
  show ?thesis
  proof (cases "tm_match off (timeMatcher lp) next")
    case False
    with assms(1) u show ?thesis by (auto simp: sched_turn_def Let_def next_def seqE_def bindE_def retE_def)
  next
    case True
    with assms(1) u have "seqE (start_scheduled dx others lp next) (bindE (on_sys (setLastScheduledTime (scheduledMethodName lp) next)) (\<lambda>dbTime.
            retE (lp\<lparr>isRunning := True, lastExec := (if dbTime \<noteq> 0 \<and> dbTime > next then dbTime else next)\<rparr>, Some (next, dbTime)))) u = (Inr (lp', out), t)"
      by (simp add: sched_turn_def Let_def next_def [symmetric] seqE_def bindE_step)
    then obtain v where v: "bindE (on_sys (setLastScheduledTime (scheduledMethodName lp) next)) (\<lambda>dbTime.
            retE (lp\<lparr>isRunning := True, lastExec := (if dbTime \<noteq> 0 \<and> dbTime > next then dbTime else next)\<rparr>, Some (next, dbTime))) v = (Inr (lp', out), t)"
      by (rule seqE_InrD)
    from v show ?thesis
    proof (rule bindE_InrD)
      fix d w
      assume d: "on_sys (setLastScheduledTime (scheduledMethodName lp) next) v = (Inr d, w)"
        "retE (lp\<lparr>isRunning := True, lastExec := (if d \<noteq> 0 \<and> d > next then d else next)\<rparr>, Some (next, d)) w = (Inr (lp', out), t)"
      from d(1) have "scheduler_state (systemDatabase w) (scheduledMethodName lp) = Some d"
        by (auto simp: on_sys_run setLastScheduledTime_def seqE_def bindE_def modifyE_def getsE_def)
      with d(2) True show ?thesis by (auto simp: retE_def)
    qed
  qed
qed

lemma runs_all_matches:
  assumes "sched_turns dx others off (replicate n NoStop) lp s = (Inr (lp', outs), t)" "isRunning lp" "alone outs"
  shows "\<exists>k. map fst outs = filter (tm_match off (timeMatcher lp)) (seconds_after (lastExec lp) k) \<and> lastExec lp' = lastExec lp + 1000 * int k \<and>
     timeMatcher lp' = timeMatcher lp \<and> scheduledMethod lp' = scheduledMethod lp \<and> schedMode lp' = schedMode lp \<and>
     (outs = [] \<longrightarrow> scheduler_state (systemDatabase t) = scheduler_state (systemDatabase s)) \<and>
     (outs \<noteq> [] \<longrightarrow> scheduler_state (systemDatabase t) (scheduledMethodName lp) = Some (fst (last outs)))"
  using assms
proof (induction n arbitrary: lp s outs)
  case 0
  then show ?case by (auto simp: retE_def seconds_after_def intro!: exI [of _ 0])
next
  case (Suc n)
  let ?next = "nextWakeupTime off (timeMatcher lp) (lastExec lp)"
  from Suc.prems(1,2) obtain lp1 out u outs1 where turn: "sched_turn dx others off NoStop lp s = (Inr (lp1, out), u)"
    and rest: "sched_turns dx others off (replicate n NoStop) lp1 u = (Inr (lp', outs1), t)"
    and outs: "outs = (case out of None \<Rightarrow> outs1 | Some p \<Rightarrow> p # outs1)"
    by (auto simp: retE_def elim!: bindE_InrD)
  note c = sched_turn_cases [OF turn]
  have run: "isRunning lp1" using c by auto
  have al: "alone outs1" using Suc.prems(3) outs by (auto simp: alone_def split: option.splits)
  from Suc.IH [OF rest run al] obtain m where m: "map fst outs1 = filter (tm_match off (timeMatcher lp1)) (seconds_after (lastExec lp1) m)"
    "lastExec lp' = lastExec lp1 + 1000 * int m" "timeMatcher lp' = timeMatcher lp1" "scheduledMethod lp' = scheduledMethod lp1" "schedMode lp' = schedMode lp1"
    "outs1 = [] \<longrightarrow> scheduler_state (systemDatabase t) = scheduler_state (systemDatabase u)"
    "outs1 \<noteq> [] \<longrightarrow> scheduler_state (systemDatabase t) (scheduledMethodName lp1) = Some (fst (last outs1))" by blast
  obtain k where k: "0 < k" "?next = lastExec lp + 1000 * int k"
    "filter (tm_match off (timeMatcher lp)) (seconds_after (lastExec lp) k) = (if tm_match off (timeMatcher lp) ?next then [?next] else [])"
    by (rule next_wakeup_seconds)
  have same: "timeMatcher lp1 = timeMatcher lp" "scheduledMethod lp1 = scheduledMethod lp" "schedMode lp1 = schedMode lp"
    "scheduledMethodName lp1 = scheduledMethodName lp" using c by (auto simp: scheduledMethodName_def)
  have last: "lastExec lp1 = ?next" using c Suc.prems(3) outs by (auto simp: alone_def)
  have "map fst outs = filter (tm_match off (timeMatcher lp)) (seconds_after (lastExec lp) (k + m))"
    unfolding seconds_after_append filter_append using c k m(1) same(1) last outs by auto
  moreover have "lastExec lp' = lastExec lp + 1000 * int (k + m)" using m(2) last k(2) by simp
  moreover have "outs = [] \<longrightarrow> scheduler_state (systemDatabase t) = scheduler_state (systemDatabase s)"
    using c m(6) outs by (auto split: option.splits)
  moreover have "outs \<noteq> [] \<longrightarrow> scheduler_state (systemDatabase t) (scheduledMethodName lp) = Some (fst (last outs))"
  proof (cases out)
    case None
    then show ?thesis using m(7) outs same(4) by simp
  next
    case (Some p)
    then have "scheduler_state (systemDatabase u) (scheduledMethodName lp) = Some (fst p)"
      using c Suc.prems(3) outs by (auto simp: alone_def)
    then show ?thesis using Some m(6,7) outs same(4) by (cases "outs1 = []") auto
  qed
  ultimately show ?case using m(3-5) same by (intro exI [of _ "k + m"]) simp
qed

lemma last_match_seconds:
  "filter P (seconds_after t k) \<noteq> [] \<Longrightarrow>
   \<exists>j \<le> k. last (filter P (seconds_after t k)) = t + 1000 * int j \<and> filter P (seconds_after t j) = filter P (seconds_after t k)"
proof (induction k)
  case (Suc k)
  have snoc: "seconds_after t (Suc k) = seconds_after t k @ [t + 1000 * int (Suc k)]" by (simp add: seconds_after_def)
  show ?case
  proof (cases "P (t + 1000 * int (Suc k))")
    case True
    then have "last (filter P (seconds_after t (Suc k))) = t + 1000 * int (Suc k)" unfolding snoc by simp
    then show ?thesis by blast
  next
    case False
    then have "filter P (seconds_after t (Suc k)) = filter P (seconds_after t k)" unfolding snoc by simp
    with Suc show ?thesis using le_SucI by metis
  qed
qed (simp add: seconds_after_def)

lemma seconds_after_sorted: "sorted_wrt (<) (seconds_after t k)"
  by (simp add: seconds_after_def sorted_wrt_map sorted_wrt_upt del: upt_Suc)

lemma initial_exec_recorded:
  assumes "schedMode lp = ExactlyOncePerInterval" "scheduler_state (systemDatabase s) (scheduledMethodName lp) = Some t" "t \<noteq> 0"
  shows "initial_exec lp s = (Inr (lp\<lparr>lastExec := t\<rparr>), s)"
  using assms by (simp add: initial_exec_def bindE_def on_sys_run getLastScheduledTime_def getsE_def retE_def)

lemma restart_runs_all:
  assumes first: "sched_turns dx others off (replicate n NoStop) lp s = (Inr (lp1, outs1), s1)" "isRunning lp" "alone outs1" "outs1 \<noteq> []" "fst (last outs1) \<noteq> 0"
    and crash: "scheduler_state (systemDatabase s2) = scheduler_state (systemDatabase s1)"
    and again: "startLoop dx' others' off (replicate m NoStop) lp2 s2 = (Inr (lp3, outs2), s3)" "alone outs2"
      "schedMode lp2 = ExactlyOncePerInterval" "timeMatcher lp2 = timeMatcher lp" "scheduledMethod lp2 = scheduledMethod lp"
  shows "\<exists>k. map fst (outs1 @ outs2) = filter (tm_match off (timeMatcher lp)) (seconds_after (lastExec lp) k) \<and> lastExec lp3 = lastExec lp + 1000 * int k"
proof -
  let ?P = "tm_match off (timeMatcher lp)"
  from runs_all_matches [OF first(1-3)] first(4) obtain k where k: "map fst outs1 = filter ?P (seconds_after (lastExec lp) k)"
    "scheduler_state (systemDatabase s1) (scheduledMethodName lp) = Some (fst (last outs1))" by blast
  have "last (map fst outs1) = fst (last outs1)" using first(4) by (simp add: last_map)
  then obtain j where j: "fst (last outs1) = lastExec lp + 1000 * int j" "filter ?P (seconds_after (lastExec lp) j) = map fst outs1"
    using last_match_seconds [of ?P "lastExec lp" k, folded k(1)] first(4) by auto
  have "scheduledMethodName lp2 = scheduledMethodName lp" using again(5) by (simp add: scheduledMethodName_def)
  then have "initial_exec lp2 s2 = (Inr (lp2\<lparr>lastExec := fst (last outs1)\<rparr>), s2)"
    using k(2) crash first(5) again(3) by (intro initial_exec_recorded) auto
  then have "sched_turns dx' others' off (replicate m NoStop) (lp2\<lparr>lastExec := fst (last outs1), isRunning := True\<rparr>) s2 = (Inr (lp3, outs2), s3)"
    using again(1) by (simp add: startLoop_def bindE_def)
  from runs_all_matches [OF this _ again(2)] again(4) obtain i where
    "map fst outs2 = filter ?P (seconds_after (fst (last outs1)) i)" "lastExec lp3 = fst (last outs1) + 1000 * int i" by auto
  then have "map fst (outs1 @ outs2) = filter ?P (seconds_after (lastExec lp) (j + i))" "lastExec lp3 = lastExec lp + 1000 * int (j + i)"
    using j by (simp_all add: seconds_after_append)
  then show ?thesis by blast
qed

lemma sched_uuid_inject: "valid_time t \<Longrightarrow> valid_time u \<Longrightarrow> sched_uuid nm t = sched_uuid nm u \<longleftrightarrow> t = u"
  by (auto simp: sched_uuid_def dest: toISOString_inject)

end
