(* ===== verification/Debugger.thy ===== *)
theory Debugger
  imports Executor Replay
begin

text \<open>
  The debugger (\<open>src/src/debugger/debug_workflow.ts\<close>, class \<open>WorkflowContextDebug\<close>, and \<open>debugWorkflow\<close> of
  \<open>src/src/dbos-executor.ts\<close>): a context under which a finished workflow is stepped through
  again. Every operation reads its recorded outcome and none is recorded.

  With a debug proxy the transaction functions run again, on a database the proxy turns back to
  the recorded snapshot: the proxy is the parameter \<open>px\<close>, a function on the database it is told a
  snapshot by; \<open>None\<close> is the direct mode, where recorded outputs are returned without running anything.
  The variable \<open>check\<close>, which the body of the database transaction assigns and the code after it reads, is a second
  component of the state.

  The theory shows that the debug context keeps the contract of a replayer
  (\<open>interpretation dbg\<close>): a workflow debugged sees the outcomes its run saw, and nothing changes.
\<close>

type_synonym 'u proxy = "string \<Rightarrow> ('u userdb, unit) meth"

record RecordedResult =
  rr_output :: jsval
  rr_txn_snapshot :: string
  rr_txn_id :: "string option"

type_synonym check = "(jserror + RecordedResult) option"

definition or_nothing :: "string option \<Rightarrow> string" where
  "or_nothing v = (case v of None \<Rightarrow> [] | Some s \<Rightarrow> s)"

definition debug_checkExecution ::
    "('u, 'x) dbosExec \<Rightarrow> 'u proxy option \<Rightarrow> wctx \<Rightarrow> nat \<Rightarrow> (('u, 'x) dbos, jserror + RecordedResult) meth" where
  "debug_checkExecution ex px ctx funcID =
     bindE (on_user (run_sql (ex_sqlError ex) (getsE (\<lambda>db. transaction_outputs db (workflowUUID ctx, funcID))))) (\<lambda>row. case row of
       None \<Rightarrow> raiseE (DBOSDebuggerError
         ''This should never happen during debug. Found incorrect rows for transaction output. Returned 0 rows: '')
     | Some r \<Rightarrow>
         bindE (liftE (parse (ex_runtime ex) (to_error r))) (\<lambda>e.
         if e \<noteq> JNull then retE (Inl (deserializeError (ex_runtime ex) e))
         else bindE (liftE (parse (ex_runtime ex) (to_output r))) (\<lambda>v.
              seqE (case px of None \<Rightarrow> retE ()
                    | Some proxy \<Rightarrow> on_user (proxy (''--proxy:'' @ or_nothing (to_txn_id r) @ '':'' @ to_txn_snapshot r)))
                   (retE (Inr \<lparr>rr_output = v, rr_txn_snapshot = to_txn_snapshot r, rr_txn_id = to_txn_id r\<rparr>)))))"

text \<open>The body of the database transaction: \<open>wrappedTransaction\<close>, and \<open>wrappedProcedure\<close> likewise.\<close>

definition debug_wrapped ::
    "('u, 'x) dbosExec \<Rightarrow> 'u proxy option \<Rightarrow> wctx \<Rightarrow> nat \<Rightarrow> ('u \<times> bool, jsval) meth \<Rightarrow> (('u, 'x) dbos \<times> check, jsval) meth" where
  "debug_wrapped ex px ctx funcID body = (\<lambda>(s, check).
     case debug_checkExecution ex px ctx funcID s of
       (Inl e, s') \<Rightarrow> (Inl e, (s', check))
     | (Inr c, s') \<Rightarrow>
         (case px of
            None \<Rightarrow> (case c of Inl err \<Rightarrow> (Inl err, (s', Some c)) | Inr res \<Rightarrow> (Inr (rr_output res), (s', Some c)))
          | Some _ \<Rightarrow> (case on_user (run_body body) s' of (r, s'') \<Rightarrow> (r, (s'', Some c)))))"

definition debug_in_txn :: "(('u, 'x) dbos \<times> check, 'a) meth \<Rightarrow> (('u, 'x) dbos \<times> check, 'a) meth" where
  "debug_in_txn m = db_transaction (userDatabase \<circ> fst) (\<lambda>d (s, c). (s\<lparr>userDatabase := d\<rparr>, c)) m"

fun falsy :: "jsval \<Rightarrow> bool" where
  "falsy JUndefined = True"
| "falsy JNull = True"
| "falsy (JBool b) = (\<not> b)"
| "falsy (JNum q) = (q = 0)"
| "falsy (JStr s) = (s = [])"
| "falsy (JBigInt n) = (n = 0)"
| "falsy _ = False"

definition no_check :: jserror where
  "no_check = runtime_error ''TypeError'' ''Cannot read properties of undefined (reading 'output')''"

text \<open>
  What the caller gets: \<open>compare\<close> is the comparison of the recorded with the new value, which only logs but may itself throw.
  A transaction that failed before \<open>check\<close> was assigned reads a property of \<open>undefined\<close>.
\<close>

definition debug_outcome :: "(jsval \<Rightarrow> jserror + jsval \<Rightarrow> jserror + unit) \<Rightarrow> jserror + jsval \<Rightarrow> check \<Rightarrow> jserror + jsval" where
  "debug_outcome compare result check = (case check of
      None \<Rightarrow> Inl no_check
    | Some (Inl err) \<Rightarrow> Inl err
    | Some (Inr res) \<Rightarrow>
        if result = Inr JUndefined \<and> falsy (rr_output res) then result
        else bindR (compare (rr_output res) result) (\<lambda>_. Inr (rr_output res)))"

definition compare_json :: "jsval \<Rightarrow> jserror + jsval \<Rightarrow> jserror + unit" where
  "compare_json output result = bindR (stringify output) (\<lambda>_. case result of
     Inl _ \<Rightarrow> Inr () | Inr v \<Rightarrow> bindR (stringify v) (\<lambda>_. Inr ()))"

definition debug_transaction ::
    "('u, 'x) dbosExec \<Rightarrow> 'u proxy option \<Rightarrow> wctx \<Rightarrow> string \<Rightarrow> jsval list \<Rightarrow> (('u, 'x) dbos, jsval) meth" where
  "debug_transaction ex px ctx nm args =
     (case transactionInfoMap ex nm of
        None \<Rightarrow> raiseE (DBOSDebuggerError (''Transaction '' @ nm @ '' not registered!''))
      | Some info \<Rightarrow>
          bindE functionIDGetIncrement (\<lambda>funcID s.
          case debug_in_txn (debug_wrapped ex px ctx funcID (ti_transaction info args)) (s, None) of
            (result, (s', check)) \<Rightarrow> (debug_outcome compare_json result check, s')))"

text \<open>A difference in the output of a procedure is logged with \<open>JSON.stringify\<close>, which throws for big integers.\<close>

fun has_bigint :: "jsval \<Rightarrow> bool" where
  "has_bigint (JBigInt _) = True"
| "has_bigint (JArr xs) = list_ex has_bigint xs"
| "has_bigint (JObj kvs) = list_ex (\<lambda>(k, v). has_bigint v) kvs"
| "has_bigint _ = False"

definition compare_deep :: "jsval \<Rightarrow> jserror + jsval \<Rightarrow> jserror + unit" where
  "compare_deep output result =
     (if result = Inr output then Inr ()
      else if (case result of Inr v \<Rightarrow> has_bigint v | Inl _ \<Rightarrow> False) \<or> has_bigint output
      then Inl (runtime_error ''TypeError'' ''Do not know how to serialize a BigInt'') else Inr ())"

definition debug_procedure ::
    "('u, 'x) dbosExec \<Rightarrow> 'u proxy option \<Rightarrow> wctx \<Rightarrow> string \<Rightarrow> jsval list \<Rightarrow> (('u, 'x) dbos, jsval) meth" where
  "debug_procedure ex px ctx nm args =
     (case procedureInfoMap ex nm of
        None \<Rightarrow> raiseE (DBOSDebuggerError nm)
      | Some info \<Rightarrow>
          bindE functionIDGetIncrement (\<lambda>funcId s.
          case debug_in_txn (debug_wrapped ex px ctx funcId (pi_procedure info args)) (s, None) of
            (result, (s', check)) \<Rightarrow> (debug_outcome compare_deep result check, s')))"

section \<open>Operations of the system database\<close>

text \<open>The recorded output of an operation, which must exist.\<close>

definition debug_recorded :: "('u, 'x) dbosExec \<Rightarrow> wctx \<Rightarrow> nat \<Rightarrow> string \<Rightarrow> (('u, 'x) dbos, jsval) meth" where
  "debug_recorded ex ctx funcID msg =
     bindE (on_sys (checkOperationOutput (ex_runtime ex) (workflowUUID ctx) funcID)) (\<lambda>check. case check of
       None \<Rightarrow> raiseE (DBOSDebuggerError msg)
     | Some v \<Rightarrow> retE v)"

definition debug_external :: "('u, 'x) dbosExec \<Rightarrow> wctx \<Rightarrow> string \<Rightarrow> (('u, 'x) dbos, jsval) meth" where
  "debug_external ex ctx nm =
     (case stepInfoMap ex nm of
        None \<Rightarrow> raiseE (DBOSDebuggerError (''Step '' @ nm @ '' not registered!''))
      | Some _ \<Rightarrow> bindE functionIDGetIncrement (\<lambda>funcID.
          debug_recorded ex ctx funcID (''Cannot find recorded step output for '' @ nm @ ''. Shouldn't happen in debug mode!'')))"

definition debug_send :: "('u, 'x) dbosExec \<Rightarrow> wctx \<Rightarrow> (('u, 'x) dbos, unit) meth" where
  "debug_send ex ctx = bindE functionIDGetIncrement (\<lambda>functionID.
     bindE (debug_recorded ex ctx functionID ''Cannot find recorded send. Shouldn't happen in debug mode!'') (\<lambda>_. retE ()))"

definition debug_setEvent :: "('u, 'x) dbosExec \<Rightarrow> wctx \<Rightarrow> (('u, 'x) dbos, unit) meth" where
  "debug_setEvent ex ctx = bindE functionIDGetIncrement (\<lambda>functionID.
     bindE (debug_recorded ex ctx functionID ''Cannot find recorded setEvent. Shouldn't happen in debug mode!'') (\<lambda>_. retE ()))"

definition debug_recv :: "('u, 'x) dbosExec \<Rightarrow> wctx \<Rightarrow> (('u, 'x) dbos, jsval) meth" where
  "debug_recv ex ctx = bindE functionIDGetIncrement (\<lambda>functionID. bindE functionIDGetIncrement (\<lambda>_.
     debug_recorded ex ctx functionID ''Cannot find recorded recv. Shouldn't happen in debug mode!''))"

definition debug_getEvent :: "('u, 'x) dbosExec \<Rightarrow> wctx \<Rightarrow> (('u, 'x) dbos, jsval) meth" where
  "debug_getEvent ex ctx = bindE functionIDGetIncrement (\<lambda>functionID. bindE functionIDGetIncrement (\<lambda>_.
     debug_recorded ex ctx functionID ''Cannot find recorded getEvent. Shouldn't happen in debug mode!''))"

definition debug_sleepms :: "int \<Rightarrow> (('u, 'x) dbos, unit) meth" where
  "debug_sleepms ms = bindE functionIDGetIncrement (\<lambda>_. retE ())"

definition debug_sleep :: "int \<Rightarrow> (('u, 'x) dbos, unit) meth" where
  "debug_sleep s = debug_sleepms (s * 1000)"

record RetrievedHandleDebug =
  rhd_workflowUUID :: uuid
  rhd_callerUUID :: uuid
  rhd_callerFunctionID :: nat

definition debug_retrieveWorkflow :: "wctx \<Rightarrow> uuid \<Rightarrow> (('u, 'x) dbos, RetrievedHandleDebug) meth" where
  "debug_retrieveWorkflow ctx target = bindE functionIDGetIncrement (\<lambda>functionID.
     retE \<lparr>rhd_workflowUUID = target, rhd_callerUUID = workflowUUID ctx, rhd_callerFunctionID = functionID\<rparr>)"

definition debug_getStatus :: "runtime \<Rightarrow> RetrievedHandleDebug \<Rightarrow> (sysdb, jsval) meth" where
  "debug_getStatus rt h =
     bindE (checkOperationOutput rt (rhd_callerUUID h) (rhd_callerFunctionID h)) (\<lambda>check. case check of
       None \<Rightarrow> raiseE (DBOSDebuggerError ''Cannot find recorded workflow status. Shouldn't happen in debug mode!'')
     | Some v \<Rightarrow> retE v)"

definition debug_getResult :: "runtime \<Rightarrow> (sysdb \<Rightarrow> sysdb) list \<Rightarrow> RetrievedHandleDebug \<Rightarrow> (sysdb, jsval) meth" where
  "debug_getResult rt others h = getWorkflowResult rt others (rhd_workflowUUID h)"

definition debug_getWorkflowInputs :: "runtime \<Rightarrow> RetrievedHandleDebug \<Rightarrow> (sysdb, jsval list option) meth" where
  "debug_getWorkflowInputs rt h = getWorkflowInputs rt (rhd_workflowUUID h)"

section \<open>Debugging a workflow\<close>

text \<open>\<open>call\<close> is the workflow function applied to a debug context.\<close>

definition debug_result :: "jserror + jsval \<Rightarrow> jserror + jsval \<Rightarrow> jserror + jsval" where
  "debug_result result recorded =
     bindR result (\<lambda>v. bindR recorded (\<lambda>recordedResult.
     if v = JUndefined \<and> falsy recordedResult then Inr v
     else bindR (stringify v) (\<lambda>_. bindR (stringify recordedResult) (\<lambda>_. Inr recordedResult))))"

definition debugWorkflow ::
    "('u, 'x) DBOSExecutor \<Rightarrow> (sysdb \<Rightarrow> sysdb) list \<Rightarrow> ('u, 'x) Workflow \<Rightarrow> (wctx \<Rightarrow> jsval list \<Rightarrow> (('u, 'x) dbos, jsval) meth) \<Rightarrow>
     uuid option \<Rightarrow> (uuid \<times> nat) option \<Rightarrow> jsval list \<Rightarrow> (('u, 'x) dbos, WorkflowHandle) meth" where
  "debugWorkflow dx others wfl call givenUUID caller args =
     (case or_undefined givenUUID of
        None \<Rightarrow> raiseE (DBOSDebuggerError ''Workflow UUID not found!'')
      | Some u \<Rightarrow>
          (case getWorkflowInfo (dx_registry dx) wfl of
             None \<Rightarrow> raiseE (DBOSDebuggerError (''Workflow unregistered! '' @ wf_name wfl))
           | Some _ \<Rightarrow>
               bindE (on_sys (readWorkflowStatus (dx_runtime dx) u)) (\<lambda>wfStatus.
               bindE (on_sys (getWorkflowInputs (dx_runtime dx) u)) (\<lambda>recordedInputs.
               case (wfStatus, recordedInputs) of
                 (Some _, Some inputs) \<Rightarrow>
                   bindE (liftE (stringify (JArr args))) (\<lambda>received.
                   bindE (liftE (stringify (JArr inputs))) (\<lambda>original.
                   if received \<noteq> original
                   then raiseE (DBOSDebuggerError (''Detect different input for the workflow UUID '' @ u @ ''!''))
                   else (\<lambda>s. case in_new_context (call \<lparr>workflowUUID = u, presetUUID = True\<rparr> args) s of
                     (Inl e, s') \<Rightarrow> (Inr (InvokedHandle u (wf_name wfl) (Inl e) caller), s')
                   | (Inr v, s') \<Rightarrow>
                       (case on_sys (getWorkflowResult (dx_runtime dx) others u) s' of
                          (recorded, s'') \<Rightarrow> (Inr (InvokedHandle u (wf_name wfl) (debug_result (Inr v) recorded) caller), s'')))))
               | _ \<Rightarrow> raiseE (DBOSDebuggerError (''Workflow status or inputs not found! UUID: '' @ u))))))"

definition debug_startChildWorkflow ::
    "('u, 'x) DBOSExecutor \<Rightarrow> (sysdb \<Rightarrow> sysdb) list \<Rightarrow> wctx \<Rightarrow> ('u, 'x) Workflow \<Rightarrow> (wctx \<Rightarrow> jsval list \<Rightarrow> (('u, 'x) dbos, jsval) meth) \<Rightarrow>
     jsval list \<Rightarrow> (('u, 'x) dbos, WorkflowHandle) meth" where
  "debug_startChildWorkflow dx others ctx wfl call args =
     bindE functionIDGetIncrement (\<lambda>funcId.
     debugWorkflow dx others wfl call (Some (child_uuid (workflowUUID ctx) funcId)) (Some (workflowUUID ctx, funcId)) args)"

definition debug_invokeChildWorkflow ::
    "('u, 'x) DBOSExecutor \<Rightarrow> (sysdb \<Rightarrow> sysdb) list \<Rightarrow> wctx \<Rightarrow> ('u, 'x) Workflow \<Rightarrow> (wctx \<Rightarrow> jsval list \<Rightarrow> (('u, 'x) dbos, jsval) meth) \<Rightarrow>
     jsval list \<Rightarrow> (('u, 'x) dbos, jsval) meth" where
  "debug_invokeChildWorkflow dx others ctx wfl call args =
     bindE (debug_startChildWorkflow dx others ctx wfl call args) (\<lambda>h. on_sys (handle_getResult (dx_runtime dx) others h))"

definition debug_proxyInvokeWF ::
    "('u, 'x) DBOSExecutor \<Rightarrow> (sysdb \<Rightarrow> sysdb) list \<Rightarrow> wctx \<Rightarrow> ('u, 'x) Workflow \<Rightarrow> (wctx \<Rightarrow> jsval list \<Rightarrow> (('u, 'x) dbos, jsval) meth) \<Rightarrow>
     uuid option \<Rightarrow> jsval list \<Rightarrow> (('u, 'x) dbos, WorkflowHandle) meth" where
  "debug_proxyInvokeWF dx others ctx wfl call givenUUID args =
     bindE functionIDGetIncrement (\<lambda>funcId.
     let childUUID = (case or_undefined givenUUID of Some u \<Rightarrow> u | None \<Rightarrow> child_uuid (workflowUUID ctx) funcId) in
     debugWorkflow dx others wfl call (Some childUUID) (Some (workflowUUID ctx, funcId)) args)"

fun debug_op :: "('u, 'x) dbosExec \<Rightarrow> 'u proxy option \<Rightarrow> wctx \<Rightarrow> wfop \<Rightarrow> (('u, 'x) dbos, jsval) meth" where
  "debug_op ex px ctx (OpTransaction nm args) = debug_transaction ex px ctx nm args"
| "debug_op ex px ctx (OpStep nm args) = debug_external ex ctx nm"
| "debug_op ex px ctx (OpSend dest m topic) = void (debug_send ex ctx)"
| "debug_op ex px ctx (OpSetEvent k v) = void (debug_setEvent ex ctx)"
| "debug_op ex px ctx (OpSleep d) = void (debug_sleepms d)"
| "debug_op ex px ctx (OpRecv topic t) = debug_recv ex ctx"
| "debug_op ex px ctx (OpGetEvent u k t) = debug_getEvent ex ctx"

section \<open>A debugged workflow sees what its run saw\<close>

text \<open>
  The rows of messages and events hold an output and no error; a sleep of no length has no number in
  the run, but one in the debugger, so it is left out.
\<close>

fun debug_readable :: "runtime \<Rightarrow> uuid \<Rightarrow> ('u, 'x) dbos \<Rightarrow> nat \<Rightarrow> wfop \<Rightarrow> bool" where
  "debug_readable rt u s fid (OpTransaction _ _) = True"
| "debug_readable rt u s fid (OpStep _ _) = True"
| "debug_readable rt u s fid (OpSleep d) = (0 < d)"
| "debug_readable rt u s fid c = (case op_rows s (u, fid) of
     None \<Rightarrow> False | Some row \<Rightarrow> oo_error row = None \<and> \<not> isl (parse rt (oo_output row)))"

definition debug_good :: "('u, 'x) dbosExec \<Rightarrow> wctx \<Rightarrow> ('u, 'x) dbos \<Rightarrow> nat \<Rightarrow> wfop \<Rightarrow> jserror + jsval \<Rightarrow> bool" where
  "debug_good ex ctx s fid c r \<longleftrightarrow> stable ex (c, r) \<and> debug_readable (ex_runtime ex) (workflowUUID ctx) s fid c"

lemma canon_stringify: "canon_val rt v = Inr v \<Longrightarrow> \<exists>c. stringify v = Inr c"
  by (auto simp: canon_val_def bindR_def split: sum.splits)

lemma debug_recorded_run:
  "debug_recorded ex ctx fid msg s = (case recorded_op (ex_runtime ex) (systemDatabase s) (workflowUUID ctx, fid) of
     None \<Rightarrow> (Inl (DBOSDebuggerError msg), s) | Some r \<Rightarrow> (r, s))"
  by (simp add: debug_recorded_def bindE_def on_sys_run checkOperationOutput_eq raiseE_def retE_def split: option.split sum.split)

lemma recorded_clean:
  assumes "op_rows s k = Some row" "oo_error row = None"
  shows "recorded_op rt (systemDatabase s) k = Some (parse rt (oo_output row))"
  using assms by (simp add: recorded_op_def op_rows_def decode_op_def)

lemma debug_transaction_known:
  assumes "transactionInfoMap ex nm = Some info" "txn_log s (workflowUUID ctx, functionID s) = Some row"
    and "decode_txn (ex_runtime ex) row = Inr v" "canon_val (ex_runtime ex) v = Inr v" "idle s"
  shows "\<exists>t. debug_transaction ex None ctx nm args s = (Inr v, t) \<and> replays s (OpTransaction nm args) t"
proof -
  let ?s = "s\<lparr>functionID := Suc (functionID s)\<rparr>"
  let ?b = "?s\<lparr>userDatabase := begin_txn (userDatabase ?s)\<rparr>"
  let ?res = "\<lparr>rr_output = v, rr_txn_snapshot = to_txn_snapshot row, rr_txn_id = to_txn_id row\<rparr>"
  have "debug_checkExecution ex None ctx (functionID s) ?b = (Inr (Inr ?res), ?b)"
    using assms(2,3) by (auto simp: debug_checkExecution_def bindE_def on_user_run run_sql_run begin_txn_def getsE_def txn_log_def decode_txn_def
        bindR_def liftE_def seqE_def retE_def split: sum.splits if_splits)
  moreover have "next_fault (begin_txn (userDatabase s)) = None" "\<not> ud_aborted (begin_txn (userDatabase s))"
    using assms(5) by (simp_all add: idle_def faults_def next_fault_def begin_txn_def)
  ultimately have "debug_in_txn (debug_wrapped ex None ctx (functionID s) (ti_transaction info args)) (?s, None) =
      (Inr v, (?s\<lparr>userDatabase := pop_fault (begin_txn (userDatabase s))\<rparr>, Some (Inr ?res)))"
    by (simp add: debug_in_txn_def db_transaction_def debug_wrapped_def)
  moreover have "debug_outcome compare_json (Inr v) (Some (Inr ?res)) = Inr v"
    using canon_stringify [OF assms(4)] by (auto simp: debug_outcome_def compare_json_def)
  ultimately have "debug_transaction ex None ctx nm args s = (Inr v, ?s\<lparr>userDatabase := pop_fault (begin_txn (userDatabase s))\<rparr>)"
    using assms(1) by (simp add: debug_transaction_def bind_functionID)
  then show ?thesis using assms(5)
    by (auto simp: replays_def same_effects_def idle_def faults_def app_of_def txn_log_def pop_fault_def begin_txn_def)
qed

lemma bumped_replays: "idle s \<Longrightarrow> n = functionID s + width c \<Longrightarrow> replays s c (s\<lparr>functionID := n\<rparr>)"
  by (simp add: replays_def same_effects_def idle_def faults_def app_of_def txn_log_def)

lemma debug_op_known:
  assumes "knows (ex_runtime ex) (workflowUUID ctx) s (functionID s) c r" "debug_good ex ctx s (functionID s) c r" "idle s"
  shows "\<exists>t. debug_op ex None ctx c s = (r, t) \<and> replays s c t"
proof (cases c)
  case (OpTransaction nm args)
  with assms obtain info v where "transactionInfoMap ex nm = Some info" and r: "r = Inr v" "canon_val (ex_runtime ex) v = Inr v"
    by (auto simp: debug_good_def stable_def split: sum.splits)
  moreover from assms(1,3) OpTransaction r obtain row where "txn_log s (workflowUUID ctx, functionID s) = Some row" "decode_txn (ex_runtime ex) row = Inr v"
    by (auto simp: knows_txn_def idle_def)
  ultimately show ?thesis using debug_transaction_known assms(3) OpTransaction by fastforce
next
  case (OpStep nm args)
  with assms obtain info where "stepInfoMap ex nm = Some info" "recorded_op (ex_runtime ex) (systemDatabase s) (workflowUUID ctx, functionID s) = Some r"
    by (auto simp: debug_good_def stable_def)
  then show ?thesis using OpStep
    by (auto simp: debug_external_def bind_functionID debug_recorded_run intro!: bumped_replays [OF assms(3)])
next
  case (OpSleep d)
  with assms(1,2) have "r = Inr JUndefined" "0 < d" by (auto simp: debug_good_def)
  then show ?thesis using OpSleep
    by (auto simp: void_def debug_sleepms_def seqE_def bind_functionID bindE_def retE_def functionIDGetIncrement_run intro!: bumped_replays [OF assms(3)])
next
  case (OpSend d m topic)
  from assms(2) OpSend obtain row v where row: "op_rows s (workflowUUID ctx, functionID s) = Some row" "oo_error row = None" "parse (ex_runtime ex) (oo_output row) = Inr v"
    by (auto simp: debug_good_def isl_def split: option.splits) (metis obj_sumE)
  then show ?thesis using assms(1) OpSend recorded_clean [OF row(1,2)]
    by (auto simp: void_def debug_send_def seqE_def bindE_def retE_def functionIDGetIncrement_run debug_recorded_run intro!: bumped_replays [OF assms(3)])
next
  case (OpSetEvent k m)
  from assms(2) OpSetEvent obtain row v where row: "op_rows s (workflowUUID ctx, functionID s) = Some row" "oo_error row = None" "parse (ex_runtime ex) (oo_output row) = Inr v"
    by (auto simp: debug_good_def isl_def split: option.splits) (metis obj_sumE)
  then show ?thesis using assms(1) OpSetEvent recorded_clean [OF row(1,2)]
    by (auto simp: void_def debug_setEvent_def seqE_def bindE_def retE_def functionIDGetIncrement_run debug_recorded_run intro!: bumped_replays [OF assms(3)])
next
  case (OpRecv topic t)
  from assms(1,2) OpRecv obtain row where row: "op_rows s (workflowUUID ctx, functionID s) = Some row" "oo_error row = None" "parse (ex_runtime ex) (oo_output row) = r"
    by (auto simp: debug_good_def knows_row_def split: option.splits)
  then show ?thesis using OpRecv recorded_clean [OF row(1,2)]
    by (auto simp: debug_recv_def bind_functionID debug_recorded_run intro!: bumped_replays [OF assms(3)])
next
  case (OpGetEvent u k t)
  from assms(1,2) OpGetEvent obtain row where row: "op_rows s (workflowUUID ctx, functionID s) = Some row" "oo_error row = None" "parse (ex_runtime ex) (oo_output row) = r"
    by (auto simp: debug_good_def knows_row_def split: option.splits)
  then show ?thesis using OpGetEvent recorded_clean [OF row(1,2)]
    by (auto simp: debug_getEvent_def bind_functionID debug_recorded_run intro!: bumped_replays [OF assms(3)])
qed

lemma debug_good_kept: "same_effects (s\<lparr>functionID := n\<rparr>) t \<Longrightarrow> debug_good ex ctx s f c r \<Longrightarrow> debug_good ex ctx t f c r"
proof -
  assume e: "same_effects (s\<lparr>functionID := n\<rparr>) t" and g: "debug_good ex ctx s f c r"
  obtain m where "systemDatabase t = (systemDatabase s)\<lparr>now := m\<rparr>" using e unfolding same_effects_def by (metis dbos.select_convs(2) dbos.surjective dbos.update_convs(4))
  then have "op_rows t = op_rows s" by (simp add: op_rows_def)
  then show ?thesis using g by (cases c) (auto simp: debug_good_def)
qed

interpretation dbg: replayer "ex_runtime ex" "workflowUUID ctx" "debug_op ex None ctx" "debug_good ex ctx"
  for ex :: "('u, 'x) dbosExec" and ctx
  by unfold_locales (auto intro: debug_op_known debug_good_kept)

lemma debug_repeats:
  assumes "run_ops ex ctx fuel wk n p s = (p', tr, t)" "ready s" "functionID s = 0" "list_all (stable ex) tr"
    and "\<And>n. wake_keeps (wk n)" "resultBuffer t = []" "survives t x" "workflowUUID ctx' = workflowUUID ctx"
    and "all_at (\<lambda>f c r. debug_readable (ex_runtime ex) (workflowUUID ctx) x f c) 0 tr"
  shows "\<exists>y. run_with (debug_op ex None ctx') n p x = (p', tr, y) \<and> same_effects (x\<lparr>functionID := functionID y\<rparr>) y"
proof -
  have "known_trace (ex_runtime ex) (workflowUUID ctx) t 0 tr"
    using run_ops_known [OF assms(5,1,2,4)] assms(3) by simp
  then have known: "known_trace (ex_runtime ex) (workflowUUID ctx') x (functionID x) tr"
    using assms(7,8) knows_survives [OF assms(7,6)] by (auto simp: survives_def intro: known_trace_mono)
  have x: "functionID x = 0" "idle x" using assms(7) by (auto simp: survives_def)
  have "all_at (debug_good ex ctx' x) f tr"
    if "all_at (\<lambda>f c r. debug_readable (ex_runtime ex) (workflowUUID ctx) x f c) f tr" "list_all (stable ex) tr" for f tr
    using that by (induction tr arbitrary: f) (auto simp: debug_good_def assms(8))
  from this [OF assms(9,4)] dbg.run_again [OF _ known] x assms(1) show ?thesis
    by (fastforce simp: run_ops_with)
qed

text \<open>
  Without a recorded output the check throws before the variable is assigned, and what the caller gets is
  an error of the code that reads the variable, not the debugger's.
\<close>

lemma debug_transaction_missing:
  assumes "transactionInfoMap ex nm = Some info" "txn_log s (workflowUUID ctx, functionID s) = None"
  shows "fst (debug_transaction ex px ctx nm args s) = Inl no_check"
proof -
  let ?s = "s\<lparr>functionID := Suc (functionID s)\<rparr>"
  let ?b = "?s\<lparr>userDatabase := begin_txn (userDatabase ?s)\<rparr>"
  have "\<exists>e. debug_checkExecution ex px ctx (functionID s) ?b = (Inl e, ?b)"
    using assms(2) by (simp add: debug_checkExecution_def bindE_def on_user_run run_sql_run begin_txn_def getsE_def txn_log_def raiseE_def)
  then have "\<exists>e t. debug_in_txn (debug_wrapped ex px ctx (functionID s) (ti_transaction info args)) (?s, None) = (Inl e, (t, None))"
    by (auto simp: debug_in_txn_def db_transaction_def debug_wrapped_def)
  then show ?thesis using assms(1) by (auto simp: debug_transaction_def bind_functionID debug_outcome_def)
qed

lemma debug_sleep_shifts:
  "d \<le> 0 \<Longrightarrow> functionID (snd (ctx_sleepms ex ctx d s)) = functionID s \<and> functionID (snd (debug_sleepms d s)) = Suc (functionID s)"
  by (simp add: ctx_sleepms_def debug_sleepms_def bind_functionID retE_def)

end
