(* ===== verification/Fdb.thy ===== *)
theory Fdb
  imports SysDb
begin

text \<open>
  The FoundationDB system database (\<open>src/src/foundationdb/fdb_system_database.ts\<close>, class
  \<open>FoundationDBSystemDatabase\<close>), the second implementation of the interface \<open>SystemDatabase\<close>.

  FoundationDB is an ordered key-value store with serializable transactions; the state has one
  component per subspace the class opens. Values are stored as JSON (\<open>fdb.encoders.json\<close>), without the encodings of
  \<open>DBOSJSON\<close>: \<open>json_value\<close> is what is read back of a value that was stored. A watch waits for a key to
  change or for a time-out; what other sessions do meanwhile is a parameter.

  The theory interprets the contract \<open>op_store\<close> of the operation log on this implementation, so the
  lemmas of the contract hold for both system databases, and shows that messages of a topic are
  received in the order they were sent.
\<close>

section \<open>Values in the store\<close>

text \<open>The value of a property of a stored object: \<open>undefined\<close> is left out and read back as such.\<close>

definition json_value :: "jsval \<Rightarrow> jserror + jsval" where
  "json_value v = bindR (plain_all v) (\<lambda>w. Inr (case jtext w of None \<Rightarrow> JUndefined | Some j \<Rightarrow> plain_parse j))"

text \<open>
  A value that is stored by itself needs a text; what the client library does with one that has none, an
  error or a value that is read back, is the parameter \<open>no_text\<close>.
\<close>

definition json_text :: "jserror + jsval \<Rightarrow> jsval \<Rightarrow> jserror + jsval" where
  "json_text no_text v = bindR (json_value v) (\<lambda>w. if w = JUndefined then no_text else Inr w)"

section \<open>State\<close>

text \<open>A record of the status subspace; records written at the end of a workflow have no executor.\<close>

record fdb_status =
  fs_status :: status
  fs_error :: column
  fs_output :: jsval
  fs_name :: string
  fs_className :: string
  fs_configName :: string
  fs_authenticatedUser :: string
  fs_assumedRole :: string
  fs_authenticatedRoles :: "string list"
  fs_request :: jsval
  fs_executorID :: "string option"

record fdb_output =
  fo_error :: column
  fo_output :: jsval

record fdb =
  workflowStatusDB :: "(uuid \<times> fdb_status) list" \<comment> \<open>in the order of the keys\<close>
  operationOutputsDB :: "uuid \<times> nat \<rightharpoonup> fdb_output"
  notificationsDB :: "uuid \<times> string \<rightharpoonup> jsval list"
  workflowEventsDB :: "uuid \<times> string \<rightharpoonup> jsval"
  workflowInputsDB :: "uuid \<rightharpoonup> jsval list"
  fdbStatusBuffer :: "(uuid, WorkflowStatusInternal) jmap"
  fdbInputsBuffer :: "(uuid, jsval list) jmap"
  fdb_clock :: int

fun key_less :: "string \<Rightarrow> string \<Rightarrow> bool" where
  "key_less _ [] = False"
| "key_less [] (_ # _) = True"
| "key_less (a # as) (b # bs) = ((of_char a :: nat) < of_char b \<or> a = b \<and> key_less as bs)"

fun kv_set :: "string \<Rightarrow> 'v \<Rightarrow> (string \<times> 'v) list \<Rightarrow> (string \<times> 'v) list" where
  "kv_set k v [] = [(k, v)]"
| "kv_set k v ((k', v') # m) =
     (if k = k' then (k, v) # m else if key_less k k' then (k, v) # (k', v') # m else (k', v') # kv_set k v m)"

lemma kv_get_set: "map_of (kv_set k v m) = (map_of m)(k \<mapsto> v)"
  by (induction k v m rule: kv_set.induct) auto

section \<open>Status and inputs\<close>

definition fdb_checkWorkflowOutput :: "runtime \<Rightarrow> uuid \<Rightarrow> (fdb, jsval option) meth" where
  "fdb_checkWorkflowOutput rt u =
     bindE (getsE (\<lambda>db. map_of (workflowStatusDB db) u)) (\<lambda>output. case output of
       None \<Rightarrow> retE None
     | Some r \<Rightarrow>
         if fs_status r = PENDING then retE None
         else if fs_status r = ERROR then bindE (liftE (parse rt (fs_error r))) (\<lambda>e. raiseE (deserializeError rt e))
         else retE (Some (fs_output r)))"

definition set_status :: "uuid \<Rightarrow> fdb_status \<Rightarrow> (fdb, unit) meth" where
  "set_status u r = modifyE (\<lambda>db. db\<lparr>workflowStatusDB := kv_set u r (workflowStatusDB db)\<rparr>)"

definition init_record :: "WorkflowStatusInternal \<Rightarrow> jserror + fdb_status" where
  "init_record st = bindR (json_value (wsi_request st)) (\<lambda>req.
     Inr \<lparr>fs_status = wsi_status st, fs_error = None, fs_output = JNull, fs_name = wsi_name st, fs_className = wsi_className st,
       fs_configName = wsi_configName st, fs_authenticatedUser = wsi_authenticatedUser st, fs_assumedRole = wsi_assumedRole st,
       fs_authenticatedRoles = wsi_authenticatedRoles st, fs_request = req, fs_executorID = Some (wsi_executorID st)\<rparr>)"

definition pack_args :: "jsval list \<Rightarrow> jserror + jsval list" where
  "pack_args args = bindR (json_value (JArr args)) (\<lambda>v. Inr (arr_of v))"

definition fdb_initWorkflowStatus :: "WorkflowStatusInternal \<Rightarrow> jsval list \<Rightarrow> (fdb, jsval list) meth" where
  "fdb_initWorkflowStatus st args = atomicE (
     bindE (getsE (\<lambda>db. map_of (workflowStatusDB db) (wsi_workflowUUID st))) (\<lambda>present.
     seqE (case present of Some _ \<Rightarrow> retE ()
           | None \<Rightarrow> bindE (liftE (init_record st)) (set_status (wsi_workflowUUID st)))
     (bindE (getsE (\<lambda>db. workflowInputsDB db (wsi_workflowUUID st))) (\<lambda>inputs. case inputs of
        Some xs \<Rightarrow> retE xs
      | None \<Rightarrow> bindE (liftE (pack_args args)) (\<lambda>xs.
          seqE (modifyE (\<lambda>db. db\<lparr>workflowInputsDB := (workflowInputsDB db)(wsi_workflowUUID st \<mapsto> xs)\<rparr>)) (retE args))))))"

definition fdb_bufferWorkflowOutput :: "uuid \<Rightarrow> WorkflowStatusInternal \<Rightarrow> (fdb, unit) meth" where
  "fdb_bufferWorkflowOutput u st = modifyE (\<lambda>db. db\<lparr>fdbStatusBuffer := jm_set u st (fdbStatusBuffer db)\<rparr>)"

definition fdb_bufferWorkflowInputs :: "uuid \<Rightarrow> jsval list \<Rightarrow> (fdb, unit) meth" where
  "fdb_bufferWorkflowInputs u args = modifyE (\<lambda>db. db\<lparr>fdbInputsBuffer := jm_set u args (fdbInputsBuffer db)\<rparr>)"

definition end_record :: "status \<Rightarrow> column \<Rightarrow> jsval \<Rightarrow> WorkflowStatusInternal \<Rightarrow> jserror + fdb_status" where
  "end_record s err out st = bindR (json_value out) (\<lambda>v. bindR (json_value (wsi_request st)) (\<lambda>req.
     Inr \<lparr>fs_status = s, fs_error = err, fs_output = v, fs_name = wsi_name st, fs_className = wsi_className st,
       fs_configName = wsi_configName st, fs_authenticatedUser = wsi_authenticatedUser st, fs_assumedRole = wsi_assumedRole st,
       fs_authenticatedRoles = wsi_authenticatedRoles st, fs_request = req, fs_executorID = None\<rparr>))"

text \<open>
  The buffer is emptied before the transaction, and not filled again when it fails: \<open>fault\<close> is
  an error of the commit.
\<close>

definition commit_or :: "jserror option \<Rightarrow> (fdb, unit) meth \<Rightarrow> (fdb, unit) meth" where
  "commit_or fault m = atomicE (seqE m (case fault of None \<Rightarrow> retE () | Some e \<Rightarrow> raiseE e))"

definition fdb_flushWorkflowStatusBuffer :: "jserror option \<Rightarrow> (fdb, unit) meth" where
  "fdb_flushWorkflowStatusBuffer fault =
     bindE (getsE fdbStatusBuffer) (\<lambda>localBuffer.
     seqE (modifyE (\<lambda>db. db\<lparr>fdbStatusBuffer := []\<rparr>))
       (commit_or fault (bindE (mapE (\<lambda>(u, st).
          bindE (liftE (end_record (wsi_status st) None (wsi_output st) st)) (set_status u)) localBuffer) (\<lambda>_. retE ()))))"

definition fdb_flushWorkflowInputsBuffer :: "jserror option \<Rightarrow> (fdb, unit) meth" where
  "fdb_flushWorkflowInputsBuffer fault =
     bindE (getsE fdbInputsBuffer) (\<lambda>localBuffer.
     seqE (modifyE (\<lambda>db. db\<lparr>fdbInputsBuffer := []\<rparr>))
       (commit_or fault (bindE (mapE (\<lambda>(u, args).
          bindE (getsE (\<lambda>db. workflowInputsDB db u)) (\<lambda>inputs. case inputs of
            Some _ \<Rightarrow> retE ()
          | None \<Rightarrow> bindE (liftE (pack_args args)) (\<lambda>xs.
              modifyE (\<lambda>db. db\<lparr>workflowInputsDB := (workflowInputsDB db)(u \<mapsto> xs)\<rparr>)))) localBuffer) (\<lambda>_. retE ()))))"

definition fdb_flushWorkflowSystemBuffers :: "jserror option \<Rightarrow> jserror option \<Rightarrow> (fdb, unit) meth" where
  "fdb_flushWorkflowSystemBuffers f1 f2 = seqE (fdb_flushWorkflowStatusBuffer f1) (fdb_flushWorkflowInputsBuffer f2)"

definition fdb_recordWorkflowError :: "uuid \<Rightarrow> WorkflowStatusInternal \<Rightarrow> (fdb, unit) meth" where
  "fdb_recordWorkflowError u st = bindE (liftE (end_record ERROR (wsi_error st) JNull st)) (set_status u)"

definition fdb_getPendingWorkflows :: "string \<Rightarrow> (fdb, uuid list) meth" where
  "fdb_getPendingWorkflows executorID = getsE (\<lambda>db.
     map fst (filter (\<lambda>(u, r). key_less u [CHR 0xFF] \<and> fs_status r = PENDING \<and> fs_executorID r = Some executorID) (workflowStatusDB db)))"

definition fdb_getWorkflowInputs :: "uuid \<Rightarrow> (fdb, jsval list option) meth" where
  "fdb_getWorkflowInputs u = getsE (\<lambda>db. workflowInputsDB db u)"

section \<open>The operation log\<close>

definition fdb_checkOperationOutput :: "runtime \<Rightarrow> uuid \<Rightarrow> nat \<Rightarrow> (fdb, jsval option) meth" where
  "fdb_checkOperationOutput rt u fid =
     bindE (getsE (\<lambda>db. operationOutputsDB db (u, fid))) (\<lambda>output. case output of
       None \<Rightarrow> retE None
     | Some r \<Rightarrow>
         bindE (liftE (parse rt (fo_error r))) (\<lambda>e.
         if e \<noteq> JNull then raiseE (deserializeError rt e) else retE (Some (fo_output r))))"

definition set_output :: "uuid \<Rightarrow> nat \<Rightarrow> column \<Rightarrow> jsval \<Rightarrow> (fdb, unit) meth" where
  "set_output u fid err out = bindE (liftE (json_value out)) (\<lambda>v.
     modifyE (\<lambda>db. db\<lparr>operationOutputsDB := (operationOutputsDB db)((u, fid) \<mapsto> \<lparr>fo_error = err, fo_output = v\<rparr>)\<rparr>))"

definition record_once :: "uuid \<Rightarrow> nat \<Rightarrow> column \<Rightarrow> jsval \<Rightarrow> (fdb, unit) meth" where
  "record_once u fid err out = atomicE (
     bindE (getsE (\<lambda>db. operationOutputsDB db (u, fid))) (\<lambda>keyOutput. case keyOutput of
       Some _ \<Rightarrow> raiseE (DBOSWorkflowConflictUUIDError u)
     | None \<Rightarrow> set_output u fid err out))"

definition fdb_recordOperationOutput :: "uuid \<Rightarrow> nat \<Rightarrow> jsval \<Rightarrow> (fdb, unit) meth" where
  "fdb_recordOperationOutput u fid output = record_once u fid None output"

definition fdb_recordOperationError :: "runtime \<Rightarrow> uuid \<Rightarrow> nat \<Rightarrow> jserror \<Rightarrow> (fdb, unit) meth" where
  "fdb_recordOperationError rt u fid error =
     bindE (liftE (stringify (serializeError rt error))) (\<lambda>serialErr. record_once u fid serialErr JNull)"

section \<open>Status and result of a workflow\<close>

definition fdb_status_val :: "fdb_status option \<Rightarrow> jsval" where
  "fdb_status_val r = (case r of None \<Rightarrow> JNull | Some r \<Rightarrow> JObj [
     (''status'', JStr (statusString (fs_status r))), (''workflowName'', JStr (fs_name r)),
     (''workflowClassName'', JStr (fs_className r)), (''workflowConfigName'', JStr (fs_configName r)),
     (''authenticatedUser'', JStr (fs_authenticatedUser r)), (''authenticatedRoles'', JArr (map JStr (fs_authenticatedRoles r))),
     (''assumedRole'', JStr (fs_assumedRole r)), (''request'', fs_request r)])"

definition fdb_getWorkflowStatus :: "uuid \<Rightarrow> (uuid \<times> nat) option \<Rightarrow> (fdb, jsval) meth" where
  "fdb_getWorkflowStatus u caller =
     bindE (getsE (\<lambda>db. case caller of None \<Rightarrow> None | Some c \<Rightarrow> operationOutputsDB db c)) (\<lambda>prev. case prev of
       Some r \<Rightarrow> retE (fo_output r)
     | None \<Rightarrow>
         bindE (getsE (\<lambda>db. fdb_status_val (map_of (workflowStatusDB db) u))) (\<lambda>v.
         seqE (case caller of None \<Rightarrow> retE () | Some (cu, cf) \<Rightarrow> fdb_recordOperationOutput cu cf v) (retE v)))"

definition not_implemented :: "(fdb, 'a) meth" where
  "not_implemented = raiseE (runtime_error ''Error'' ''Method not implemented.'')"

definition fdb_setWorkflowStatus :: "uuid \<Rightarrow> status \<Rightarrow> bool \<Rightarrow> (fdb, unit) meth" where
  "fdb_setWorkflowStatus u st reset = not_implemented"

text \<open>
  A workflow without a record is waited for with a watch; one that is pending is asked again. \<open>others\<close> are the
  changes other sessions make, one per wait or turn; a loop that outlives them never ends.
\<close>

definition fdb_result :: "runtime \<Rightarrow> fdb_status \<Rightarrow> (fdb, jsval) meth \<Rightarrow> (fdb, jsval) meth" where
  "fdb_result rt output again =
     (if fs_status output = SUCCESS then retE (fs_output output)
      else if fs_status output = ERROR then bindE (liftE (parse rt (fs_error output))) (\<lambda>e. raiseE (deserializeError rt e))
      else again)"

fun fdb_getWorkflowResult :: "runtime \<Rightarrow> (fdb \<Rightarrow> fdb) list \<Rightarrow> uuid \<Rightarrow> (fdb, jsval) meth" where
  "fdb_getWorkflowResult rt [] u =
     bindE (getsE (\<lambda>db. map_of (workflowStatusDB db) u)) (\<lambda>watched. case watched of
       None \<Rightarrow> raiseE Diverges
     | Some output \<Rightarrow> fdb_result rt output (raiseE Diverges))"
| "fdb_getWorkflowResult rt (f # fs) u =
     bindE (getsE (\<lambda>db. map_of (workflowStatusDB db) u)) (\<lambda>watched. case watched of
       None \<Rightarrow>
         seqE (modifyE f)
         (bindE (getsE (\<lambda>db. map_of (workflowStatusDB db) u)) (\<lambda>v. case v of
            None \<Rightarrow> raiseE (runtime_error ''TypeError'' ''Cannot read properties of undefined (reading 'status')'')
          | Some output \<Rightarrow> fdb_result rt output (fdb_getWorkflowResult rt fs u)))
     | Some output \<Rightarrow> fdb_result rt output (seqE (modifyE f) (fdb_getWorkflowResult rt fs u)))"

section \<open>Messages, events, sleep\<close>

definition nullTopic :: string where
  "nullTopic = ''__null__topic__''"

definition fdb_topic :: "string option \<Rightarrow> string" where
  "fdb_topic topic = (case topic of None \<Rightarrow> nullTopic | Some t \<Rightarrow> t)"

definition set_messages :: "uuid \<Rightarrow> string \<Rightarrow> jsval list \<Rightarrow> (fdb, unit) meth" where
  "set_messages u topic ms = bindE (liftE (pack_args ms)) (\<lambda>xs.
     modifyE (\<lambda>db. db\<lparr>notificationsDB := (notificationsDB db)((u, topic) \<mapsto> xs)\<rparr>))"

definition fdb_send :: "uuid \<Rightarrow> nat \<Rightarrow> uuid \<Rightarrow> jsval \<Rightarrow> string option \<Rightarrow> (fdb, unit) meth" where
  "fdb_send u fid dest message topic = atomicE (
     bindE (getsE (\<lambda>db. operationOutputsDB db (u, fid))) (\<lambda>output. case output of
       Some _ \<Rightarrow> retE ()
     | None \<Rightarrow>
         bindE (getsE (\<lambda>db. notificationsDB db (dest, fdb_topic topic))) (\<lambda>exists.
         seqE (set_messages dest (fdb_topic topic) (case exists of None \<Rightarrow> [message] | Some ms \<Rightarrow> ms @ [message]))
              (set_output u fid None JUndefined))))"

definition null_if_undefined :: "jsval \<Rightarrow> jsval" where
  "null_if_undefined v = (if v = JUndefined then JNull else v)"

definition fdb_consume :: "uuid \<Rightarrow> nat \<Rightarrow> string \<Rightarrow> (fdb, jsval) meth" where
  "fdb_consume u fid topic = atomicE (
     bindE (getsE (\<lambda>db. notificationsDB db (u, topic))) (\<lambda>messages.
     let message = (case messages of Some (m # _) \<Rightarrow> null_if_undefined m | _ \<Rightarrow> JNull);
         rest = (case messages of Some ms \<Rightarrow> tl ms | None \<Rightarrow> []) in
     bindE (getsE (\<lambda>db. operationOutputsDB db (u, fid))) (\<lambda>output. case output of
       Some _ \<Rightarrow> raiseE (DBOSWorkflowConflictUUIDError u)
     | None \<Rightarrow>
         seqE (set_output u fid None message)
         (seqE (if rest \<noteq> [] then set_messages u topic rest
                else modifyE (\<lambda>db. db\<lparr>notificationsDB := (notificationsDB db)((u, topic) := None)\<rparr>))
         (retE message)))))"

text \<open>\<open>wk\<close> is what happens while the watch waits, until the key changes or the time is over.\<close>

definition fdb_recv :: "(fdb \<Rightarrow> fdb) \<Rightarrow> uuid \<Rightarrow> nat \<Rightarrow> string option \<Rightarrow> (fdb, jsval) meth" where
  "fdb_recv wk u fid topic =
     bindE (getsE (\<lambda>db. operationOutputsDB db (u, fid))) (\<lambda>output. case output of
       Some r \<Rightarrow> retE (fo_output r)
     | None \<Rightarrow>
         bindE (getsE (\<lambda>db. notificationsDB db (u, fdb_topic topic))) (\<lambda>v.
         seqE (whenE (v = None) (modifyE wk)) (fdb_consume u fid (fdb_topic topic))))"

definition fdb_setEvent :: "jserror + jsval \<Rightarrow> uuid \<Rightarrow> nat \<Rightarrow> string \<Rightarrow> jsval \<Rightarrow> (fdb, unit) meth" where
  "fdb_setEvent no_text u fid key v = atomicE (
     bindE (getsE (\<lambda>db. operationOutputsDB db (u, fid))) (\<lambda>output. case output of
       Some _ \<Rightarrow> retE ()
     | None \<Rightarrow>
         seqE (bindE (liftE (json_text no_text v)) (\<lambda>w.
                modifyE (\<lambda>db. db\<lparr>workflowEventsDB := (workflowEventsDB db)((u, key) \<mapsto> w)\<rparr>)))
              (set_output u fid None JUndefined)))"

definition fdb_getEvent :: "(fdb \<Rightarrow> fdb) \<Rightarrow> uuid \<Rightarrow> string \<Rightarrow> (uuid \<times> nat) option \<Rightarrow> (fdb, jsval) meth" where
  "fdb_getEvent wk u key caller =
     bindE (getsE (\<lambda>db. case caller of None \<Rightarrow> None | Some c \<Rightarrow> operationOutputsDB db c)) (\<lambda>output. case output of
       Some r \<Rightarrow> retE (fo_output r)
     | None \<Rightarrow>
         bindE (getsE (\<lambda>db. workflowEventsDB db (u, key))) (\<lambda>watched.
         bindE (case watched of
             Some v \<Rightarrow> retE v
           | None \<Rightarrow> seqE (modifyE wk) (getsE (\<lambda>db. case workflowEventsDB db (u, key) of None \<Rightarrow> JNull | Some v \<Rightarrow> null_if_undefined v))) (\<lambda>v.
         seqE (case caller of None \<Rightarrow> retE () | Some (cu, cf) \<Rightarrow> fdb_recordOperationOutput cu cf v) (retE v))))"

definition fdb_sleepms :: "uuid \<Rightarrow> nat \<Rightarrow> int \<Rightarrow> (fdb, unit) meth" where
  "fdb_sleepms u fid durationMS = modifyE (\<lambda>db. db\<lparr>fdb_clock := fdb_clock db + node_timeout durationMS\<rparr>)"

definition fdb_getLastScheduledTime :: "string \<Rightarrow> (fdb, int option) meth" where
  "fdb_getLastScheduledTime wfn = retE None"

definition fdb_setLastScheduledTime :: "string \<Rightarrow> int \<Rightarrow> (fdb, int option) meth" where
  "fdb_setLastScheduledTime wfn invtime = retE None"

section \<open>The contract of the operation log\<close>

definition fdb_decode :: "runtime \<Rightarrow> fdb_output \<Rightarrow> jserror + jsval" where
  "fdb_decode rt r = bindR (parse rt (fo_error r)) (\<lambda>e. if e \<noteq> JNull then Inl (deserializeError rt e) else Inr (fo_output r))"

definition fdb_recorded :: "runtime \<Rightarrow> fdb \<Rightarrow> uuid \<times> nat \<rightharpoonup> jserror + jsval" where
  "fdb_recorded rt db = (\<lambda>k. map_option (fdb_decode rt) (operationOutputsDB db k))"

definition fdb_canon_err :: "runtime \<Rightarrow> jserror \<Rightarrow> jserror + jsval" where
  "fdb_canon_err rt e = bindR (stringify (serializeError rt e)) (\<lambda>c. fdb_decode rt \<lparr>fo_error = c, fo_output = JNull\<rparr>)"

lemma fdb_check_eq:
  "fdb_checkOperationOutput rt u f db = (case fdb_recorded rt db (u, f) of
     None \<Rightarrow> (Inr None, db) | Some (Inl e) \<Rightarrow> (Inl e, db) | Some (Inr v) \<Rightarrow> (Inr (Some v), db))"
  by (auto simp: fdb_checkOperationOutput_def fdb_recorded_def fdb_decode_def em_simps bindR_def split: option.splits sum.splits)

lemma record_once_eq:
  "record_once u f err out db = (case operationOutputsDB db (u, f) of
     Some _ \<Rightarrow> (Inl (DBOSWorkflowConflictUUIDError u), db)
   | None \<Rightarrow> (case json_value out of Inl e \<Rightarrow> (Inl e, db)
      | Inr v \<Rightarrow> (Inr (), db\<lparr>operationOutputsDB := (operationOutputsDB db)((u, f) \<mapsto> \<lparr>fo_error = err, fo_output = v\<rparr>)\<rparr>)))"
  by (auto simp: record_once_def set_output_def em_simps split: option.splits sum.splits)

lemma json_value_null [simp]: "json_value JNull = Inr JNull"
  by (simp add: json_value_def)

lemma fdb_decode_output [simp]: "fdb_decode rt \<lparr>fo_error = None, fo_output = v\<rparr> = Inr v"
  by (simp add: fdb_decode_def parse_null)

interpretation fdb: op_store "fdb_checkOperationOutput rt" fdb_recordOperationOutput "fdb_recordOperationError rt"
  "fdb_recorded rt" json_value "fdb_canon_err rt" DBOSWorkflowConflictUUIDError
  for rt :: runtime
proof unfold_locales
  fix s t u f v v' x e e'
  show "fdb_recorded rt s (u, f) = None \<Longrightarrow> fdb_checkOperationOutput rt u f s = (Inr None, s)"
    and "fdb_recorded rt s (u, f) = Some (Inr v) \<Longrightarrow> fdb_checkOperationOutput rt u f s = (Inr (Some v), s)"
    and "fdb_recorded rt s (u, f) = Some (Inl e) \<Longrightarrow> fdb_checkOperationOutput rt u f s = (Inl e, s)"
    by (simp_all add: fdb_check_eq)
  show "fdb_recordOperationOutput u f v s = (Inr x, t) \<Longrightarrow> fdb_recorded rt t = (fdb_recorded rt s)((u, f) \<mapsto> json_value v)"
    by (auto simp: fdb_recordOperationOutput_def record_once_eq fdb_recorded_def fun_eq_iff split: option.splits sum.splits)
  show "fdb_recordOperationError rt u f e s = (Inr x, t) \<Longrightarrow> fdb_recorded rt t = (fdb_recorded rt s)((u, f) \<mapsto> fdb_canon_err rt e)"
    by (auto simp: fdb_recordOperationError_def record_once_eq fdb_recorded_def fdb_canon_err_def fun_eq_iff bindE_def liftE_def
        split: option.splits sum.splits)
  show "fdb_recordOperationOutput u f v s = (Inl e, t) \<Longrightarrow> t = s"
    and "fdb_recordOperationError rt u f e s = (Inl e', t) \<Longrightarrow> t = s"
    by (auto simp: fdb_recordOperationOutput_def fdb_recordOperationError_def record_once_eq bindE_def liftE_def split: option.splits sum.splits)
  show "fdb_recorded rt s (u, f) \<noteq> None \<Longrightarrow> json_value v = Inr v' \<Longrightarrow> fdb_recordOperationOutput u f v s = (Inl (DBOSWorkflowConflictUUIDError u), s)"
    by (auto simp: fdb_recordOperationOutput_def record_once_eq fdb_recorded_def)
qed

section \<open>Messages form a queue\<close>

text \<open>What an element of a stored array is read back as.\<close>

definition json_elem :: "jsval \<Rightarrow> jserror + jsval" where
  "json_elem v = bindR (plain_all v) (\<lambda>w. Inr (case jtext w of None \<Rightarrow> JNull | Some j \<Rightarrow> plain_parse j))"

lemma pack_args_elems: "pack_args ms = traverse json_elem ms"
proof -
  have "bindR (traverse plain_all ms) (\<lambda>ys. Inr (map (\<lambda>x. plain_parse (case jtext x of None \<Rightarrow> Null | Some j \<Rightarrow> j)) ys)) = traverse json_elem ms"
    by (induction ms) (auto simp: json_elem_def bindR_def split: sum.splits option.splits)
  then show ?thesis by (auto simp: pack_args_def json_value_def bindR_def arr_of_def o_def split: sum.splits)
qed

lemma plain_parse_fixed: "plain_all (plain_parse j) = Inr (plain_parse j) \<and> jtext (plain_parse j) = Some j"
proof (induction j)
  case (Arr xs)
  then have "traverse plain_all (map plain_parse xs) = Inr (map plain_parse xs)" by (induction xs) auto
  moreover have "map (\<lambda>x. case jtext (plain_parse x) of None \<Rightarrow> Null | Some j \<Rightarrow> j) xs = xs" using Arr by (induction xs) auto
  ultimately show ?case by (simp add: o_def)
next
  case (Obj kvs)
  then have IH: "\<And>k j. (k, j) \<in> set kvs \<Longrightarrow> plain_all (plain_parse j) = Inr (plain_parse j) \<and> jtext (plain_parse j) = Some j"
    by auto
  then have "traverse (\<lambda>(k, v). bindR (plain_all v) (\<lambda>w. Inr (k, w))) (map (\<lambda>(k, j). (k, plain_parse j)) kvs) = Inr (map (\<lambda>(k, j). (k, plain_parse j)) kvs)"
  proof (induction kvs)
    case (Cons kv kvs)
    obtain k j where kv: "kv = (k, j)" by (cases kv)
    have "plain_all (plain_parse j) = Inr (plain_parse j)" using Cons.prems [of k j] by (simp add: kv)
    moreover have "\<And>k j. (k, j) \<in> set kvs \<Longrightarrow> plain_all (plain_parse j) = Inr (plain_parse j) \<and> jtext (plain_parse j) = Some j"
      using Cons.prems [OF list.set_intros(2)] .
    note Cons.IH [OF this]
    ultimately show ?case by (simp add: kv)
  qed simp
  moreover have "concat (map (\<lambda>(k, x). case jtext x of None \<Rightarrow> [] | Some j \<Rightarrow> [(k, j)]) (map (\<lambda>(k, j). (k, plain_parse j)) kvs)) = kvs"
    using IH by (induction kvs) fastforce+
  ultimately show ?case by simp
qed simp_all

lemma json_elem_fixed: "json_elem v = Inr w \<Longrightarrow> json_elem w = Inr w \<and> json_value w = Inr w \<and> w \<noteq> JUndefined"
proof -
  assume "json_elem v = Inr w"
  then obtain j where j: "w = plain_parse j"
    by (auto simp: json_elem_def bindR_def split: sum.splits option.splits intro: that [of Null])
  have "plain_parse j \<noteq> JUndefined" by (cases j) simp_all
  with plain_parse_fixed [of j] show ?thesis by (simp add: j json_elem_def json_value_def)
qed

definition fdb_queue :: "fdb \<Rightarrow> uuid \<times> string \<Rightarrow> jsval list" where
  "fdb_queue db k = (case notificationsDB db k of None \<Rightarrow> [] | Some ms \<Rightarrow> ms)"

definition fdb_ok :: "fdb \<Rightarrow> bool" where
  "fdb_ok db \<longleftrightarrow> (\<forall>k m. m \<in> set (fdb_queue db k) \<longrightarrow> json_elem m = Inr m)"

lemma pack_fixed: "(\<And>m. m \<in> set ms \<Longrightarrow> json_elem m = Inr m) \<Longrightarrow> pack_args ms = Inr ms"
  unfolding pack_args_elems by (induction ms) auto

lemma pack_append: "pack_args ms = Inr ms \<Longrightarrow> json_elem m = Inr w \<Longrightarrow> pack_args (ms @ [m]) = Inr (ms @ [w])"
  unfolding pack_args_elems by (induction ms) (auto simp: bindR_def split: sum.splits)

lemma fdb_send_queue:
  assumes "fdb_ok db" "operationOutputsDB db (u, f) = None" "json_elem m = Inr w"
  shows "\<exists>db'. fdb_send u f dest m topic db = (Inr (), db') \<and> fdb_ok db' \<and>
    fdb_queue db' = (fdb_queue db)((dest, fdb_topic topic) := fdb_queue db (dest, fdb_topic topic) @ [w]) \<and>
    operationOutputsDB db' = (operationOutputsDB db)((u, f) \<mapsto> \<lparr>fo_error = None, fo_output = JUndefined\<rparr>)"
proof -
  let ?k = "(dest, fdb_topic topic)" and ?q = "fdb_queue db (dest, fdb_topic topic)"
  have "pack_args (?q @ [m]) = Inr (?q @ [w])"
    using assms(1,3) by (intro pack_append pack_fixed) (auto simp: fdb_ok_def)
  moreover have "(case notificationsDB db ?k of None \<Rightarrow> [m] | Some ms \<Rightarrow> ms @ [m]) = ?q @ [m]" by (auto simp: fdb_queue_def split: option.splits)
  ultimately have "fdb_send u f dest m topic db = (Inr (), db\<lparr>notificationsDB := (notificationsDB db)(?k \<mapsto> ?q @ [w]),
      operationOutputsDB := (operationOutputsDB db)((u, f) \<mapsto> \<lparr>fo_error = None, fo_output = JUndefined\<rparr>)\<rparr>)"
    using assms(2) by (simp add: fdb_send_def set_messages_def set_output_def em_simps json_value_def)
  moreover have "json_elem w = Inr w" using json_elem_fixed [OF assms(3)] by simp
  ultimately show ?thesis using assms(1) by (auto simp: fdb_ok_def fdb_queue_def fun_eq_iff split: if_splits)
qed

lemma fdb_consume_queue:
  assumes "fdb_ok db" "operationOutputsDB db (u, f) = None"
  shows "\<exists>db'. fdb_consume u f topic db = (Inr (case fdb_queue db (u, topic) of [] \<Rightarrow> JNull | m # _ \<Rightarrow> m), db') \<and> fdb_ok db' \<and>
    fdb_queue db' = (fdb_queue db)((u, topic) := tl (fdb_queue db (u, topic))) \<and>
    operationOutputsDB db' = (operationOutputsDB db)((u, f) \<mapsto>
      \<lparr>fo_error = None, fo_output = (case fdb_queue db (u, topic) of [] \<Rightarrow> JNull | m # _ \<Rightarrow> m)\<rparr>)"
proof -
  let ?q = "fdb_queue db (u, topic)"
  let ?m = "case ?q of [] \<Rightarrow> JNull | m # _ \<Rightarrow> m"
  have elems: "\<And>m. m \<in> set ?q \<Longrightarrow> json_elem m = Inr m" using assms(1) by (simp add: fdb_ok_def)
  have m: "json_value ?m = Inr ?m"
  proof (cases ?q)
    case (Cons m ms)
    with elems [of m] json_elem_fixed [of m m] show ?thesis by simp
  qed simp
  have defd: "JUndefined \<notin> set ?q"
  proof
    assume "JUndefined \<in> set ?q"
    from json_elem_fixed [OF elems [OF this]] show False by simp
  qed
  have msg: "(case notificationsDB db (u, topic) of Some (m # _) \<Rightarrow> null_if_undefined m | _ \<Rightarrow> JNull) = ?m"
    using defd by (auto simp: fdb_queue_def null_if_undefined_def split: option.splits list.splits dest: json_elem_fixed)
  have rest: "(case notificationsDB db (u, topic) of Some ms \<Rightarrow> tl ms | None \<Rightarrow> []) = tl ?q" by (auto simp: fdb_queue_def split: option.splits)
  have pack: "pack_args (tl ?q) = Inr (tl ?q)"
    by (rule pack_fixed, rule elems) (cases ?q; simp)
  let ?db = "db\<lparr>operationOutputsDB := (operationOutputsDB db)((u, f) \<mapsto> \<lparr>fo_error = None, fo_output = ?m\<rparr>),
     notificationsDB := (notificationsDB db)((u, topic) := (if tl ?q = [] then None else Some (tl ?q)))\<rparr>"
  have "fdb_consume u f topic db = (Inr ?m, ?db)"
    unfolding fdb_consume_def using assms(2) m pack
    by (simp add: em_simps msg rest set_output_def set_messages_def Let_def)
  moreover have "fdb_queue ?db = (fdb_queue db)((u, topic) := tl ?q)" by (auto simp: fdb_queue_def fun_eq_iff split: option.splits)
  moreover have "fdb_ok ?db" unfolding fdb_ok_def \<open>fdb_queue ?db = _\<close>
    using assms(1) elems by (cases ?q) (auto simp: fdb_ok_def)
  ultimately show ?thesis by auto
qed

lemma fdb_recv_queue:
  assumes "fdb_ok db" "operationOutputsDB db (u, f) = None" "fdb_queue db (u, fdb_topic topic) = m # ms"
  shows "\<exists>db'. fdb_recv wk u f topic db = (Inr m, db') \<and> fdb_ok db' \<and> fdb_queue db' = (fdb_queue db)((u, fdb_topic topic) := ms) \<and>
    operationOutputsDB db' = (operationOutputsDB db)((u, f) \<mapsto> \<lparr>fo_error = None, fo_output = m\<rparr>)"
proof -
  from assms(3) have "notificationsDB db (u, fdb_topic topic) \<noteq> None" by (auto simp: fdb_queue_def split: option.splits)
  with assms(2) have "fdb_recv wk u f topic db = fdb_consume u f (fdb_topic topic) db" by (auto simp: fdb_recv_def em_simps)
  with fdb_consume_queue [OF assms(1,2), of "fdb_topic topic"] show ?thesis by (simp add: assms(3))
qed

text \<open>A run of sends, and a run of receives, with consecutive function identifiers.\<close>

definition fdb_send_all :: "uuid \<Rightarrow> nat \<Rightarrow> uuid \<Rightarrow> string option \<Rightarrow> jsval list \<Rightarrow> (fdb, unit list) meth" where
  "fdb_send_all u f dest topic ms = mapE (\<lambda>(i, m). fdb_send u i dest m topic) (enumerate f ms)"

definition fdb_recv_all :: "(fdb \<Rightarrow> fdb) \<Rightarrow> uuid \<Rightarrow> nat \<Rightarrow> string option \<Rightarrow> nat \<Rightarrow> (fdb, jsval list) meth" where
  "fdb_recv_all wk u f topic n = mapE (\<lambda>i. fdb_recv wk u i topic) [f..<f + n]"

lemma fdb_send_all_queue:
  assumes "fdb_ok db" "\<And>i. f \<le> i \<Longrightarrow> operationOutputsDB db (u, i) = None" "traverse json_elem ms = Inr ws"
  shows "\<exists>xs db'. fdb_send_all u f dest topic ms db = (Inr xs, db') \<and> fdb_ok db' \<and>
    fdb_queue db' (dest, fdb_topic topic) = fdb_queue db (dest, fdb_topic topic) @ ws \<and>
    (\<forall>v i. v \<noteq> u \<longrightarrow> operationOutputsDB db' (v, i) = operationOutputsDB db (v, i))"
  using assms
proof (induction ms arbitrary: f db ws)
  case Nil
  then show ?case by (auto simp: fdb_send_all_def em_simps)
next
  case (Cons m ms)
  from Cons.prems(3) obtain w vs where w: "json_elem m = Inr w" "traverse json_elem ms = Inr vs" "ws = w # vs"
    by (auto simp: bindR_def split: sum.splits)
  obtain d where d: "fdb_send u f dest m topic db = (Inr (), d)" "fdb_ok d"
    "fdb_queue d = (fdb_queue db)((dest, fdb_topic topic) := fdb_queue db (dest, fdb_topic topic) @ [w])"
    "operationOutputsDB d = (operationOutputsDB db)((u, f) \<mapsto> \<lparr>fo_error = None, fo_output = JUndefined\<rparr>)"
    using fdb_send_queue [OF Cons.prems(1) Cons.prems(2) [OF order_refl] w(1)] by blast
  have "\<And>i. Suc f \<le> i \<Longrightarrow> operationOutputsDB d (u, i) = None" using Cons.prems(2) by (simp add: d(4))
  note Cons.IH [where f = "Suc f", OF d(2) this w(2)]
  then obtain xs d' where "fdb_send_all u (Suc f) dest topic ms d = (Inr xs, d')" "fdb_ok d'"
    "fdb_queue d' (dest, fdb_topic topic) = fdb_queue d (dest, fdb_topic topic) @ vs"
    "\<forall>v i. v \<noteq> u \<longrightarrow> operationOutputsDB d' (v, i) = operationOutputsDB d (v, i)" by blast
  then show ?case using d by (auto simp: fdb_send_all_def em_simps w(3))
qed

lemma fdb_recv_all_queue:
  assumes "fdb_ok db" "\<And>i. f \<le> i \<Longrightarrow> operationOutputsDB db (u, i) = None" "fdb_queue db (u, fdb_topic topic) = ws @ rest"
  shows "\<exists>db'. fdb_recv_all wk u f topic (length ws) db = (Inr ws, db') \<and> fdb_ok db' \<and> fdb_queue db' (u, fdb_topic topic) = rest"
  using assms
proof (induction ws arbitrary: f db)
  case Nil
  then show ?case by (auto simp: fdb_recv_all_def em_simps)
next
  case (Cons w ws)
  obtain d where d: "fdb_recv wk u f topic db = (Inr w, d)" "fdb_ok d" "fdb_queue d = (fdb_queue db)((u, fdb_topic topic) := ws @ rest)"
    "operationOutputsDB d = (operationOutputsDB db)((u, f) \<mapsto> \<lparr>fo_error = None, fo_output = w\<rparr>)"
    using fdb_recv_queue [OF Cons.prems(1) Cons.prems(2) [OF order_refl], of topic w "ws @ rest" wk] Cons.prems(3) by auto
  have "operationOutputsDB d (u, i) = None" if "Suc f \<le> i" for i using that Cons.prems(2) [of i] by (simp add: d(4))
  moreover have "fdb_queue d (u, fdb_topic topic) = ws @ rest" by (simp add: d(3))
  ultimately obtain d' where "fdb_recv_all wk u (Suc f) topic (length ws) d = (Inr ws, d')" "fdb_ok d'" "fdb_queue d' (u, fdb_topic topic) = rest"
    using Cons.IH [OF d(2)] by blast
  then have "fdb_recv_all wk u f topic (length (w # ws)) db = (Inr (w # ws), d')"
    using d(1) by (simp add: fdb_recv_all_def em_simps upt_conv_Cons del: upt_Suc)
  with \<open>fdb_ok d'\<close> \<open>fdb_queue d' _ = rest\<close> show ?case by blast
qed

text \<open>A commit that fails loses the statuses that were buffered.\<close>

lemma fdb_flush_loses:
  "\<exists>e'. fdb_flushWorkflowStatusBuffer (Some e) db = (Inl e', db\<lparr>fdbStatusBuffer := []\<rparr>)"
  by (auto simp: fdb_flushWorkflowStatusBuffer_def commit_or_def bindE_def getsE_def seqE_def modifyE_def atomicE_def raiseE_def
      split: prod.splits sum.splits)

end
