(* ===== verification/Validation.thy ===== *)
theory Validation
  imports Strings Json
begin

text \<open>
  Validation of the arguments of a method (\<open>src/src/data_validation.ts\<close>, \<open>validateMethodArgs\<close>, with
  \<open>DBOSDataType\<close> and \<open>MethodParameter\<close> of \<open>src/src/decorators.ts\<close>). The arguments are a list whose
  first element stands for the context, at which the validation does not look. An argument is a value or a
  \<open>String\<close>, \<open>Boolean\<close>, \<open>Number\<close> or \<open>BigInt\<close> object around one.

  The floating-point functions the code calls, and the string a value is converted to, are
  parameters. The lemmas relate the checks to a definition of what a value of a declared type is, and show
  that validated arguments pass a second validation unchanged.
\<close>

section \<open>Declared types\<close>

datatype DBOSFieldType = FInteger | FDouble | FDecimal | FTimestamp | FText | FVarchar | FBoolean | FUuid | FJson

fun field_name :: "DBOSFieldType \<Rightarrow> string" where
  "field_name FInteger = ''integer''"
| "field_name FDouble = ''double''"
| "field_name FDecimal = ''decimal''"
| "field_name FTimestamp = ''timestamp''"
| "field_name FText = ''text''"
| "field_name FVarchar = ''varchar''"
| "field_name FBoolean = ''boolean''"
| "field_name FUuid = ''uuid''"
| "field_name FJson = ''json''"

record DBOSDataType =
  dataType :: DBOSFieldType
  dt_length :: int
  precision :: int
  scale :: int

definition newDataType :: DBOSDataType where
  "newDataType = \<lparr>dataType = FText, dt_length = -1, precision = -1, scale = -1\<rparr>"

definition varchar :: "int \<Rightarrow> DBOSDataType" where
  "varchar len = newDataType\<lparr>dataType := FVarchar, dt_length := len\<rparr>"

definition decimal :: "int \<Rightarrow> int \<Rightarrow> DBOSDataType" where
  "decimal p s = newDataType\<lparr>dataType := FDecimal, precision := p, scale := s\<rparr>"

text \<open>The constructors \<open>design:paramtypes\<close> can name.\<close>

datatype argType = TString | TDate | TNumber | TBoolean | TOther string

definition fromArg :: "argType \<Rightarrow> DBOSDataType" where
  "fromArg arg = newDataType\<lparr>dataType := (case arg of
     TString \<Rightarrow> FText | TDate \<Rightarrow> FTimestamp | TNumber \<Rightarrow> FDouble | TBoolean \<Rightarrow> FBoolean | TOther _ \<Rightarrow> FJson)\<rparr>"

definition formatAsString :: "DBOSDataType \<Rightarrow> string" where
  "formatAsString dt = field_name (dataType dt) @
     (if dataType dt = FVarchar \<and> dt_length dt > 0 then ''('' @ int_str (dt_length dt) @ '')'' else []) @
     (if dataType dt = FDecimal \<and> precision dt > 0
      then (if scale dt > 0 then ''('' @ int_str (precision dt) @ '','' @ int_str (scale dt) @ '')''
            else ''('' @ int_str (precision dt) @ '')'')
      else [])"

datatype LogMasks = LogNONE | LogHASH | LogSKIP

datatype ArgRequiredOptions = REQUIRED | OPTIONAL | DEFAULT

record MethodParameter =
  mp_name :: string
  mp_required :: ArgRequiredOptions
  mp_validate :: bool
  logMask :: LogMasks
  mp_argType :: argType
  mp_dataType :: DBOSDataType
  mp_index :: nat

definition newMethodParameter :: "nat \<Rightarrow> argType \<Rightarrow> MethodParameter" where
  "newMethodParameter idx ty = \<lparr>mp_name = [], mp_required = DEFAULT, mp_validate = True, logMask = LogNONE,
     mp_argType = ty, mp_dataType = fromArg ty, mp_index = idx\<rparr>"

section \<open>The checks\<close>

text \<open>
  \<open>Math.exp\<close>, \<open>parseFloat\<close> (\<open>None\<close> is \<open>NaN\<close>), \<open>Number\<close> of a \<open>bigint\<close>, \<open>Date.parse\<close>, and
  \<open>String(v)\<close> of a value that is no string.
\<close>

record js_lib =
  mathExp :: "int \<Rightarrow> rat"
  parseFloat :: "string \<Rightarrow> rat option"
  numberOfBigInt :: "int \<Rightarrow> rat"
  parseDate :: "string \<Rightarrow> int option"
  stringOther :: "jsval \<Rightarrow> string"

definition toString :: "js_lib \<Rightarrow> jsval \<Rightarrow> string" where
  "toString lib v = (case v of JStr s \<Rightarrow> s | _ \<Rightarrow> stringOther lib v)"

datatype jsarg = Prim jsval | StringObj string | BooleanObj bool | NumberObj rat | BigIntObj int

fun unbox :: "jsarg \<Rightarrow> jsval" where
  "unbox (Prim v) = v"
| "unbox (StringObj s) = JStr s"
| "unbox (BooleanObj b) = JBool b"
| "unbox (NumberObj q) = JNum q"
| "unbox (BigIntObj n) = JBigInt n"

lemma unbox_null: "unbox a = JNull \<longleftrightarrow> a = Prim JNull"
  by (cases a) auto

definition arg_error :: "string \<Rightarrow> MethodParameter \<Rightarrow> string \<Rightarrow> jserror + 'a" where
  "arg_error nm d rest = Inl (DBOSDataValidationError
     (''Argument '' @ mp_name d @ '' of '' @ nm @ '' is marked as type '' @ CHR 39 # field_name (dataType (mp_dataType d)) @ CHR 39 # rest))"

fun check_text :: "string \<Rightarrow> MethodParameter \<Rightarrow> jsval \<Rightarrow> jserror + jsval" where
  "check_text nm d (JStr s) =
     (if dt_length (mp_dataType d) > 0 \<and> int (length s) > dt_length (mp_dataType d)
      then arg_error nm d ('' with maximum length '' @ int_str (dt_length (mp_dataType d)) @ '' but has length '' @ nat_str (length s))
      else Inr (JStr s))"
| "check_text nm d v = arg_error nm d '' and should be a string''"

definition toLowerCase :: "string \<Rightarrow> string" where
  "toLowerCase s = map lower_char s"

fun check_boolean :: "js_lib \<Rightarrow> string \<Rightarrow> MethodParameter \<Rightarrow> jsval \<Rightarrow> jserror + jsval" where
  "check_boolean lib nm d (JBool b) = Inr (JBool b)"
| "check_boolean lib nm d (JNum q) =
     (if q = 0 \<or> q = 1 then Inr (JBool (q \<noteq> 0))
      else arg_error nm d ('' and may be a number (0 or 1) convertible to boolean, but was '' @ toString lib (JNum q) @ ''.''))"
| "check_boolean lib nm d (JStr s) =
     (if toLowerCase s = ''t'' \<or> toLowerCase s = ''true'' \<or> s = ''1'' then Inr (JBool True)
      else if toLowerCase s = ''f'' \<or> toLowerCase s = ''false'' \<or> s = ''0'' then Inr (JBool False)
      else arg_error nm d ('' and may be a string convertible to boolean, but was '' @ s @ ''.''))"
| "check_boolean lib nm d v = arg_error nm d '' and should be a boolean''"

definition decimal_digits :: "DBOSDataType \<Rightarrow> int" where
  "decimal_digits dt = (if scale dt > 0 then precision dt - scale dt else precision dt)"

fun check_decimal :: "js_lib \<Rightarrow> string \<Rightarrow> MethodParameter \<Rightarrow> jsval \<Rightarrow> jserror + jsval" where
  "check_decimal lib nm d (JNum q) =
     (if precision (mp_dataType d) > 0 \<and> \<bar>q\<bar> \<ge> mathExp lib (decimal_digits (mp_dataType d))
      then Inl (DBOSDataValidationError (''Argument '' @ mp_name d @ '' of '' @ nm @ '' is out of range for type '' @
             CHR 39 # formatAsString (mp_dataType d)))
      else Inr (JNum q))"
| "check_decimal lib nm d v = arg_error nm d '' and should be a number''"

definition isInteger :: "rat \<Rightarrow> bool" where
  "isInteger q = (snd (quotient_of q) = 1)"

fun to_number :: "js_lib \<Rightarrow> string \<Rightarrow> MethodParameter \<Rightarrow> jsval \<Rightarrow> jserror + rat" where
  "to_number lib nm d (JNum q) = Inr q"
| "to_number lib nm d (JStr s) =
     (case parseFloat lib s of None \<Rightarrow> arg_error nm d '' and should be a number'' | Some n \<Rightarrow> Inr n)"
| "to_number lib nm d (JBigInt n) = Inr (numberOfBigInt lib n)"
| "to_number lib nm d v = arg_error nm d '' and should be a number''"

definition check_number :: "js_lib \<Rightarrow> string \<Rightarrow> MethodParameter \<Rightarrow> jsval \<Rightarrow> jserror + jsval" where
  "check_number lib nm d v = bindR (to_number lib nm d v) (\<lambda>q.
     if dataType (mp_dataType d) = FInteger \<and> \<not> isInteger q then arg_error nm d '' but has a fractional part''
     else Inr (JNum q))"

fun check_timestamp :: "js_lib \<Rightarrow> string \<Rightarrow> MethodParameter \<Rightarrow> jsval \<Rightarrow> jserror + jsval" where
  "check_timestamp lib nm d (JDate t) = Inr (JDate t)"
| "check_timestamp lib nm d (JStr s) =
     (case parseDate lib s of None \<Rightarrow> arg_error nm d '' but is a string that will not parse as Date'' | Some t \<Rightarrow> Inr (JDate (Some t)))"
| "check_timestamp lib nm d v = arg_error nm d '' but is not a date or time''"

text \<open>The regular expression: five groups of hexadecimal digits.\<close>

definition is_uuid :: "string \<Rightarrow> bool" where
  "is_uuid s = (let gs = split_on CHR ''-'' s in
     map length gs = [8, 4, 4, 4, 12] \<and> list_all (list_all (\<lambda>c. hex_val c \<noteq> None)) gs)"

definition check_uuid :: "js_lib \<Rightarrow> string \<Rightarrow> MethodParameter \<Rightarrow> jsval \<Rightarrow> jserror + jsval" where
  "check_uuid lib nm d v = (if is_uuid (toString lib v) then Inr v else arg_error nm d '' but is not a valid UUID'')"

definition check_value :: "js_lib \<Rightarrow> string \<Rightarrow> MethodParameter \<Rightarrow> jsval \<Rightarrow> jserror + jsval" where
  "check_value lib nm d v = (case dataType (mp_dataType d) of
     FText \<Rightarrow> check_text nm d v
   | FVarchar \<Rightarrow> check_text nm d v
   | FBoolean \<Rightarrow> check_boolean lib nm d v
   | FDecimal \<Rightarrow> check_decimal lib nm d v
   | FDouble \<Rightarrow> check_number lib nm d v
   | FInteger \<Rightarrow> check_number lib nm d v
   | FTimestamp \<Rightarrow> check_timestamp lib nm d v
   | FUuid \<Rightarrow> check_uuid lib nm d v
   | FJson \<Rightarrow> Inr v)"

section \<open>The arguments of a call\<close>

text \<open>What the validation reads of a registration: its name, its parameters, and the default of its class.\<close>

record arg_spec =
  as_name :: string
  as_args :: "MethodParameter list"
  as_defaultArgRequired :: "ArgRequiredOptions option"

definition is_required :: "arg_spec \<Rightarrow> MethodParameter \<Rightarrow> bool" where
  "is_required reg d \<longleftrightarrow> mp_required d = REQUIRED \<or> mp_required d = DEFAULT \<and> as_defaultArgRequired reg = Some REQUIRED"

definition validate_arg :: "js_lib \<Rightarrow> arg_spec \<Rightarrow> MethodParameter \<Rightarrow> jsarg \<Rightarrow> jserror + jsarg" where
  "validate_arg lib reg d arg =
     (let argValue = (if arg = Prim JNull then JUndefined else unbox arg) in
      if argValue = JUndefined then
        (if is_required reg d
         then Inl (DBOSDataValidationError (''Missing required argument '' @ mp_name d @ '' of '' @ as_name reg))
         else Inr (Prim JUndefined))
      else bindR (check_value lib (as_name reg) d argValue) (\<lambda>v. Inr (Prim v)))"

fun validate_from :: "js_lib \<Rightarrow> arg_spec \<Rightarrow> nat \<Rightarrow> MethodParameter list \<Rightarrow> jsarg list \<Rightarrow> jserror + jsarg list" where
  "validate_from lib reg idx [] args = Inr args"
| "validate_from lib reg idx (d # ds) args =
     (if idx = 0 then validate_from lib reg (Suc idx) ds args
      else if idx \<ge> length args then
        (if is_required reg d
         then Inl (DBOSDataValidationError (''Insufficient number of arguments calling '' @ as_name reg @ '' - '' @
                nat_str (length args) @ ''/'' @ nat_str (length (as_args reg))))
         else validate_from lib reg (Suc idx) ds args)
      else bindR (validate_arg lib reg d (args ! idx)) (\<lambda>v. validate_from lib reg (Suc idx) ds (args[idx := v])))"

definition validateMethodArgs :: "js_lib \<Rightarrow> arg_spec \<Rightarrow> jsarg list \<Rightarrow> jserror + jsarg list" where
  "validateMethodArgs lib reg args = validate_from lib reg 0 (as_args reg) args"

section \<open>What validated arguments are\<close>

definition has_type :: "js_lib \<Rightarrow> DBOSDataType \<Rightarrow> jsval \<Rightarrow> bool" where
  "has_type lib dt v = (case dataType dt of
     FText \<Rightarrow> (\<exists>s. v = JStr s \<and> (dt_length dt > 0 \<longrightarrow> int (length s) \<le> dt_length dt))
   | FVarchar \<Rightarrow> (\<exists>s. v = JStr s \<and> (dt_length dt > 0 \<longrightarrow> int (length s) \<le> dt_length dt))
   | FBoolean \<Rightarrow> (\<exists>b. v = JBool b)
   | FDecimal \<Rightarrow> (\<exists>q. v = JNum q \<and> (precision dt > 0 \<longrightarrow> \<bar>q\<bar> < mathExp lib (decimal_digits dt)))
   | FDouble \<Rightarrow> (\<exists>q. v = JNum q)
   | FInteger \<Rightarrow> (\<exists>n. v = JNum (of_int n))
   | FTimestamp \<Rightarrow> (\<exists>t. v = JDate t)
   | FUuid \<Rightarrow> is_uuid (toString lib v)
   | FJson \<Rightarrow> True)"

definition arg_ok :: "js_lib \<Rightarrow> arg_spec \<Rightarrow> MethodParameter \<Rightarrow> jsarg \<Rightarrow> bool" where
  "arg_ok lib reg d a \<longleftrightarrow> a = Prim JUndefined \<and> \<not> is_required reg d \<or>
     (\<exists>v. a = Prim v \<and> v \<noteq> JUndefined \<and> v \<noteq> JNull \<and> has_type lib (mp_dataType d) v)"

lemma isInteger_iff: "isInteger q \<longleftrightarrow> (\<exists>n. q = of_int n)"
proof
  assume q: "isInteger q"
  obtain n m where nm: "quotient_of q = (n, m)" by (cases "quotient_of q")
  with q quotient_of_div [OF nm] have "q = of_int n" by (simp add: isInteger_def)
  then show "\<exists>n. q = of_int n" ..
qed (auto simp: isInteger_def)

lemma arg_error_neq [simp]: "arg_error nm d r \<noteq> Inr x" "Inr x \<noteq> arg_error nm d r"
  by (simp_all add: arg_error_def)

lemma check_text_typed: "check_text nm d v = Inr w \<longleftrightarrow>
    w = v \<and> (\<exists>s. v = JStr s \<and> (dt_length (mp_dataType d) > 0 \<longrightarrow> int (length s) \<le> dt_length (mp_dataType d)))"
  by (cases v) auto

lemma check_boolean_typed: "check_boolean lib nm d v = Inr w \<Longrightarrow> \<exists>b. w = JBool b"
  by (cases v) (auto split: if_splits)

lemma check_decimal_typed: "check_decimal lib nm d v = Inr w \<longleftrightarrow> w = v \<and>
    (\<exists>q. v = JNum q \<and> (precision (mp_dataType d) > 0 \<longrightarrow> \<bar>q\<bar> < mathExp lib (decimal_digits (mp_dataType d))))"
  by (cases v) auto

lemma check_number_typed: "check_number lib nm d v = Inr w \<Longrightarrow>
    \<exists>q. w = JNum q \<and> (dataType (mp_dataType d) = FInteger \<longrightarrow> (\<exists>n. q = of_int n))"
  by (auto simp: check_number_def bindR_def isInteger_iff split: sum.splits if_splits)

lemma check_timestamp_typed: "check_timestamp lib nm d v = Inr w \<Longrightarrow> \<exists>t. w = JDate t"
  by (cases v) (auto split: option.splits)

lemmas typed_simps = check_text_typed check_decimal_typed check_uuid_def

lemmas typed_dests = check_boolean_typed check_number_typed check_timestamp_typed

lemma check_value_typed: "check_value lib nm d v = Inr w \<Longrightarrow> has_type lib (mp_dataType d) w"
  by (cases "dataType (mp_dataType d)")
    (auto simp: check_value_def has_type_def typed_simps dest: typed_dests split: if_splits)

text \<open>A value of the type is accepted as it is.\<close>

lemma check_value_fixed: "has_type lib (mp_dataType d) v \<Longrightarrow> check_value lib nm d v = Inr v"
  by (cases "dataType (mp_dataType d)")
    (auto simp: check_value_def has_type_def typed_simps check_number_def isInteger_iff)

lemma check_value_defined: "check_value lib nm d v = Inr w \<Longrightarrow> v \<noteq> JUndefined \<Longrightarrow> v \<noteq> JNull \<Longrightarrow> w \<noteq> JUndefined \<and> w \<noteq> JNull"
  by (cases "dataType (mp_dataType d)") (auto simp: check_value_def typed_simps dest: typed_dests split: if_splits)

lemma validate_arg_ok: "validate_arg lib reg d a = Inr b \<Longrightarrow> arg_ok lib reg d b"
proof -
  assume v: "validate_arg lib reg d a = Inr b"
  show ?thesis
  proof (cases "a = Prim JNull \<or> unbox a = JUndefined")
    case True
    with v show ?thesis by (auto simp: validate_arg_def arg_ok_def split: if_splits)
  next
    case False
    with v obtain w where w: "check_value lib (as_name reg) d (unbox a) = Inr w" "b = Prim w"
      by (auto simp: validate_arg_def bindR_def split: sum.splits)
    from check_value_typed [OF w(1)] w(2) False check_value_defined [OF w(1)]
    show ?thesis by (simp add: arg_ok_def unbox_null)
  qed
qed

lemma validate_arg_fixed: "arg_ok lib reg d a \<Longrightarrow> validate_arg lib reg d a = Inr a"
  by (auto simp: arg_ok_def validate_arg_def check_value_fixed)

text \<open>
  The loop visits every parameter but the first: those with an argument are validated, those without one must not be required.
\<close>

definition args_visited :: "js_lib \<Rightarrow> arg_spec \<Rightarrow> nat \<Rightarrow> MethodParameter list \<Rightarrow> jsarg list \<Rightarrow> jsarg list \<Rightarrow> bool" where
  "args_visited lib reg idx ds args out \<longleftrightarrow> length out = length args \<and>
     (\<forall>i < length args. i < idx \<or> i = 0 \<or> idx + length ds \<le> i \<longrightarrow> out ! i = args ! i) \<and>
     (\<forall>j < length ds. 0 < idx + j \<longrightarrow>
        (if idx + j < length args then validate_arg lib reg (ds ! j) (args ! (idx + j)) = Inr (out ! (idx + j))
         else \<not> is_required reg (ds ! j)))"

lemma args_visited_Cons:
  assumes "0 < idx" "idx < length args"
  shows "args_visited lib reg idx (d # ds) args out \<longleftrightarrow>
    (\<exists>v. validate_arg lib reg d (args ! idx) = Inr v \<and> args_visited lib reg (Suc idx) ds (args[idx := v]) out)"
proof -
  have untouched: "(\<forall>i < length args. i < Suc idx \<or> i = 0 \<or> Suc idx + length ds \<le> i \<longrightarrow> out ! i = args[idx := v] ! i) \<longleftrightarrow>
      out ! idx = v \<and> (\<forall>i < length args. i < idx \<or> i = 0 \<or> idx + length (d # ds) \<le> i \<longrightarrow> out ! i = args ! i)" (is "?L \<longleftrightarrow> ?R") for v
  proof
    assume L: ?L
    have "out ! i = args ! i" if "i < length args" "i < idx \<or> i = 0 \<or> idx + length (d # ds) \<le> i" for i
      using L [rule_format, of i] that assms by (auto simp: nth_list_update)
    with L [rule_format, of idx] assms show ?R by simp
  next
    assume ?R
    with assms show ?L by (auto simp: nth_list_update less_Suc_eq)
  qed
  show ?thesis
    unfolding args_visited_def untouched length_list_update
    using assms by (simp add: All_less_Suc2) blast
qed

lemma validate_from_visits: "validate_from lib reg idx ds args = Inr out \<longleftrightarrow> args_visited lib reg idx ds args out"
proof (induction lib reg idx ds args rule: validate_from.induct)
  case (1 lib reg idx args)
  have "args = out" if "length out = length args" "\<forall>i < length args. out ! i = args ! i"
    using that by (intro nth_equalityI) auto
  moreover have "(\<forall>i < length args. i < idx \<or> i = 0 \<or> idx \<le> i \<longrightarrow> out ! i = args ! i) \<longleftrightarrow> (\<forall>i < length args. out ! i = args ! i)"
    by (meson not_le)
  ultimately show ?case by (simp only: args_visited_def) auto
next
  case (2 lib reg idx d ds args)
  consider "idx = 0" | "0 < idx" "idx < length args" | "0 < idx" "\<not> idx < length args" by auto
  then show ?case
  proof cases
    case 1
    then show ?thesis using 2(1) by (simp add: args_visited_def All_less_Suc2)
  next
    case 2
    then show ?thesis
      using "2.IH"(3) [of "projr (validate_arg lib reg d (args ! idx))"]
      by (cases "validate_arg lib reg d (args ! idx)") (simp_all add: args_visited_Cons)
  next
    case 3
    then show ?thesis using 2(2) by (simp add: args_visited_def All_less_Suc2)
  qed
qed

text \<open>Validated arguments have their declared types, and validating them again changes nothing.\<close>

lemma validateMethodArgs_typed:
  assumes "validateMethodArgs lib reg args = Inr out"
  shows "length out = length args" "\<And>i. 0 < i \<Longrightarrow> i < length (as_args reg) \<Longrightarrow>
    if i < length args then arg_ok lib reg (as_args reg ! i) (out ! i) else \<not> is_required reg (as_args reg ! i)"
proof -
  have visited: "args_visited lib reg 0 (as_args reg) args out"
    using assms by (simp add: validateMethodArgs_def validate_from_visits)
  then show "length out = length args" by (simp add: args_visited_def)
  show "if i < length args then arg_ok lib reg (as_args reg ! i) (out ! i) else \<not> is_required reg (as_args reg ! i)"
    if "0 < i" "i < length (as_args reg)" for i
  proof -
    from visited have "\<forall>j < length (as_args reg). 0 < 0 + j \<longrightarrow> (if 0 + j < length args
        then validate_arg lib reg (as_args reg ! j) (args ! (0 + j)) = Inr (out ! (0 + j)) else \<not> is_required reg (as_args reg ! j))"
      unfolding args_visited_def by blast
    from this [rule_format, of i] that have "if 0 + i < length args then validate_arg lib reg (as_args reg ! i) (args ! (0 + i)) = Inr (out ! (0 + i))
        else \<not> is_required reg (as_args reg ! i)" by simp
    then show ?thesis by (auto intro: validate_arg_ok split: if_splits)
  qed
qed

lemma validateMethodArgs_idem:
  assumes "validateMethodArgs lib reg args = Inr out"
  shows "validateMethodArgs lib reg out = Inr out"
proof -
  note typed = validateMethodArgs_typed [OF assms]
  have "if j < length out then validate_arg lib reg (as_args reg ! j) (out ! j) = Inr (out ! j) else \<not> is_required reg (as_args reg ! j)"
    if "j < length (as_args reg)" "0 < j" for j
    using typed(2) [OF that(2,1)] typed(1) by (auto intro: validate_arg_fixed split: if_splits)
  then show ?thesis by (auto simp: validateMethodArgs_def validate_from_visits args_visited_def)
qed

end
