(* ===== verification/Registration.thy ===== *)
theory Registration
  imports Validation
begin

text \<open>
  Decorators and registration (\<open>src/src/decorators.ts\<close>). A decorator runs when a class is defined: it
  enters the method into the registration of its class, with the parameters found in the metadata of the
  compiler, and replaces the method by a wrapper, which checks the roles of the caller and validates the
  arguments before it calls the original function.

  Function objects have identities: \<open>Orig n\<close> is a function of the application, \<open>Wrapped c m\<close> the wrapper of the
  registration of method \<open>m\<close> in class \<open>c\<close>. A registration refers to the array of its parameters, so the
  parameters are kept in the metadata and the registration has the key. What the program text of a function is and what
  \<open>design:paramtypes\<close> holds are parameters. Attributes of the tracing span are the result of \<open>log_args\<close>.
\<close>

datatype func = Orig nat | Wrapped string string

record ctor =
  ct_id :: nat
  ct_name :: string

text \<open>The object a decorator is applied to: the class for a static method, its prototype for an instance method.\<close>

datatype target = StaticOf ctor | ProtoOf ctor

fun ctor_of :: "target \<Rightarrow> ctor" where
  "ctor_of (StaticOf c) = c"
| "ctor_of (ProtoOf c) = c"

record js_env =
  fn_text :: "func \<Rightarrow> string"
  designParamTypes :: "target \<Rightarrow> string \<Rightarrow> argType list option"

section \<open>Registration objects\<close>

record method_reg =
  reg_name :: string
  reg_className :: string
  reg_requiredRole :: "string list option"
  reg_args :: "(nat \<times> string) option" \<comment> \<open>the key of its parameters; \<open>None\<close> is the initial empty array\<close>
  reg_needInitialized :: bool
  reg_isInstance :: bool
  reg_origFunction :: func
  reg_registeredFunction :: "func option"
  reg_workflowConfig :: "jsval option"
  reg_txnConfig :: "jsval option"
  reg_commConfig :: "jsval option"
  reg_procConfig :: "jsval option"
  reg_eventReceiverInfo :: "(nat, jsval) jmap"
  reg_init :: bool

definition new_method_reg :: "func \<Rightarrow> bool \<Rightarrow> method_reg" where
  "new_method_reg origFunc inst = \<lparr>reg_name = [], reg_className = [], reg_requiredRole = None, reg_args = None,
     reg_needInitialized = True, reg_isInstance = inst, reg_origFunction = origFunc, reg_registeredFunction = None,
     reg_workflowConfig = None, reg_txnConfig = None, reg_commConfig = None, reg_procConfig = None,
     reg_eventReceiverInfo = [], reg_init = False\<rparr>"

record class_reg =
  cr_name :: string
  cr_requiredRole :: "string list option"
  cr_defaultArgRequired :: ArgRequiredOptions
  cr_needsInitialized :: bool
  cr_ormEntities :: jsval
  cr_registeredOperations :: "(string, method_reg) jmap"
  cr_configuredInstances :: "(string, nat) jmap"
  cr_eventReceiverInfo :: "(nat, jsval) jmap"
  cr_ctor :: ctor

definition new_class_reg :: "ctor \<Rightarrow> class_reg" where
  "new_class_reg c = \<lparr>cr_name = [], cr_requiredRole = None, cr_defaultArgRequired = REQUIRED, cr_needsInitialized = True,
     cr_ormEntities = JArr [], cr_registeredOperations = [], cr_configuredInstances = [], cr_eventReceiverInfo = [], cr_ctor = c\<rparr>"

record decls =
  classesByName :: "(string, class_reg) jmap"
  methodToRegistration :: "(func, string \<times> string) jmap"
  paramMetadata :: "(nat \<times> string, MethodParameter list) jmap"

definition no_decls :: decls where
  "no_decls = \<lparr>classesByName = [], methodToRegistration = [], paramMetadata = []\<rparr>"

definition method_of :: "decls \<Rightarrow> string \<Rightarrow> string \<Rightarrow> method_reg option" where
  "method_of st cls nm = (case jm_get (classesByName st) cls of None \<Rightarrow> None | Some c \<Rightarrow> jm_get (cr_registeredOperations c) nm)"

definition upd_class :: "string \<Rightarrow> (class_reg \<Rightarrow> class_reg) \<Rightarrow> (decls, unit) meth" where
  "upd_class cls f = modifyE (\<lambda>st. case jm_get (classesByName st) cls of
     None \<Rightarrow> st | Some c \<Rightarrow> st\<lparr>classesByName := jm_set cls (f c) (classesByName st)\<rparr>)"

definition upd_method :: "string \<Rightarrow> string \<Rightarrow> (method_reg \<Rightarrow> method_reg) \<Rightarrow> (decls, unit) meth" where
  "upd_method cls nm f = upd_class cls (\<lambda>c. case jm_get (cr_registeredOperations c) nm of
     None \<Rightarrow> c | Some m \<Rightarrow> c\<lparr>cr_registeredOperations := jm_set nm (f m) (cr_registeredOperations c)\<rparr>)"

section \<open>Read access\<close>

definition getRegisteredMethodClassName :: "decls \<Rightarrow> func \<Rightarrow> string" where
  "getRegisteredMethodClassName st f = (case jm_get (methodToRegistration st) f of
     None \<Rightarrow> [] | Some (cls, nm) \<Rightarrow> (case method_of st cls nm of None \<Rightarrow> [] | Some m \<Rightarrow> reg_className m))"

definition getRegisteredMethodName :: "decls \<Rightarrow> func \<Rightarrow> string" where
  "getRegisteredMethodName st f = (case jm_get (methodToRegistration st) f of
     None \<Rightarrow> [] | Some (cls, nm) \<Rightarrow> (case method_of st cls nm of None \<Rightarrow> [] | Some m \<Rightarrow> reg_name m))"

definition classOperations :: "decls \<Rightarrow> string \<Rightarrow> method_reg list" where
  "classOperations st cls = (case jm_get (classesByName st) cls of None \<Rightarrow> [] | Some c \<Rightarrow> map snd (cr_registeredOperations c))"

text \<open>The target is a class, or an object, of which the loop visits the prototype chain: here the names of the constructors on it.\<close>

datatype op_target = OfClass string | OfObject "string list"

fun getRegisteredOperations :: "decls \<Rightarrow> op_target \<Rightarrow> method_reg list" where
  "getRegisteredOperations st (OfClass cls) = classOperations st cls"
| "getRegisteredOperations st (OfObject chain) = concat (map (\<lambda>cname.
     if jm_has (classesByName st) cname then classOperations st cname else []) chain)"

definition getConfiguredInstance :: "decls \<Rightarrow> string \<Rightarrow> string \<Rightarrow> nat option" where
  "getConfiguredInstance st clsname cfgname = (case jm_get (classesByName st) clsname of
     None \<Rightarrow> None | Some c \<Rightarrow> jm_get (cr_configuredInstances c) cfgname)"

definition getAllRegisteredClasses :: "decls \<Rightarrow> ctor list" where
  "getAllRegisteredClasses st = map (\<lambda>(_, c). cr_ctor c) (classesByName st)"

definition getRequiredRoles :: "decls \<Rightarrow> method_reg \<Rightarrow> string list" where
  "getRequiredRoles st m = (case reg_requiredRole m of
     Some rs \<Rightarrow> rs
   | None \<Rightarrow> (case jm_get (classesByName st) (reg_className m) of
       None \<Rightarrow> [] | Some c \<Rightarrow> (case cr_requiredRole c of None \<Rightarrow> [] | Some rs \<Rightarrow> rs)))"

section \<open>Names of the arguments\<close>

definition indexOf :: "char \<Rightarrow> string \<Rightarrow> int" where
  "indexOf c s = (if c \<in> set s then int (length (takeWhile (\<lambda>x. x \<noteq> c) s)) else -1)"

definition substring :: "string \<Rightarrow> int \<Rightarrow> int \<Rightarrow> string" where
  "substring s a b = (let clamp = (\<lambda>i. nat (min (max i 0) (int (length s))));
     lo = min (clamp a) (clamp b); hi = max (clamp a) (clamp b) in take (hi - lo) (drop lo s))"

definition getArgNames :: "string \<Rightarrow> string list" where
  "getArgNames txt = (let fn = filter (\<lambda>c. \<not> is_space c) txt in
     split_on CHR '','' (substring fn (indexOf CHR ''('' fn + 1) (indexOf CHR '')'' fn)))"

definition name_param :: "string list \<Rightarrow> MethodParameter \<Rightarrow> MethodParameter" where
  "name_param argNames e =
     (if mp_name e = [] then
        (let e1 = (if mp_index e < length argNames then e\<lparr>mp_name := argNames ! mp_index e\<rparr> else e) in
         if mp_index e = 0 then e1\<lparr>logMask := LogSKIP\<rparr> else e1)
      else e)"

section \<open>Registration\<close>

definition getOrCreateClassRegistration :: "ctor \<Rightarrow> (decls, unit) meth" where
  "getOrCreateClassRegistration c = modifyE (\<lambda>st.
     let clsReg = (case jm_get (classesByName st) (ct_name c) of None \<Rightarrow> new_class_reg c | Some r \<Rightarrow> r);
         clsReg' = (if cr_needsInitialized clsReg then clsReg\<lparr>cr_name := ct_name c, cr_needsInitialized := False\<rparr> else clsReg)
     in st\<lparr>classesByName := jm_set (ct_name c) clsReg' (classesByName st)\<rparr>)"

definition args_key :: "target \<Rightarrow> string \<Rightarrow> nat \<times> string" where
  "args_key tgt key = (ct_id (ctor_of tgt), key)"

definition params_at :: "decls \<Rightarrow> nat \<times> string \<Rightarrow> MethodParameter list" where
  "params_at st k = (case jm_get (paramMetadata st) k of None \<Rightarrow> [] | Some ps \<Rightarrow> ps)"

definition set_params :: "nat \<times> string \<Rightarrow> MethodParameter list \<Rightarrow> (decls, unit) meth" where
  "set_params k ps = modifyE (\<lambda>st. st\<lparr>paramMetadata := jm_set k ps (paramMetadata st)\<rparr>)"

definition getOrCreateMethodArgsRegistration :: "js_env \<Rightarrow> target \<Rightarrow> string \<Rightarrow> (decls, MethodParameter list) meth" where
  "getOrCreateMethodArgsRegistration env tgt key =
     bindE (getsE (\<lambda>st. params_at st (args_key tgt key))) (\<lambda>mParameters.
     if mParameters \<noteq> [] then retE mParameters
     else (case designParamTypes env tgt key of
         None \<Rightarrow> raiseE (runtime_error ''TypeError'' ''Cannot read properties of undefined (reading 'map')'')
       | Some tys \<Rightarrow>
           let ps = map (\<lambda>(i, ty). newMethodParameter i ty) (enumerate 0 tys) in
           seqE (set_params (args_key tgt key) ps) (retE ps)))"

definition is_instance :: "target \<Rightarrow> bool" where
  "is_instance tgt = (case tgt of StaticOf _ \<Rightarrow> False | ProtoOf _ \<Rightarrow> True)"

definition create_method :: "target \<Rightarrow> string \<Rightarrow> func \<Rightarrow> (decls, unit) meth" where
  "create_method tgt key value =
     upd_class (ct_name (ctor_of tgt)) (\<lambda>c. if jm_has (cr_registeredOperations c) key then c
       else c\<lparr>cr_registeredOperations := jm_set key (new_method_reg value (is_instance tgt)) (cr_registeredOperations c)\<rparr>)"

text \<open>The part under \<open>needInitialized\<close>: names, parameters, and the wrapper, with which the descriptor is updated.\<close>

definition init_method :: "js_env \<Rightarrow> target \<Rightarrow> string \<Rightarrow> func \<Rightarrow> (decls, func) meth" where
  "init_method env tgt key value =
     (let cls = ct_name (ctor_of tgt) in
      seqE (upd_method cls key (\<lambda>m. m\<lparr>reg_needInitialized := False, reg_name := key, reg_className := cls\<rparr>))
      (bindE (getOrCreateMethodArgsRegistration env tgt key) (\<lambda>args.
       seqE (set_params (args_key tgt key) (map (name_param (getArgNames (fn_text env value))) args))
       (seqE (upd_method cls key (\<lambda>m. m\<lparr>reg_args := Some (args_key tgt key), reg_registeredFunction := Some (Wrapped cls key)\<rparr>))
       (seqE (modifyE (\<lambda>st. st\<lparr>methodToRegistration :=
                jm_set value (cls, key) (jm_set (Wrapped cls key) (cls, key) (methodToRegistration st))\<rparr>))
       (retE (Wrapped cls key)))))))"

definition getOrCreateMethodRegistration :: "js_env \<Rightarrow> target \<Rightarrow> string \<Rightarrow> func \<Rightarrow> (decls, func) meth" where
  "getOrCreateMethodRegistration env tgt key value =
     seqE (getOrCreateClassRegistration (ctor_of tgt))
     (seqE (create_method tgt key value)
     (bindE (getsE (\<lambda>st. method_of st (ct_name (ctor_of tgt)) key)) (\<lambda>methReg. case methReg of
        Some m \<Rightarrow> if reg_needInitialized m then init_method env tgt key value else retE value
      | None \<Rightarrow> retE value)))"

text \<open>The descriptor has the value of the method, or none.\<close>

definition registerAndWrapFunction :: "js_env \<Rightarrow> target \<Rightarrow> string \<Rightarrow> func option \<Rightarrow> (decls, func) meth" where
  "registerAndWrapFunction env tgt key descriptor = (case descriptor of
     None \<Rightarrow> raiseE (runtime_error ''Error'' ''Use of decorator when original method is undefined'')
   | Some value \<Rightarrow> getOrCreateMethodRegistration env tgt key value)"

definition associateClassWithEventReceiver :: "nat \<Rightarrow> ctor \<Rightarrow> (decls, unit) meth" where
  "associateClassWithEventReceiver rcvr c =
     seqE (getOrCreateClassRegistration c)
     (upd_class (ct_name c) (\<lambda>r. if jm_has (cr_eventReceiverInfo r) rcvr then r
        else r\<lparr>cr_eventReceiverInfo := jm_set rcvr (JObj []) (cr_eventReceiverInfo r)\<rparr>))"

definition decorate :: "js_env \<Rightarrow> (method_reg \<Rightarrow> method_reg) \<Rightarrow> target \<Rightarrow> string \<Rightarrow> func option \<Rightarrow> (decls, func) meth" where
  "decorate env upd tgt key inDescriptor =
     bindE (registerAndWrapFunction env tgt key inDescriptor) (\<lambda>descriptor.
     seqE (upd_method (ct_name (ctor_of tgt)) key upd) (retE descriptor))"

definition associateMethodWithEventReceiver :: "js_env \<Rightarrow> nat \<Rightarrow> target \<Rightarrow> string \<Rightarrow> func option \<Rightarrow> (decls, func) meth" where
  "associateMethodWithEventReceiver env rcvr = decorate env (\<lambda>m. if jm_has (reg_eventReceiverInfo m) rcvr then m
     else m\<lparr>reg_eventReceiverInfo := jm_set rcvr (JObj []) (reg_eventReceiverInfo m)\<rparr>)"

section \<open>Parameter decorators\<close>

definition param_decorator :: "js_env \<Rightarrow> string \<Rightarrow> (MethodParameter \<Rightarrow> MethodParameter) \<Rightarrow> target \<Rightarrow> string \<Rightarrow> nat \<Rightarrow> (decls, unit) meth" where
  "param_decorator env field f tgt key parameterIndex =
     bindE (getOrCreateMethodArgsRegistration env tgt key) (\<lambda>existingParameters.
     if parameterIndex < length existingParameters
     then set_params (args_key tgt key) (existingParameters[parameterIndex := f (existingParameters ! parameterIndex)])
     else raiseE (runtime_error ''TypeError'' (''Cannot set properties of undefined (setting '' @ CHR 39 # field @ CHR 39 # '')'')))"

definition ArgRequired :: "js_env \<Rightarrow> target \<Rightarrow> string \<Rightarrow> nat \<Rightarrow> (decls, unit) meth" where
  "ArgRequired env = param_decorator env ''required'' (\<lambda>p. p\<lparr>mp_required := REQUIRED\<rparr>)"

definition ArgOptional :: "js_env \<Rightarrow> target \<Rightarrow> string \<Rightarrow> nat \<Rightarrow> (decls, unit) meth" where
  "ArgOptional env = param_decorator env ''required'' (\<lambda>p. p\<lparr>mp_required := OPTIONAL\<rparr>)"

definition SkipLogging :: "js_env \<Rightarrow> target \<Rightarrow> string \<Rightarrow> nat \<Rightarrow> (decls, unit) meth" where
  "SkipLogging env = param_decorator env ''logMask'' (\<lambda>p. p\<lparr>logMask := LogSKIP\<rparr>)"

definition LogMask :: "js_env \<Rightarrow> LogMasks \<Rightarrow> target \<Rightarrow> string \<Rightarrow> nat \<Rightarrow> (decls, unit) meth" where
  "LogMask env msk = param_decorator env ''logMask'' (\<lambda>p. p\<lparr>logMask := msk\<rparr>)"

definition ArgName :: "js_env \<Rightarrow> string \<Rightarrow> target \<Rightarrow> string \<Rightarrow> nat \<Rightarrow> (decls, unit) meth" where
  "ArgName env nm = param_decorator env ''name'' (\<lambda>p. p\<lparr>mp_name := nm\<rparr>)"

definition ArgDate :: "js_env \<Rightarrow> target \<Rightarrow> string \<Rightarrow> nat \<Rightarrow> (decls, unit) meth" where
  "ArgDate env = param_decorator env ''dataType'' (\<lambda>p. p\<lparr>mp_dataType := (mp_dataType p)\<lparr>dataType := FTimestamp\<rparr>\<rparr>)"

definition ArgVarchar :: "js_env \<Rightarrow> int \<Rightarrow> target \<Rightarrow> string \<Rightarrow> nat \<Rightarrow> (decls, unit) meth" where
  "ArgVarchar env len = param_decorator env ''dataType'' (\<lambda>p. p\<lparr>mp_dataType := varchar len\<rparr>)"

section \<open>Class decorators\<close>

definition class_decorator :: "(class_reg \<Rightarrow> class_reg) \<Rightarrow> ctor \<Rightarrow> (decls, unit) meth" where
  "class_decorator f c = seqE (getOrCreateClassRegistration c) (upd_class (ct_name c) f)"

definition DefaultRequiredRole :: "string list \<Rightarrow> ctor \<Rightarrow> (decls, unit) meth" where
  "DefaultRequiredRole anyOf = class_decorator (\<lambda>r. r\<lparr>cr_requiredRole := Some anyOf\<rparr>)"

definition DefaultArgRequired :: "ctor \<Rightarrow> (decls, unit) meth" where
  "DefaultArgRequired = class_decorator (\<lambda>r. r\<lparr>cr_defaultArgRequired := REQUIRED\<rparr>)"

definition DefaultArgOptional :: "ctor \<Rightarrow> (decls, unit) meth" where
  "DefaultArgOptional = class_decorator (\<lambda>r. r\<lparr>cr_defaultArgRequired := OPTIONAL\<rparr>)"

definition OrmEntities :: "jsval \<Rightarrow> ctor \<Rightarrow> (decls, unit) meth" where
  "OrmEntities entities = class_decorator (\<lambda>r. r\<lparr>cr_ormEntities := entities\<rparr>)"

definition configureInstance :: "ctor \<Rightarrow> string \<Rightarrow> nat \<Rightarrow> (decls, nat) meth" where
  "configureInstance c nm inst =
     seqE (getOrCreateClassRegistration c)
     (bindE (getsE (\<lambda>st. getConfiguredInstance st (ct_name c) nm)) (\<lambda>old. case old of
        Some _ \<Rightarrow> raiseE (DBOSError (''Registration: Class '' @ ct_name c @ '' configuration '' @ nm @ '' is not unique'') 1)
      | None \<Rightarrow>
          seqE (upd_class (ct_name c) (\<lambda>r. r\<lparr>cr_configuredInstances := jm_set nm inst (cr_configuredInstances r)\<rparr>)) (retE inst)))"

section \<open>Method decorators\<close>

definition RequiredRole :: "js_env \<Rightarrow> string list \<Rightarrow> target \<Rightarrow> string \<Rightarrow> func option \<Rightarrow> (decls, func) meth" where
  "RequiredRole env anyOf = decorate env (\<lambda>m. m\<lparr>reg_requiredRole := Some anyOf\<rparr>)"

definition Workflow_decorator :: "js_env \<Rightarrow> jsval \<Rightarrow> target \<Rightarrow> string \<Rightarrow> func option \<Rightarrow> (decls, func) meth" where
  "Workflow_decorator env config = decorate env (\<lambda>m. m\<lparr>reg_workflowConfig := Some config\<rparr>)"

definition Transaction_decorator :: "js_env \<Rightarrow> jsval \<Rightarrow> target \<Rightarrow> string \<Rightarrow> func option \<Rightarrow> (decls, func) meth" where
  "Transaction_decorator env config = decorate env (\<lambda>m. m\<lparr>reg_txnConfig := Some config\<rparr>)"

definition StoredProcedure_decorator :: "js_env \<Rightarrow> jsval \<Rightarrow> target \<Rightarrow> string \<Rightarrow> func option \<Rightarrow> (decls, func) meth" where
  "StoredProcedure_decorator env config = decorate env (\<lambda>m. m\<lparr>reg_procConfig := Some config\<rparr>)"

definition Step_decorator :: "js_env \<Rightarrow> jsval \<Rightarrow> target \<Rightarrow> string \<Rightarrow> func option \<Rightarrow> (decls, func) meth" where
  "Step_decorator env config = decorate env (\<lambda>m. m\<lparr>reg_commConfig := Some config\<rparr>)"

definition DBOSInitializer :: "js_env \<Rightarrow> target \<Rightarrow> string \<Rightarrow> func option \<Rightarrow> (decls, func) meth" where
  "DBOSInitializer env = decorate env (\<lambda>m. m\<lparr>reg_init := True\<rparr>)"

definition DBOSDeploy :: "js_env \<Rightarrow> target \<Rightarrow> string \<Rightarrow> func option \<Rightarrow> (decls, func) meth" where
  "DBOSDeploy env = decorate env (\<lambda>m. m\<lparr>reg_init := True\<rparr>)"

section \<open>A sequence of decorators\<close>

text \<open>What the definition of classes runs: decorators of methods, parameters and classes, and configured instances.\<close>

datatype method_dec = DRequiredRole "string list" | DWorkflow jsval | DTransaction jsval | DStoredProcedure jsval | DStep jsval
  | DInitializer | DDeploy | DEventReceiver nat

datatype param_dec = DArgRequired | DArgOptional | DSkipLogging | DLogMask LogMasks | DArgName string | DArgDate | DArgVarchar int

datatype class_dec = DDefaultRequiredRole "string list" | DDefaultArgRequired | DDefaultArgOptional | DOrmEntities jsval
  | DClassEventReceiver nat

datatype decorator = MethodDec method_dec target string func | ParamDec param_dec target string nat | ClassDec class_dec ctor
  | ConfigureInstance ctor string nat

fun method_decorator :: "js_env \<Rightarrow> method_dec \<Rightarrow> target \<Rightarrow> string \<Rightarrow> func option \<Rightarrow> (decls, func) meth" where
  "method_decorator env (DRequiredRole anyOf) = RequiredRole env anyOf"
| "method_decorator env (DWorkflow config) = Workflow_decorator env config"
| "method_decorator env (DTransaction config) = Transaction_decorator env config"
| "method_decorator env (DStoredProcedure config) = StoredProcedure_decorator env config"
| "method_decorator env (DStep config) = Step_decorator env config"
| "method_decorator env DInitializer = DBOSInitializer env"
| "method_decorator env DDeploy = DBOSDeploy env"
| "method_decorator env (DEventReceiver rcvr) = associateMethodWithEventReceiver env rcvr"

fun run_param :: "js_env \<Rightarrow> param_dec \<Rightarrow> target \<Rightarrow> string \<Rightarrow> nat \<Rightarrow> (decls, unit) meth" where
  "run_param env DArgRequired = ArgRequired env"
| "run_param env DArgOptional = ArgOptional env"
| "run_param env DSkipLogging = SkipLogging env"
| "run_param env (DLogMask msk) = LogMask env msk"
| "run_param env (DArgName nm) = ArgName env nm"
| "run_param env DArgDate = ArgDate env"
| "run_param env (DArgVarchar len) = ArgVarchar env len"

fun run_class :: "class_dec \<Rightarrow> ctor \<Rightarrow> (decls, unit) meth" where
  "run_class (DDefaultRequiredRole anyOf) = DefaultRequiredRole anyOf"
| "run_class DDefaultArgRequired = DefaultArgRequired"
| "run_class DDefaultArgOptional = DefaultArgOptional"
| "run_class (DOrmEntities entities) = OrmEntities entities"
| "run_class (DClassEventReceiver rcvr) = associateClassWithEventReceiver rcvr"

fun run_decorator :: "js_env \<Rightarrow> decorator \<Rightarrow> (decls, unit) meth" where
  "run_decorator env (MethodDec md tgt key f) = bindE (method_decorator env md tgt key (Some f)) (\<lambda>_. retE ())"
| "run_decorator env (ParamDec pd tgt key i) = run_param env pd tgt key i"
| "run_decorator env (ClassDec cd c) = run_class cd c"
| "run_decorator env (ConfigureInstance c nm inst) = bindE (configureInstance c nm inst) (\<lambda>_. retE ())"

section \<open>The wrapper\<close>

record call_ctx =
  cc_authenticatedRoles :: "string list"
  cc_assumedRole :: string

definition authorize :: "string \<Rightarrow> string list \<Rightarrow> call_ctx \<Rightarrow> jserror + call_ctx" where
  "authorize nm requiredRoles ctx =
     (if requiredRoles = [] then Inr ctx
      else (case find (\<lambda>role. role \<in> set (cc_authenticatedRoles ctx)) requiredRoles of
          Some role \<Rightarrow> Inr (ctx\<lparr>cc_assumedRole := role\<rparr>)
        | None \<Rightarrow> Inl (DBOSNotAuthorizedError (''User does not have a role with permission to call '' @ nm) 403)))"

text \<open>What is logged of an argument: its value, or the digest of its JSON text with a salt.\<close>

datatype logged = Plain jsval | SaltedHash column string

definition log_arg :: "MethodParameter \<Rightarrow> jsval \<Rightarrow> jserror + (string \<times> logged) list" where
  "log_arg d v =
     (if logMask d = LogSKIP then Inr []
      else if logMask d \<noteq> LogNONE then
        bindR (plain_all v) (\<lambda>w.
          Inr [(mp_name d, SaltedHash (jtext w) (if dataType (mp_dataType d) = FJson then ''JSONSALT'' else ''DBOSSALT''))])
      else Inr [(mp_name d, Plain v)])"

definition log_args :: "MethodParameter list \<Rightarrow> jsarg list \<Rightarrow> jserror + (string \<times> logged) list" where
  "log_args ps args = bindR (traverse (\<lambda>(idx, a).
     if idx = 0 then Inr []
     else if idx < length ps then log_arg (ps ! idx) (unbox a)
     else Inl (runtime_error ''TypeError'' ''Cannot read properties of undefined (reading 'logMask')'')) (enumerate 0 args))
     (\<lambda>as. Inr (concat as))"

definition spec_of :: "decls \<Rightarrow> method_reg \<Rightarrow> arg_spec" where
  "spec_of st m = \<lparr>as_name = reg_name m, as_args = (case reg_args m of None \<Rightarrow> [] | Some k \<Rightarrow> params_at st k),
     as_defaultArgRequired = map_option cr_defaultArgRequired (jm_get (classesByName st) (reg_className m))\<rparr>"

definition wrappedMethod :: "js_lib \<Rightarrow> decls \<Rightarrow> method_reg \<Rightarrow> (func \<Rightarrow> call_ctx \<Rightarrow> jsarg list \<Rightarrow> ('s, jsval) meth) \<Rightarrow>
    call_ctx \<Rightarrow> jsarg list \<Rightarrow> ('s, jsval) meth" where
  "wrappedMethod lib st methReg body ctx rawArgs =
     bindE (liftE (authorize (reg_name methReg) (getRequiredRoles st methReg) ctx)) (\<lambda>ctx'.
     bindE (liftE (validateMethodArgs lib (spec_of st methReg) rawArgs)) (\<lambda>validatedArgs.
     bindE (liftE (log_args (as_args (spec_of st methReg)) validatedArgs)) (\<lambda>_.
     body (reg_origFunction methReg) ctx' validatedArgs)))"

text \<open>A call of a function object, with \<open>body\<close> the functions of the application.\<close>

fun call_func :: "js_lib \<Rightarrow> decls \<Rightarrow> (func \<Rightarrow> call_ctx \<Rightarrow> jsarg list \<Rightarrow> ('s, jsval) meth) \<Rightarrow> func \<Rightarrow>
    call_ctx \<Rightarrow> jsarg list \<Rightarrow> ('s, jsval) meth" where
  "call_func lib st body (Orig n) = body (Orig n)"
| "call_func lib st body (Wrapped cls nm) = (case method_of st cls nm of
     None \<Rightarrow> body (Wrapped cls nm) | Some m \<Rightarrow> wrappedMethod lib st m body)"

definition invoke :: "js_lib \<Rightarrow> decls \<Rightarrow> (func \<Rightarrow> call_ctx \<Rightarrow> jsarg list \<Rightarrow> ('s, jsval) meth) \<Rightarrow> method_reg \<Rightarrow>
    call_ctx \<Rightarrow> jsarg list \<Rightarrow> ('s, jsval) meth" where
  "invoke lib st body m ctx args = (case reg_registeredFunction m of
     None \<Rightarrow> raiseE (runtime_error ''TypeError'' ''Cannot read properties of undefined (reading 'call')'')
   | Some f \<Rightarrow> call_func lib st body f ctx args)"

section \<open>What a registration keeps\<close>

text \<open>The effect of the two updates on the look-up of a method.\<close>

lemma method_of_upd_class:
  assumes "upd_class cls f st = (x, st')"
  shows "x = Inr ()" "method_of st' c k = (if c = cls
     then (case jm_get (classesByName st) cls of None \<Rightarrow> None | Some r \<Rightarrow> jm_get (cr_registeredOperations (f r)) k)
     else method_of st c k)"
  using assms by (auto simp: upd_class_def em_simps method_of_def jm_get_set split: option.splits)

lemma method_of_upd_method:
  assumes "upd_method cls nm f st = (x, st')"
  shows "x = Inr () \<and> method_of st' = (\<lambda>c k. if c = cls \<and> k = nm then map_option f (method_of st c k) else method_of st c k)"
  using method_of_upd_class [OF assms [unfolded upd_method_def]]
  by (auto simp: method_of_def jm_get_set fun_eq_iff split: option.splits)

lemma method_of_class_registration:
  assumes "getOrCreateClassRegistration r st = (x, st')"
  shows "x = Inr ()" "method_of st' = method_of st" "jm_get (classesByName st') (ct_name r) \<noteq> None"
  using assms by (auto simp: getOrCreateClassRegistration_def em_simps Let_def method_of_def jm_get_set new_class_reg_def fun_eq_iff
      split: option.splits if_splits)

lemma method_of_params [simp]: "method_of (st\<lparr>paramMetadata := ps\<rparr>) = method_of st"
  "method_of (st\<lparr>methodToRegistration := mr\<rparr>) = method_of st"
  by (simp_all add: method_of_def fun_eq_iff)

lemma method_of_args_registration:
  "getOrCreateMethodArgsRegistration env tgt key st = (x, st') \<Longrightarrow> method_of st' = method_of st"
  by (auto simp: getOrCreateMethodArgsRegistration_def em_simps set_params_def Let_def split: if_splits option.splits)

text \<open>
  A method is wrapped by the first decorator that registers it; one that finds it registered leaves
  the function as it is.
\<close>

definition initialized :: "string \<Rightarrow> string \<Rightarrow> method_reg \<Rightarrow> bool" where
  "initialized cls key m \<longleftrightarrow> \<not> reg_needInitialized m \<and> reg_name m = key \<and> reg_className m = cls"

definition decls_ok :: "decls \<Rightarrow> bool" where
  "decls_ok st \<longleftrightarrow> (\<forall>cls key m. method_of st cls key = Some m \<longrightarrow> initialized cls key m)"

definition wrapped_reg :: "target \<Rightarrow> string \<Rightarrow> func \<Rightarrow> method_reg" where
  "wrapped_reg tgt key value = (new_method_reg value (is_instance tgt))\<lparr>reg_needInitialized := False, reg_name := key,
     reg_className := ct_name (ctor_of tgt), reg_args := Some (args_key tgt key),
     reg_registeredFunction := Some (Wrapped (ct_name (ctor_of tgt)) key)\<rparr>"

lemma create_method_adds:
  assumes "create_method tgt key value st = (x, st')" "jm_get (classesByName st) (ct_name (ctor_of tgt)) \<noteq> None"
  shows "x = Inr ()" "method_of st' = (\<lambda>c k. if c = ct_name (ctor_of tgt) \<and> k = key \<and> method_of st c k = None
     then Some (new_method_reg value (is_instance tgt)) else method_of st c k)"
  using method_of_upd_class [OF assms(1) [unfolded create_method_def]] assms(2)
  by (auto simp: fun_eq_iff method_of_def jm_has_iff jm_get_set split: option.splits)

lemma init_method_wraps:
  assumes "init_method env tgt key value st = (Inr g, st')"
  shows "g = Wrapped (ct_name (ctor_of tgt)) key \<and>
    method_of st' = (\<lambda>c k. if c = ct_name (ctor_of tgt) \<and> k = key
      then map_option (\<lambda>m. m\<lparr>reg_needInitialized := False, reg_name := key, reg_className := ct_name (ctor_of tgt),
             reg_args := Some (args_key tgt key), reg_registeredFunction := Some (Wrapped (ct_name (ctor_of tgt)) key)\<rparr>) (method_of st c k)
      else method_of st c k)"
  using assms
  by (auto simp: init_method_def em_simps set_params_def Let_def option.map_comp o_def fun_eq_iff
      dest!: method_of_upd_method method_of_args_registration split: prod.splits sum.splits)

lemma registration_cases:
  assumes "getOrCreateMethodRegistration env tgt key value st = (Inr g, st')"
    and "\<And>m. method_of st (ct_name (ctor_of tgt)) key = Some m \<Longrightarrow> \<not> reg_needInitialized m"
  shows "case method_of st (ct_name (ctor_of tgt)) key of
     Some m \<Rightarrow> g = value \<and> method_of st' = method_of st
   | None \<Rightarrow> g = Wrapped (ct_name (ctor_of tgt)) key \<and>
       method_of st' = (\<lambda>c k. if c = ct_name (ctor_of tgt) \<and> k = key then Some (wrapped_reg tgt key value) else method_of st c k)"
proof -
  let ?cls = "ct_name (ctor_of tgt)"
  obtain x1 s1 where r1: "getOrCreateClassRegistration (ctor_of tgt) st = (x1, s1)" by fastforce
  obtain x2 s2 where r2: "create_method tgt key value s1 = (x2, s2)" by fastforce
  note c1 = method_of_class_registration [OF r1] and c2 = create_method_adds [OF r2 method_of_class_registration(3) [OF r1]]
  show ?thesis
  proof (cases "method_of st ?cls key")
    case None
    with assms(1) c1 c2 r1 r2 have "init_method env tgt key value s2 = (Inr g, st')"
      by (simp add: getOrCreateMethodRegistration_def em_simps new_method_reg_def)
    from init_method_wraps [OF this] None c1 c2 show ?thesis by (simp add: wrapped_reg_def fun_eq_iff)
  next
    case (Some m)
    with assms c1 c2 r1 r2 show ?thesis by (auto simp: getOrCreateMethodRegistration_def em_simps fun_eq_iff)
  qed
qed

text \<open>What a decorator changes of a registration.\<close>

fun method_update :: "method_dec \<Rightarrow> method_reg \<Rightarrow> method_reg" where
  "method_update (DRequiredRole anyOf) = (\<lambda>m. m\<lparr>reg_requiredRole := Some anyOf\<rparr>)"
| "method_update (DWorkflow config) = (\<lambda>m. m\<lparr>reg_workflowConfig := Some config\<rparr>)"
| "method_update (DTransaction config) = (\<lambda>m. m\<lparr>reg_txnConfig := Some config\<rparr>)"
| "method_update (DStoredProcedure config) = (\<lambda>m. m\<lparr>reg_procConfig := Some config\<rparr>)"
| "method_update (DStep config) = (\<lambda>m. m\<lparr>reg_commConfig := Some config\<rparr>)"
| "method_update DInitializer = (\<lambda>m. m\<lparr>reg_init := True\<rparr>)"
| "method_update DDeploy = (\<lambda>m. m\<lparr>reg_init := True\<rparr>)"
| "method_update (DEventReceiver rcvr) = (\<lambda>m. if jm_has (reg_eventReceiverInfo m) rcvr then m
     else m\<lparr>reg_eventReceiverInfo := jm_set rcvr (JObj []) (reg_eventReceiverInfo m)\<rparr>)"

lemma method_decorator_eq: "method_decorator env md = decorate env (method_update md)"
  by (cases md) (simp_all add: RequiredRole_def Workflow_decorator_def Transaction_decorator_def StoredProcedure_decorator_def
      Step_decorator_def DBOSInitializer_def DBOSDeploy_def associateMethodWithEventReceiver_def)

lemma method_update_keeps [simp]:
  "reg_name (method_update md m) = reg_name m" "reg_className (method_update md m) = reg_className m"
  "reg_needInitialized (method_update md m) = reg_needInitialized m" "reg_origFunction (method_update md m) = reg_origFunction m"
  by (cases md, simp_all)+

lemma method_update_role: "\<forall>r. md \<noteq> DRequiredRole r \<Longrightarrow> reg_requiredRole (method_update md m) = reg_requiredRole m"
  by (cases md) simp_all

lemma decorate_cases:
  assumes "method_decorator env md tgt key (Some value) st = (Inr g, st')"
    and "\<And>m. method_of st (ct_name (ctor_of tgt)) key = Some m \<Longrightarrow> \<not> reg_needInitialized m"
  shows "g = (if method_of st (ct_name (ctor_of tgt)) key = None then Wrapped (ct_name (ctor_of tgt)) key else value)"
    and "method_of st' = (\<lambda>c k. if c = ct_name (ctor_of tgt) \<and> k = key
       then Some (method_update md (case method_of st c k of None \<Rightarrow> wrapped_reg tgt key value | Some m \<Rightarrow> m)) else method_of st c k)"
proof -
  obtain s1 where r1: "getOrCreateMethodRegistration env tgt key value st = (Inr g, s1)"
    and r2: "upd_method (ct_name (ctor_of tgt)) key (method_update md) s1 = (Inr (), st')"
    using assms(1) by (auto simp: method_decorator_eq decorate_def registerAndWrapFunction_def em_simps split: prod.splits sum.splits)
  note c = registration_cases [OF r1 assms(2)] method_of_upd_method [OF r2]
  show "g = (if method_of st (ct_name (ctor_of tgt)) key = None then Wrapped (ct_name (ctor_of tgt)) key else value)"
    using c by (auto split: option.splits)
  show "method_of st' = (\<lambda>c k. if c = ct_name (ctor_of tgt) \<and> k = key
       then Some (method_update md (case method_of st c k of None \<Rightarrow> wrapped_reg tgt key value | Some m \<Rightarrow> m)) else method_of st c k)"
    using c by (auto simp: fun_eq_iff split: option.splits)
qed

text \<open>Decorators of parameters and classes leave the methods alone.\<close>

lemma param_decorator_methods: "param_decorator env fd f tgt key i st = (x, st') \<Longrightarrow> method_of st' = method_of st"
  by (auto simp: param_decorator_def bindE_def set_params_def em_defs dest!: method_of_args_registration
      split: prod.splits sum.splits if_splits)

lemma run_param_methods: "run_param env pd tgt key i st = (x, st') \<Longrightarrow> method_of st' = method_of st"
  by (cases pd) (simp_all add: ArgRequired_def ArgOptional_def SkipLogging_def LogMask_def ArgName_def ArgDate_def ArgVarchar_def
      param_decorator_methods)

lemma class_decorator_methods:
  assumes "class_decorator f c st = (x, st')" "\<And>r. cr_registeredOperations (f r) = cr_registeredOperations r"
  shows "x = Inr ()" "method_of st' = method_of st"
proof -
  obtain x1 s1 where r1: "getOrCreateClassRegistration c st = (x1, s1)" by fastforce
  note c1 = method_of_class_registration [OF r1]
  then have r2: "upd_class (ct_name c) f s1 = (x, st')" using assms(1) r1 by (simp add: class_decorator_def em_simps)
  show "x = Inr ()" using method_of_upd_class(1) [OF r2] .
  have "method_of st' a k = method_of s1 a k" for a k
    using method_of_upd_class(2) [OF r2, of a k] by (auto simp: assms(2) method_of_def [of s1] split: option.splits)
  with c1 show "method_of st' = method_of st" by (simp add: fun_eq_iff)
qed

lemma run_class_methods: "run_class cd c st = (x, st') \<Longrightarrow> method_of st' = method_of st"
  by (cases cd) (auto simp: DefaultRequiredRole_def DefaultArgRequired_def DefaultArgOptional_def OrmEntities_def
      associateClassWithEventReceiver_def class_decorator_def [symmetric] dest!: class_decorator_methods(2))

lemma configureInstance_methods: "configureInstance c nm inst st = (x, st') \<Longrightarrow> method_of st' = method_of st"
proof -
  assume run: "configureInstance c nm inst st = (x, st')"
  let ?f = "\<lambda>r. r\<lparr>cr_configuredInstances := jm_set nm inst (cr_configuredInstances r)\<rparr>"
  obtain x1 s1 where r1: "getOrCreateClassRegistration c st = (x1, s1)" by fastforce
  note c1 = method_of_class_registration [OF r1]
  obtain x2 s2 where r2: "class_decorator ?f c st = (x2, s2)" by fastforce
  from class_decorator_methods [OF r2] have "method_of s2 = method_of st" "x2 = Inr ()" by simp_all
  moreover have "st' = s1 \<or> st' = s2"
    using run r1 r2 c1(1) by (auto simp: configureInstance_def class_decorator_def em_simps split: option.splits prod.splits sum.splits)
  ultimately show ?thesis using c1(2) by auto
qed

text \<open>Every method that is registered when the classes are defined is initialized.\<close>

lemma run_decorator_ok:
  assumes "run_decorator env d st = (Inr x, st')" "decls_ok st"
  shows "decls_ok st'"
proof (cases d)
  case (MethodDec md tgt key f)
  with assms(1) obtain g where r: "method_decorator env md tgt key (Some f) st = (Inr g, st')"
    by (auto simp: em_simps split: prod.splits sum.splits)
  have "\<And>m. method_of st (ct_name (ctor_of tgt)) key = Some m \<Longrightarrow> \<not> reg_needInitialized m"
    using assms(2) by (auto simp: decls_ok_def initialized_def)
  from decorate_cases(2) [OF r this] assms(2) show ?thesis
    by (auto simp: decls_ok_def initialized_def wrapped_reg_def split: option.splits)
next
  case (ConfigureInstance c nm inst)
  with assms(1) obtain y where "configureInstance c nm inst st = (Inr y, st')" by (auto simp: em_simps split: prod.splits sum.splits)
  from configureInstance_methods [OF this] assms(2) show ?thesis by (simp add: decls_ok_def)
qed (use assms in \<open>auto simp: decls_ok_def dest: run_param_methods run_class_methods\<close>)

lemma run_decorators_ok: "mapE (run_decorator env) ds st = (Inr xs, st') \<Longrightarrow> decls_ok st \<Longrightarrow> decls_ok st'"
proof (induction ds arbitrary: st xs)
  case (Cons d ds)
  then obtain x s1 ys where "run_decorator env d st = (Inr x, s1)" "mapE (run_decorator env) ds s1 = (Inr ys, st')"
    by (auto simp: em_simps split: prod.splits sum.splits)
  with Cons show ?case using run_decorator_ok by blast
qed (simp add: em_simps)

text \<open>The role, the name and the function of a method stay, unless its role is declared again.\<close>

fun redeclares_role :: "string \<Rightarrow> string \<Rightarrow> decorator \<Rightarrow> bool" where
  "redeclares_role cls key (MethodDec (DRequiredRole _) tgt k _) = (ct_name (ctor_of tgt) = cls \<and> k = key)"
| "redeclares_role cls key _ = False"

definition same_guard :: "method_reg \<Rightarrow> method_reg \<Rightarrow> bool" where
  "same_guard m m' \<longleftrightarrow> reg_requiredRole m' = reg_requiredRole m \<and> reg_name m' = reg_name m \<and> reg_origFunction m' = reg_origFunction m"

lemma run_decorator_guard:
  assumes "run_decorator env d st = (Inr x, st')" "decls_ok st" "method_of st cls key = Some m" "\<not> redeclares_role cls key d"
  shows "\<exists>m'. method_of st' cls key = Some m' \<and> same_guard m m'"
proof (cases d)
  case (MethodDec md tgt k f)
  with assms(1) obtain g where r: "method_decorator env md tgt k (Some f) st = (Inr g, st')"
    by (auto simp: em_simps split: prod.splits sum.splits)
  have "\<And>m. method_of st (ct_name (ctor_of tgt)) k = Some m \<Longrightarrow> \<not> reg_needInitialized m"
    using assms(2) by (auto simp: decls_ok_def initialized_def)
  note st' = decorate_cases(2) [OF r this]
  show ?thesis
  proof (cases "cls = ct_name (ctor_of tgt) \<and> key = k")
    case True
    with assms(4) MethodDec have "\<forall>r. md \<noteq> DRequiredRole r" by (cases md) auto
    with True st' assms(3) show ?thesis by (auto simp: same_guard_def method_update_role)
  next
    case False
    with st' assms(3) show ?thesis by (auto simp: same_guard_def)
  qed
next
  case (ConfigureInstance c nm inst)
  with assms(1) obtain y where "configureInstance c nm inst st = (Inr y, st')" by (auto simp: em_simps split: prod.splits sum.splits)
  from configureInstance_methods [OF this] assms(3) show ?thesis by (simp add: same_guard_def)
qed (use assms in \<open>auto simp: same_guard_def dest: run_param_methods run_class_methods\<close>)

lemma run_decorators_guard:
  assumes "mapE (run_decorator env) ds st = (Inr xs, st')" "decls_ok st" "method_of st cls key = Some m"
    "list_all (\<lambda>d. \<not> redeclares_role cls key d) ds"
  shows "\<exists>m'. method_of st' cls key = Some m' \<and> same_guard m m'"
  using assms
proof (induction ds arbitrary: st xs m)
  case Nil
  then show ?case by (simp add: em_simps same_guard_def)
next
  case (Cons d ds)
  from Cons.prems(1) obtain x s1 ys where r: "run_decorator env d st = (Inr x, s1)" "mapE (run_decorator env) ds s1 = (Inr ys, st')"
    by (auto simp: em_simps split: prod.splits sum.splits)
  obtain m1 where m1: "method_of s1 cls key = Some m1" "same_guard m m1"
    using run_decorator_guard [OF r(1) Cons.prems(2,3)] Cons.prems(4) by auto
  obtain m' where "method_of st' cls key = Some m'" "same_guard m1 m'"
    using Cons.IH [OF r(2) run_decorator_ok [OF r(1) Cons.prems(2)] m1(1)] Cons.prems(4) by auto
  with m1(2) show ?case by (auto simp: same_guard_def)
qed

lemma no_decls_ok: "decls_ok no_decls"
  by (simp add: decls_ok_def no_decls_def method_of_def)

text \<open>A call without any of the required roles does not reach the function.\<close>

lemma wrappedMethod_denied:
  assumes "getRequiredRoles st m = roles" "roles \<noteq> []" "set roles \<inter> set (cc_authenticatedRoles ctx) = {}"
  shows "wrappedMethod lib st m body ctx args s =
    (Inl (DBOSNotAuthorizedError (''User does not have a role with permission to call '' @ reg_name m) 403), s)"
proof -
  have "find (\<lambda>role. role \<in> set (cc_authenticatedRoles ctx)) roles = None"
    using assms(3) by (auto simp: find_None_iff)
  with assms(1,2) show ?thesis by (simp add: wrappedMethod_def authorize_def em_simps)
qed

text \<open>The function is reached with an assumed role that the method requires and the user has, and with validated arguments.\<close>

lemma authorize_cases:
  assumes "authorize nm roles ctx = Inr ctx'"
  shows "roles = [] \<and> ctx' = ctx \<or> (\<exists>role \<in> set roles \<inter> set (cc_authenticatedRoles ctx). ctx' = ctx\<lparr>cc_assumedRole := role\<rparr>)"
proof (cases "roles = []")
  case False
  with assms obtain role where "find (\<lambda>role. role \<in> set (cc_authenticatedRoles ctx)) roles = Some role" "ctx' = ctx\<lparr>cc_assumedRole := role\<rparr>"
    by (auto simp: authorize_def split: option.splits)
  then show ?thesis by (auto simp: find_Some_iff)
qed (use assms in \<open>simp add: authorize_def\<close>)

lemma wrappedMethod_cases:
  "(\<exists>e. wrappedMethod lib st m body ctx args s = (Inl e, s)) \<or>
   (\<exists>ctx' out. wrappedMethod lib st m body ctx args s = body (reg_origFunction m) ctx' out s \<and>
     validateMethodArgs lib (spec_of st m) args = Inr out \<and>
     (getRequiredRoles st m = [] \<and> ctx' = ctx \<or>
      (\<exists>role \<in> set (getRequiredRoles st m) \<inter> set (cc_authenticatedRoles ctx). ctx' = ctx\<lparr>cc_assumedRole := role\<rparr>)))"
  (is "?denied \<or> ?runs")
proof (cases "authorize (reg_name m) (getRequiredRoles st m) ctx")
  case (Inr ctx')
  note auth = Inr
  show ?thesis
  proof (cases "validateMethodArgs lib (spec_of st m) args")
    case (Inr out)
    have "?denied" if "log_args (as_args (spec_of st m)) out = Inl e" for e
      using auth Inr that by (simp add: wrappedMethod_def em_simps)
    moreover have "wrappedMethod lib st m body ctx args s = body (reg_origFunction m) ctx' out s"
      if "log_args (as_args (spec_of st m)) out = Inr l" for l
      using auth Inr that by (simp add: wrappedMethod_def em_simps)
    ultimately show ?thesis using authorize_cases [OF auth] Inr by (cases "log_args (as_args (spec_of st m)) out") blast+
  qed (simp add: auth wrappedMethod_def em_simps)
qed (simp add: wrappedMethod_def em_simps)

text \<open>
  Classes are kept by name: a method of a second class with the same name is not wrapped, its decorators return the bare function.
\<close>

lemma second_class_unguarded:
  assumes "method_decorator env md tgt key (Some value) st = (Inr g, st')" "decls_ok st"
    and "method_of st (ct_name (ctor_of tgt)) key = Some m"
  shows "g = value"
  using decorate_cases(1) [OF assms(1)] assms(2,3) by (auto simp: decls_ok_def initialized_def)

end
