(* ===== verification/Http.thy ===== *)
theory Http
  imports Registration Executor
begin

text \<open>
  The HTTP server (\<open>src/src/httpServer/server.ts\<close>, \<open>handler.ts\<close>): what happens to a request for a decorated
  endpoint, from authentication and the search for the arguments to the dispatch to a transaction, workflow, step or plain handler and the
  response; and the recovery endpoint of the admin server.

  Koa's routing, its body parser and the middlewares of the application are third-party or application code: the request is what they
  hand over, with the body as a parsed value, and the authentication function is a parameter. The state is that of the executor beside
  \<open>koaContext.body\<close>, which a handler may set. Logging and tracing are left out.
\<close>

datatype APITypes = GET | POST | PUT | PATCH | DELETE

datatype ArgSources = FromDEFAULT | FromBODY | FromQUERY | FromURL

record http_request =
  rq_query :: "string \<Rightarrow> jsval" \<comment> \<open>\<open>undefined\<close> for what is not there\<close>
  rq_body :: jsval
  rq_params :: "string \<Rightarrow> jsval"
  rq_workflowUUID :: string \<comment> \<open>the header \<open>dbos-idempotency-key\<close>, empty if there is none\<close>
  rq_requestID :: string \<comment> \<open>the header \<open>x-request-id\<close>, likewise\<close>
  rq_request :: jsval \<comment> \<open>the fields of the request that are handed on in the context\<close>

text \<open>The registration of an endpoint; \<open>authMiddleware\<close> is the one of its class.\<close>

record ('u, 'x) handler_reg =
  hr_method :: method_reg
  hr_apiType :: APITypes
  hr_apiURL :: string
  hr_args :: "(MethodParameter \<times> ArgSources option) list"
  hr_txn :: bool
  hr_workflow :: "('u, 'x) Workflow option"
  hr_comm :: bool
  authMiddleware :: "(http_request \<Rightarrow> jserror + (string \<times> string list) option) option"

section \<open>Arguments\<close>

fun js_truthy :: "jsval \<Rightarrow> bool" where
  "js_truthy JUndefined = False"
| "js_truthy JNull = False"
| "js_truthy (JBool b) = b"
| "js_truthy (JNum q) = (q \<noteq> 0)"
| "js_truthy (JStr s) = (s \<noteq> [])"
| "js_truthy (JBigInt n) = (n \<noteq> 0)"
| "js_truthy _ = True"

definition isQueryMethod :: "APITypes \<Rightarrow> bool" where
  "isQueryMethod ty \<longleftrightarrow> ty = GET \<or> ty = DELETE"

definition isBodyMethod :: "APITypes \<Rightarrow> bool" where
  "isBodyMethod ty \<longleftrightarrow> ty = POST \<or> ty = PUT \<or> ty = PATCH"

definition parse_arg :: "APITypes \<Rightarrow> http_request \<Rightarrow> MethodParameter \<times> ArgSources option \<Rightarrow> jserror + jsval" where
  "parse_arg ty rq marg =
     (let nm = mp_name (fst marg);
          argSource = (case snd marg of None \<Rightarrow> FromDEFAULT | Some s \<Rightarrow> s);
          or_url = (\<lambda>foundArg. if foundArg \<noteq> JUndefined then foundArg else rq_params rq nm) in
      if isQueryMethod ty \<and> argSource = FromDEFAULT \<or> argSource = FromQUERY then Inr (or_url (rq_query rq nm))
      else if isBodyMethod ty \<and> argSource = FromDEFAULT \<or> argSource = FromBODY then
        (if \<not> js_truthy (rq_body rq) then Inl (DBOSDataValidationError (''Argument '' @ nm @ '' requires a method body.''))
         else Inr (or_url (getProp (rq_body rq) nm)))
      else Inr (rq_params rq nm))"

definition parse_args :: "('u, 'x) handler_reg \<Rightarrow> http_request \<Rightarrow> jserror + jsval list" where
  "parse_args ro rq = traverse (parse_arg (hr_apiType ro) rq) (tl (hr_args ro))"

definition authenticate :: "('u, 'x) handler_reg \<Rightarrow> http_request \<Rightarrow> jserror + (string \<times> string list)" where
  "authenticate ro rq = (case authMiddleware ro of
     None \<Rightarrow> Inr ([], [])
   | Some auth \<Rightarrow> bindR (auth rq) (\<lambda>res. Inr (case res of None \<Rightarrow> ([], []) | Some ur \<Rightarrow> ur)))"

section \<open>Dispatch and response\<close>

definition on_dbos :: "('d, 'a) meth \<Rightarrow> ('d \<times> jsval, 'a) meth" where
  "on_dbos m = zoomE fst (\<lambda>d s. (d, snd s)) m"

definition run_endpoint ::
    "('u, 'x) DBOSExecutor \<Rightarrow> (sysdb \<Rightarrow> sysdb) list \<Rightarrow> js_lib \<Rightarrow> decls \<Rightarrow>
     (func \<Rightarrow> call_ctx \<Rightarrow> jsarg list \<Rightarrow> (('u, 'x) dbos \<times> jsval, jsval) meth) \<Rightarrow>
     ('u, 'x) handler_reg \<Rightarrow> http_request \<Rightarrow> (('u, 'x) dbos \<times> jsval, jsval) meth" where
  "run_endpoint dx others lib st handlers ro rq =
     bindE (liftE (authenticate ro rq)) (\<lambda>(user, roles).
     bindE (liftE (parse_args ro rq)) (\<lambda>args.
     let wfParams = plain_params\<lparr>p_workflowUUID := Some (rq_workflowUUID rq), p_parentCtx := \<lparr>pc_request = rq_request rq,
           pc_authenticatedUser = user, pc_authenticatedRoles = roles, pc_assumedRole = []\<rparr>\<rparr>;
         cls = reg_className (hr_method ro); nm = reg_name (hr_method ro) in
     if hr_txn ro then on_dbos (exec_transaction dx others cls nm wfParams args)
     else case hr_workflow ro of
       Some wfl \<Rightarrow> on_dbos (await_result dx others (workflow dx others wfl wfParams args))
     | None \<Rightarrow>
         if hr_comm ro then on_dbos (exec_external dx others cls nm wfParams args)
         else
           bindE (invoke lib st handlers (hr_method ro) \<lparr>cc_authenticatedRoles = roles, cc_assumedRole = []\<rparr> (Prim JUndefined # map Prim args)) (\<lambda>retValue.
           bindE (getsE snd) (\<lambda>body. retE (if body = JUndefined then retValue else body)))))"

datatype http_body = Value jsval | ErrorBody nat string jserror

record http_response =
  rs_status :: "nat option" \<comment> \<open>\<open>None\<close>: set by Koa from the body\<close>
  rs_body :: http_body
  rs_requestID :: string

definition http_status :: "jserror \<Rightarrow> nat" where
  "http_status e =
     (let st = (case err_status e of None \<Rightarrow> 500 | Some n \<Rightarrow> if n = 0 then 500 else n) in
      case dbosErrorCode e of None \<Rightarrow> st | Some code \<Rightarrow> if code \<noteq> 0 \<and> isClientError code then 400 else st)"

definition getOrGenerateRequestID :: "uuid \<Rightarrow> http_request \<Rightarrow> string" where
  "getOrGenerateRequestID newID rq = (if rq_requestID rq \<noteq> [] then rq_requestID rq else newID)"

definition wrappedHandler ::
    "('u, 'x) DBOSExecutor \<Rightarrow> (sysdb \<Rightarrow> sysdb) list \<Rightarrow> js_lib \<Rightarrow> decls \<Rightarrow>
     (func \<Rightarrow> call_ctx \<Rightarrow> jsarg list \<Rightarrow> (('u, 'x) dbos \<times> jsval, jsval) meth) \<Rightarrow>
     ('u, 'x) handler_reg \<Rightarrow> uuid \<Rightarrow> http_request \<Rightarrow> ('u, 'x) dbos \<times> jsval \<Rightarrow> http_response \<times> ('u, 'x) dbos \<times> jsval" where
  "wrappedHandler dx others lib st handlers ro newID rq s =
     (case run_endpoint dx others lib st handlers ro rq s of
        (Inr v, t) \<Rightarrow> (\<lparr>rs_status = None, rs_body = Value v, rs_requestID = getOrGenerateRequestID newID rq\<rparr>, t)
      | (Inl e, t) \<Rightarrow> (\<lparr>rs_status = Some (http_status e), rs_body = ErrorBody (http_status e) (err_message e) e,
            rs_requestID = getOrGenerateRequestID newID rq\<rparr>, t))"

text \<open>Endpoints of instance methods are not registered.\<close>

definition registerDecoratedEndpoints :: "('u, 'x) handler_reg list \<Rightarrow> (APITypes \<times> string \<times> ('u, 'x) handler_reg) list" where
  "registerDecoratedEndpoints ops = map (\<lambda>ro. (hr_apiType ro, hr_apiURL ro, ro))
     (filter (\<lambda>ro. hr_apiURL ro \<noteq> [] \<and> \<not> reg_isInstance (hr_method ro)) ops)"

definition cors_origin :: "string list option \<Rightarrow> string option \<Rightarrow> string" where
  "cors_origin whitelist hdr = (case whitelist of
     Some (w # ws) \<Rightarrow> (let origin = (case hdr of None \<Rightarrow> ''*'' | Some h \<Rightarrow> h) in if origin \<in> set (w # ws) then origin else [])
   | _ \<Rightarrow> (case or_undefined hdr of None \<Rightarrow> ''*'' | Some h \<Rightarrow> h))"

definition recoveryHandler ::
    "('u, 'x) DBOSExecutor \<Rightarrow> (sysdb \<Rightarrow> sysdb) list \<Rightarrow> string list \<Rightarrow> (('u, 'x) dbos, uuid list) meth" where
  "recoveryHandler dx others executorIDs =
     bindE (recoverPendingWorkflows dx others executorIDs) (\<lambda>recoverHandles. retE (map getWorkflowUUID recoverHandles))"

section \<open>Errors and statuses\<close>

text \<open>Every error of the validation is a client error.\<close>

definition client_error :: "jserror + 'a \<Rightarrow> bool" where
  "client_error r \<longleftrightarrow> (\<forall>e. r = Inl e \<longrightarrow> (\<exists>msg. e = DBOSDataValidationError msg))"

lemma client_error_simps [simp]: "client_error (Inr x)" "client_error (Inl (DBOSDataValidationError msg))"
  "client_error (arg_error nm d rest)"
  by (simp_all add: client_error_def arg_error_def)

lemma client_error_bindR: "client_error r \<Longrightarrow> (\<And>x. r = Inr x \<Longrightarrow> client_error (f x)) \<Longrightarrow> client_error (bindR r f)"
  by (cases r) (auto simp: client_error_def bindR_def)

lemma check_value_client: "client_error (check_value lib nm d v)"
proof -
  have "client_error (check_text nm d v)" "client_error (check_boolean lib nm d v)" "client_error (check_decimal lib nm d v)"
    "client_error (to_number lib nm d v)" "client_error (check_timestamp lib nm d v)"
    by (cases v, simp_all split: option.split)+
  then show ?thesis
    by (auto simp: check_value_def check_uuid_def check_number_def intro!: client_error_bindR split: DBOSFieldType.split)
qed

lemma validate_arg_client: "client_error (validate_arg lib reg d a)"
  by (auto simp: validate_arg_def Let_def intro!: client_error_bindR check_value_client)

lemma validate_from_client: "client_error (validate_from lib reg idx ds args)"
  by (induction lib reg idx ds args rule: validate_from.induct) (auto intro!: client_error_bindR validate_arg_client)

lemma validateMethodArgs_client: "validateMethodArgs lib reg args = Inl e \<Longrightarrow> \<exists>msg. e = DBOSDataValidationError msg"
  using validate_from_client by (simp add: validateMethodArgs_def client_error_def)

lemma http_status_simps [simp]:
  "http_status (DBOSDataValidationError msg) = 400" "http_status (DBOSNotAuthorizedError msg 403) = 403"
  "http_status (DBOSWorkflowConflictUUIDError u) = 400" "http_status (DBOSNotRegisteredError nm) = 400"
  by (simp_all add: http_status_def isClientError_def error_codes)

text \<open>An endpoint that is neither a transaction, a workflow nor a step calls its function through the wrapper.\<close>

definition plain_endpoint :: "('u, 'x) handler_reg \<Rightarrow> decls \<Rightarrow> bool" where
  "plain_endpoint ro st \<longleftrightarrow> \<not> hr_txn ro \<and> hr_workflow ro = None \<and> \<not> hr_comm ro \<and>
     (\<exists>cls nm. reg_registeredFunction (hr_method ro) = Some (Wrapped cls nm) \<and> method_of st cls nm = Some (hr_method ro))"

lemma plain_endpoint_run:
  assumes "plain_endpoint ro st" "authenticate ro rq = Inr (user, roles)" "parse_args ro rq = Inr args"
  shows "run_endpoint dx others lib st handlers ro rq =
    bindE (wrappedMethod lib st (hr_method ro) handlers \<lparr>cc_authenticatedRoles = roles, cc_assumedRole = []\<rparr> (Prim JUndefined # map Prim args))
      (\<lambda>retValue. bindE (getsE snd) (\<lambda>body. retE (if body = JUndefined then retValue else body)))"
  using assms by (auto simp: plain_endpoint_def run_endpoint_def invoke_def em_simps fun_eq_iff)

lemma wrappedMethod_invalid:
  assumes "authorize (reg_name m) (getRequiredRoles st m) ctx = Inr ctx'" "validateMethodArgs lib (spec_of st m) args = Inl e"
  shows "wrappedMethod lib st m body ctx args s = (Inl e, s)"
  using assms by (simp add: wrappedMethod_def em_simps)

lemma authorize_held:
  assumes "roles = [] \<or> set roles \<inter> set (cc_authenticatedRoles ctx) \<noteq> {}"
  shows "\<exists>ctx'. authorize nm roles ctx = Inr ctx'"
proof (cases "find (\<lambda>role. role \<in> set (cc_authenticatedRoles ctx)) roles")
  case None
  with assms show ?thesis by (auto simp: find_None_iff authorize_def)
qed (simp add: authorize_def)

lemma wrappedHandler_error:
  "run_endpoint dx others lib st handlers ro rq s = (Inl e, t) \<Longrightarrow>
   wrappedHandler dx others lib st handlers ro newID rq s =
     (\<lparr>rs_status = Some (http_status e), rs_body = ErrorBody (http_status e) (err_message e) e,
       rs_requestID = getOrGenerateRequestID newID rq\<rparr>, t)"
  by (simp add: wrappedHandler_def)

text \<open>Each parameter but the context gets one argument.\<close>

lemma parse_args_length: "parse_args ro rq = Inr args \<Longrightarrow> length args = length (hr_args ro) - 1"
  by (auto simp: parse_args_def dest: traverse_length)

end
