(* ===== verification/Management.thy ===== *)
theory Management
  imports Executor
begin

text \<open>
  Management of workflows from the command line (\<open>src/src/dbos-runtime/workflow_management.ts\<close>): listing, looking up,
  cancelling and attempting again. Opening and closing the database, and loading the classes of the application, are left out.
\<close>

record WorkflowInformation =
  inf_workflowUUID :: uuid
  inf_status :: WorkflowStatus
  inf_input :: "jsval list option"
  inf_output :: "jsval option"
  inf_error :: "jserror option"
  inf_request :: "jsval option"

text \<open>\<open>others\<close> are the changes of other sessions while the result is polled, as in \<open>getWorkflowResult\<close>.\<close>

definition mgmt_getWorkflowInfo :: "runtime \<Rightarrow> (sysdb \<Rightarrow> sysdb) list \<Rightarrow> uuid \<Rightarrow> bool \<Rightarrow> (sysdb, WorkflowInformation) meth" where
  "mgmt_getWorkflowInfo rt others u getRequest =
     bindE (readWorkflowStatus rt u) (\<lambda>info. case info of
       None \<Rightarrow> raiseE (runtime_error ''TypeError'' ''Cannot set properties of null (setting 'workflowUUID')'')
     | Some st \<Rightarrow>
         bindE (getWorkflowInputs rt u) (\<lambda>input.
         bindE (if wst_status st = SUCCESS then bindE (getWorkflowResult rt others u) (\<lambda>result. retE (Some result, None))
                else if wst_status st = ERROR then
                  catchE (bindE (getWorkflowResult rt others u) (\<lambda>_. retE (None, None))) (\<lambda>e. retE (None, Some e))
                else retE (None, None)) (\<lambda>(output, error).
         retE \<lparr>inf_workflowUUID = u, inf_status = st, inf_input = input, inf_output = output, inf_error = error,
           inf_request = (if getRequest then Some (wst_request st) else None)\<rparr>)))"

definition listWorkflows :: "runtime \<Rightarrow> (sysdb \<Rightarrow> sysdb) list \<Rightarrow> GetWorkflowsInput \<Rightarrow> bool \<Rightarrow> (sysdb, WorkflowInformation list) meth" where
  "listWorkflows rt others inp getRequest =
     bindE (getWorkflows rt inp) (\<lambda>workflowUUIDs. mapE (\<lambda>i. mgmt_getWorkflowInfo rt others i getRequest) (rev workflowUUIDs))"

definition mgmt_getWorkflow :: "runtime \<Rightarrow> (sysdb \<Rightarrow> sysdb) list \<Rightarrow> uuid \<Rightarrow> bool \<Rightarrow> (sysdb, WorkflowInformation) meth" where
  "mgmt_getWorkflow rt others u getRequest = mgmt_getWorkflowInfo rt others u getRequest"

definition cancelWorkflow :: "uuid \<Rightarrow> (sysdb, unit) meth" where
  "cancelWorkflow u = setWorkflowStatus u CANCELLED False"

definition reattemptWorkflow ::
    "('u, 'x) DBOSExecutor \<Rightarrow> (sysdb \<Rightarrow> sysdb) list \<Rightarrow> uuid \<Rightarrow> bool \<Rightarrow> (('u, 'x) dbos, jsval) meth" where
  "reattemptWorkflow dx others u startNewWorkflow =
     seqE (whenE (\<not> startNewWorkflow) (on_sys (setWorkflowStatus u PENDING True)))
       (await_result dx others (executeWorkflowUUID dx others u startNewWorkflow))"

text \<open>A cancelled workflow is pending for no executor, so recovery does not start it.\<close>

lemma row_update_mem: "x \<in> set (row_update key k f rows) \<Longrightarrow> \<exists>y. x = (if key y = k then f y else y)"
  by (auto simp: row_update_def)

lemma cancelled_not_pending:
  assumes "cancelWorkflow u db = (r, db')" "getPendingWorkflows e db' = (Inr us, db'')"
  shows "u \<notin> set us"
proof
  assume "u \<in> set us"
  moreover have "us = map ws_workflow_uuid (filter (\<lambda>r. ws_status r = PENDING \<and> ws_executor_id r = e) (workflow_status db'))"
    using assms(2) by (auto simp: getPendingWorkflows_def em_simps)
  ultimately obtain x where x: "x \<in> set (workflow_status db')" "ws_workflow_uuid x = u" "ws_status x = PENDING" by fastforce
  have "workflow_status db' = row_update ws_workflow_uuid u (\<lambda>r. r\<lparr>ws_status := CANCELLED\<rparr>) (workflow_status db)"
    using assms(1) by (auto simp: cancelWorkflow_def setWorkflowStatus_def em_simps update_wf_def)
  with x(1) obtain y where y: "x = (if ws_workflow_uuid y = u then y\<lparr>ws_status := CANCELLED\<rparr> else y)"
    by (metis row_update_mem)
  from x(2,3) show False unfolding y by (cases "ws_workflow_uuid y = u") simp_all
qed

text \<open>
  The null check of the lookup comes too late: a workflow that does not exist gives a type error.
\<close>

lemma missing_workflow_type_error:
  "find_wf u db = None \<Longrightarrow> \<exists>msg. mgmt_getWorkflow rt others u b db = (Inl (runtime_error ''TypeError'' msg), db)"
  by (auto simp: mgmt_getWorkflow_def mgmt_getWorkflowInfo_def readWorkflowStatus_def em_simps)

text \<open>Cancelling takes no account of the status: a workflow that had succeeded can no longer be waited for, the poll ends only when someone else changes the status.\<close>

lemma cancelled_result_unavailable:
  assumes "cancelWorkflow u db = (r, db')" "find_wf u db = Some row"
  shows "getWorkflowResult rt [] u db' = (Inl Diverges, db')"
proof -
  from assms have "find_wf u db' = Some (row\<lparr>ws_status := CANCELLED\<rparr>)"
    by (auto simp: cancelWorkflow_def setWorkflowStatus_def em_simps update_wf_def row_find_update)
  then show ?thesis by (simp add: getWorkflowResult.simps [of rt "[]"] em_simps)
qed

end
