(* ===== verification/Demo.thy ===== *)
theory Demo
  imports Lifecycle SysInvariant Scheduler Debugger Fdb Http Management
begin

text \<open>
  A small application, on which the theorems of the development are evaluated: a balance in the
  application's database, a counter in the outside world, one transaction of each kind, one step, and two
  workflows with a status row.
\<close>

definition d_num :: "jsval list \<Rightarrow> int" where
  "d_num args = (case args of JNum q # _ \<Rightarrow> \<lfloor>q\<rfloor> | _ \<Rightarrow> 0)"

definition d_add :: "int TransactionInfo" where
  "d_add = \<lparr>ti_name = ''add'', ti_config = \<lparr>tc_isolationLevel = None, tc_readOnly = None\<rparr>,
     ti_transaction = (\<lambda>args (a, b). (Inr (JNum (of_int (a + d_num args))), (a + d_num args, b)))\<rparr>"

definition d_read :: "int TransactionInfo" where
  "d_read = \<lparr>ti_name = ''read'', ti_config = \<lparr>tc_isolationLevel = None, tc_readOnly = Some True\<rparr>,
     ti_transaction = (\<lambda>args (a, b). (Inr (JNum (of_int a)), (a, b)))\<rparr>"

definition d_inc :: "int StepInfo" where
  "d_inc = \<lparr>si_name = ''inc'', si_config = \<lparr>sc_retriesAllowed = Some False, sc_intervalSeconds = None, sc_maxAttempts = None, sc_backoffRate = None\<rparr>,
     si_step = (\<lambda>args x. (Inr (JNum (of_int (x + 1))), x + 1))\<rparr>"

definition d_ex :: "(int, int) dbosExec" where
  "d_ex = \<lparr>ex_runtime = demo_rt, ex_kind = PGNODE, ex_sqlError = pg_err,
     transactionInfoMap = [''Bank.add'' \<mapsto> d_add, ''Bank.read'' \<mapsto> d_read],
     stepInfoMap = [''Bank.inc'' \<mapsto> d_inc], procedureInfoMap = Map.empty\<rparr>"

definition d_row :: "uuid \<Rightarrow> workflow_status_row" where
  "d_row u = \<lparr>ws_workflow_uuid = u, ws_status = PENDING, ws_name = ''main'', ws_class_name = Some ''Bank'', ws_config_name = Some [],
     ws_queue_name = None, ws_authenticated_user = [], ws_assumed_role = [], ws_authenticated_roles = Some (Arr []),
     ws_request = Some (Obj []), ws_output = None, ws_error = None, ws_executor_id = ''local'', ws_application_version = [],
     ws_application_id = [], ws_created_at = 0, ws_updated_at = 0, ws_recovery_attempts = 0\<rparr>"

definition d_sys :: sysdb where
  "d_sys = (empty_sysdb 1000)\<lparr>workflow_status := [d_row ''a'', d_row ''b'']\<rparr>"

definition d_state :: "(int, int) dbos" where
  "d_state = \<lparr>userDatabase = \<lparr>ud_app = 100, transaction_outputs = Map.empty, ud_aborted = False, ud_xid = 0, commit_faults = []\<rparr>,
     systemDatabase = d_sys, outside = 7, functionID = 0, resultBuffer = [], txn_snapshot = [], workflowResultBuffer = [], uuidCount = 0\<rparr>"

definition d_ctx :: wctx where
  "d_ctx = \<lparr>workflowUUID = ''a'', presetUUID = True\<rparr>"

text \<open>Read, add, call the outside world, tell another workflow.\<close>

definition d_prog :: wfprog where
  "d_prog = Call (OpTransaction ''Bank.read'' []) (\<lambda>_. Call (OpTransaction ''Bank.add'' [JNum 5]) (\<lambda>_.
     Call (OpStep ''Bank.inc'' []) (\<lambda>r. Call (OpSend ''b'' (JStr ''done'') None) (\<lambda>_. Finish r))))"

definition d_wake :: "nat \<Rightarrow> wake" where
  "d_wake n = TimedOut id"

definition d_run :: "wfprog \<times> (wfop \<times> (jserror + jsval)) list \<times> (int, int) dbos" where
  "d_run = run_ops d_ex d_ctx 1 d_wake 3 d_prog d_state"

text \<open>Other states: logged operations, messages, queued workflows.\<close>

definition d_logged :: "(int, int) dbos" where
  "d_logged = d_state\<lparr>userDatabase := (userDatabase d_state)\<lparr>
     transaction_outputs := [(''a'', 0) \<mapsto> \<lparr>to_output = Some (Num 105), to_error = None, to_txn_id = None, to_txn_snapshot = [], to_created_at = None\<rparr>],
     commit_faults := [Some (pg_err ''40001'')]\<rparr>\<rparr>"

definition d_stepped :: "(int, int) dbos" where
  "d_stepped = d_state\<lparr>systemDatabase := d_sys\<lparr>operation_outputs := [(''a'', 0) \<mapsto> \<lparr>oo_output = Some (Num 8), oo_error = None\<rparr>]\<rparr>\<rparr>"

definition d_mail :: sysdb where
  "d_mail = d_sys\<lparr>notifications := [
     \<lparr>nt_destination_uuid = ''b'', nt_topic = ''t'', nt_message = Some (Str ''late''), nt_created_at_epoch_ms = 20\<rparr>,
     \<lparr>nt_destination_uuid = ''b'', nt_topic = ''t'', nt_message = Some (Str ''early''), nt_created_at_epoch_ms = 10\<rparr>]\<rparr>"

definition d_queue :: WorkflowQueue where
  "d_queue = \<lparr>q_name = ''q'', q_concurrency = Some 1, q_rateLimit = Some \<lparr>limitPerPeriod = 1, periodSec = 10\<rparr>\<rparr>"

definition d_queued :: sysdb where
  "d_queued = d_sys\<lparr>workflow_status := [(d_row ''a'')\<lparr>ws_status := ENQUEUED\<rparr>, (d_row ''b'')\<lparr>ws_status := ENQUEUED\<rparr>]\<rparr>"

definition d_claimed :: sysdb where
  "d_claimed = snd (findAndMarkStartableWorkflows d_queue (snd (enqueueWorkflow ''b'' d_queue (snd (enqueueWorkflow ''a'' d_queue d_queued)))))"

definition d_wsi :: "uuid \<Rightarrow> jsval \<Rightarrow> WorkflowStatusInternal" where
  "d_wsi u v = \<lparr>wsi_workflowUUID = u, wsi_status = SUCCESS, wsi_name = ''main'', wsi_className = ''Bank'', wsi_configName = [],
     wsi_queueName = None, wsi_authenticatedUser = [], wsi_output = v, wsi_error = None, wsi_assumedRole = [],
     wsi_authenticatedRoles = [], wsi_request = JObj [], wsi_executorID = ''local'', wsi_applicationVersion = [],
     wsi_applicationID = [], wsi_createdAt = 0, wsi_maxRetries = 50, wsi_recovery = False\<rparr>"

definition d_full :: sysdb where
  "d_full = d_sys\<lparr>workflowStatusBuffer := [(''a'', d_wsi ''a'' (JNum 3))], workflowInputsBuffer := [(''a'', [JNum 5])]\<rparr>"

text \<open>The connection breaks while another workflow ends.\<close>

definition d_break :: io where
  "d_break = \<lparr>io_error = Some (pg_err ''08006''), io_outputs = [(''b'', d_wsi ''b'' (JNum 4))], io_inputs = [(''b'', [JNum 6])]\<rparr>"

definition d_main :: "(int, int) Workflow" where
  "d_main = \<lparr>wf_name = ''main'', wf_className = ''Bank'', wf_call = (\<lambda>ctx args. run_prog d_ex ctx 1 d_wake d_prog)\<rparr>"

definition d_fail :: "(int, int) Workflow" where
  "d_fail = \<lparr>wf_name = ''fail'', wf_className = ''Bank'', wf_call = (\<lambda>ctx args. raiseE (runtime_error ''Error'' ''no funds''))\<rparr>"

definition d_dx :: "(int, int) DBOSExecutor" where
  "d_dx = \<lparr>dx_runtime = demo_rt, dx_kind = PGNODE, dx_sqlError = pg_err,
     dx_registry = \<lparr>workflowInfoMap = [(''Bank.main'', \<lparr>wi_workflow = d_main, wi_maxRecoveryAttempts = None\<rparr>)],
       transactionInfos = [(''Bank.add'', d_add), (''Bank.read'', d_read)], stepInfos = [(''Bank.inc'', d_inc)], procedureInfos = []\<rparr>,
     dx_queues = [(''q'', d_queue)], generateUUID = nat_str, dx_vmid = None, dx_appVersion = [], dx_appID = [], dx_fuel = 1\<rparr>"

definition d_results :: "(int, int) dbos" where
  "d_results = d_state\<lparr>workflowResultBuffer := [(''a'', [(0, \<lparr>br_output = Some (JNum 100), br_txn_snapshot = ''1'', br_created_at = Some 0\<rparr>)])]\<rparr>"

definition d_started :: sysdb where
  "d_started = d_sys\<lparr>workflow_inputs := [''a'' \<mapsto> Some (Arr [Num 5])]\<rparr>"

definition d_done :: sysdb where
  "d_done = d_sys\<lparr>workflow_status := [(d_row ''a'')\<lparr>ws_status := SUCCESS, ws_output := Some (Num 3)\<rparr>]\<rparr>"

definition d_failed :: "(int, int) dbos" where
  "d_failed = d_state\<lparr>userDatabase := (userDatabase d_state)\<lparr>
     transaction_outputs := [(''a'', 0) \<mapsto> \<lparr>to_output = None, to_error = Some (Obj [(''message'', Str ''no'')]), to_txn_id = None,
       to_txn_snapshot = [], to_created_at = None\<rparr>]\<rparr>\<rparr>"

text \<open>A scheduled method (not a workflow, so that only the times are recorded), at the seconds 1, 2 and 4 of midnight.\<close>

definition d_sched :: "(int, int) DetachableLoop" where
  "d_sched = \<lparr>isRunning = True, lastExec = 0,
     timeMatcher = \<lparr>tm_pattern = ''1,2,4 0 0 1 1 4'', tm_expressions = [''1,2,4'', ''0'', ''0'', ''1'', ''1'', ''4''], tm_dtf = None\<rparr>,
     schedMode = ExactlyOncePerInterval,
     scheduledMethod = \<lparr>sr_className = ''Bank'', sr_name = ''tick'', sr_workflow = None, sr_schedulerConfig = None\<rparr>\<rparr>"

lemma d_trace: "fst (snd d_run) = [(OpTransaction ''Bank.read'' [], Inr (JNum 100)),
   (OpTransaction ''Bank.add'' [JNum 5], Inr (JNum 105)), (OpStep ''Bank.inc'' [], Inr (JNum 8))]"
  by code_simp

lemma d_end: "resultBuffer (snd (snd d_run)) = []" "outside (snd (snd d_run)) = 8"  "ud_app (userDatabase (snd (snd d_run))) = 105"
  by code_simp+

lemma demo_reviver_error: "DBOSReviver demo_rt v = Inl e \<Longrightarrow> \<exists>nm msg. e = runtime_error nm msg"
  by (auto simp: DBOSReviver_def bindR_def bigInt_def demo_rt_def byte_of_def dest!: traverse_Inl
      split: if_splits sum.splits jsval.splits option.splits)

lemma demo_revive_error: "revive demo_rt j = Inl e \<Longrightarrow> \<exists>nm msg. e = runtime_error nm msg"
proof (induction j arbitrary: e)
  case (Arr xs)
  then show ?case
    by (auto simp: bindR_def demo_reviver_error dest: traverse_Inl split: sum.splits)
next
  case (Obj kvs)
  then show ?case
    by (fastforce simp: bindR_def demo_reviver_error dest: traverse_Inl split: sum.splits)
qed (simp_all add: demo_reviver_error)

lemma demo_plain_errors: "plain_errors d_ex"
proof -
  have "ok_error d_ex (pg_err c)" if "c \<noteq> ''40001''" for c
    using that by (auto simp: ok_error_def d_ex_def isRetriableTransactionError_def has_code_def pg_err_def or_undefined_def)
  moreover have "ok_error d_ex (deserializeError demo_rt v)" for v
    by (simp add: demo_rt_def ok_error_range split: jsval.split)
  moreover have "ok_error d_ex e" if "parse demo_rt c = Inl e" for c e
    using that demo_revive_error ok_error_range by (fastforce simp: parse_def split: option.splits)
  ultimately show ?thesis by (simp add: plain_errors_def d_ex_def)
qed

lemma d_claimed_reach: "qreach [d_queue] d_claimed"
proof -
  have "qreach [d_queue] d_queued" by (rule qreach.start) (simp add: d_queued_def d_sys_def empty_sysdb_def)
  then have "qreach [d_queue] (snd (enqueueWorkflow ''a'' d_queue d_queued))"
    by (rule qreach.step) (rule qstep.enqueue [OF _ prod.collapse [symmetric]], simp)
  then have "qreach [d_queue] (snd (enqueueWorkflow ''b'' d_queue (snd (enqueueWorkflow ''a'' d_queue d_queued))))"
    by (rule qreach.step) (rule qstep.enqueue [OF _ prod.collapse [symmetric]], simp)
  then show ?thesis unfolding d_claimed_def
    by (rule qreach.step) (rule qstep.claim [OF _ prod.collapse [symmetric]], simp)
qed

section \<open>A class with a guarded method\<close>

definition d_env :: js_env where
  "d_env = \<lparr>fn_text = (\<lambda>_. ''add(ctx, n) { }''), designParamTypes = (\<lambda>_ _. Some [TOther ''TransactionContext'', TNumber])\<rparr>"

definition d_target :: target where
  "d_target = StaticOf \<lparr>ct_id = 1, ct_name = ''Bank''\<rparr>"

definition d_guarded :: decls where
  "d_guarded = snd (RequiredRole d_env [''teller''] d_target ''add'' (Some (Orig 0)) no_decls)"

definition d_later :: "decorator list" where
  "d_later = [MethodDec (DTransaction (JObj [])) d_target ''add'' (Wrapped ''Bank'' ''add''), ClassDec DDefaultArgOptional \<lparr>ct_id = 1, ct_name = ''Bank''\<rparr>]"

definition d_declared :: decls where
  "d_declared = snd (mapE (run_decorator d_env) d_later d_guarded)"

lemma d_guarded_run: "RequiredRole d_env [''teller''] d_target ''add'' (Some (Orig 0)) no_decls = (Inr (Wrapped ''Bank'' ''add''), d_guarded)"
proof -
  have "fst (RequiredRole d_env [''teller''] d_target ''add'' (Some (Orig 0)) no_decls) = Inr (Wrapped ''Bank'' ''add'')" by code_simp
  then show ?thesis by (simp add: d_guarded_def prod_eq_iff)
qed

lemma d_declared_run: "mapE (run_decorator d_env) d_later d_guarded = (Inr [(), ()], d_declared)"
proof -
  have "fst (mapE (run_decorator d_env) d_later d_guarded) = Inr [(), ()]" by code_simp
  then show ?thesis by (simp add: d_declared_def prod_eq_iff)
qed

definition d_lib :: js_lib where
  "d_lib = \<lparr>mathExp = (\<lambda>n. of_int (3 ^ nat n)), parseFloat = (\<lambda>s. map_option of_int (parseInt10 s)), numberOfBigInt = of_int,
     parseDate = iso_parse, stringOther = (\<lambda>_. ''[object Object]'')\<rparr>"

definition d_params :: arg_spec where
  "d_params = \<lparr>as_name = ''add'', as_args = [newMethodParameter 0 (TOther ''TransactionContext''), newMethodParameter 1 TNumber,
     newMethodParameter 2 TBoolean], as_defaultArgRequired = Some REQUIRED\<rparr>"

definition d_fdb :: fdb where
  "d_fdb = \<lparr>workflowStatusDB = [], operationOutputsDB = Map.empty, notificationsDB = Map.empty, workflowEventsDB = Map.empty,
     workflowInputsDB = Map.empty, fdbStatusBuffer = [], fdbInputsBuffer = [], fdb_clock = 0\<rparr>"

section \<open>An endpoint\<close>

definition d_method :: method_reg where
  "d_method = the (method_of d_guarded ''Bank'' ''add'')"

definition d_handler :: "string \<Rightarrow> (int, int) handler_reg" where
  "d_handler role = \<lparr>hr_method = d_method, hr_apiType = GET, hr_apiURL = ''/add'',
     hr_args = [(newMethodParameter 0 (TOther ''HandlerContext''), None), ((newMethodParameter 1 TNumber)\<lparr>mp_name := ''n''\<rparr>, None)],
     hr_txn = False, hr_workflow = None, hr_comm = False, authMiddleware = Some (\<lambda>_. Inr (Some (''ann'', [role])))\<rparr>"

definition d_request :: http_request where
  "d_request = \<lparr>rq_query = (\<lambda>_. JUndefined), rq_body = JUndefined, rq_params = (\<lambda>_. JUndefined), rq_workflowUUID = [],
     rq_requestID = [], rq_request = JObj []\<rparr>"

lemma d_handler_plain: "plain_endpoint (d_handler role) d_guarded"
proof -
  have "method_of d_guarded ''Bank'' ''add'' \<noteq> None" by code_simp
  then have "method_of d_guarded ''Bank'' ''add'' = Some d_method" by (auto simp: d_method_def)
  moreover have "reg_registeredFunction d_method = Some (Wrapped ''Bank'' ''add'')" by code_simp
  ultimately show ?thesis by (auto simp: plain_endpoint_def d_handler_def)
qed

lemma d_handler_auth: "authenticate (d_handler role) d_request = Inr (''ann'', [role])"
  by (simp add: authenticate_def d_handler_def)

lemma d_handler_args: "parse_args (d_handler role) d_request = Inr [JUndefined]"
  by (simp add: parse_args_def d_handler_def parse_arg_def d_request_def isQueryMethod_def Let_def newMethodParameter_def)

lemma d_handler_missing: "\<exists>e. validateMethodArgs d_lib (spec_of d_guarded d_method) [Prim JUndefined, Prim JUndefined] = Inl e"
proof -
  have "case validateMethodArgs d_lib (spec_of d_guarded d_method) [Prim JUndefined, Prim JUndefined] of Inl _ \<Rightarrow> True | Inr _ \<Rightarrow> False"
    by code_simp
  then show ?thesis by (auto split: sum.splits)
qed

end
