(* ===== verification/Kafka.thy ===== *)
theory Kafka
  imports Lifecycle Registration
begin

text \<open>
  Event receivers (\<open>src/src/eventreceiver.ts\<close>, \<open>getRegistrationsFor\<close> of the executor) and the Kafka receiver
  (\<open>src/src/kafka/kafka.ts\<close>, class \<open>DBOSKafka\<close>): one consumer per decorated method, which starts the method for
  every message under an identifier made of topic, partition and offset.

  The client library \<open>kafkajs\<close> is the record \<open>kafka_client\<close>: whether a connection succeeds, and how each attempt to subscribe ends. It
  calls \<open>eachMessage\<close> for the messages of the subscribed topics, a message again when it has not been committed. Messages
  are JavaScript values with their offset.
\<close>

section \<open>Registrations of a receiver\<close>

text \<open>
  An operation with what event receivers have stored for it and, if it has a class registration, for its class. Receivers
  are numbered; \<open>nothing\<close> is the empty object.
\<close>

record ('r, 'm, 'c) received_op =
  rv_methodReg :: 'r
  rv_eventReceiverInfo :: "(nat, 'm) jmap"
  rv_classInfo :: "(nat, 'c) jmap option"

definition getRegistrationsFor :: "'c \<Rightarrow> ('r, 'm, 'c) received_op list \<Rightarrow> nat \<Rightarrow> ('r \<times> 'm \<times> 'c) list" where
  "getRegistrationsFor nothing registeredOperations rcvr =
     concat (map (\<lambda>r. case jm_get (rv_eventReceiverInfo r) rcvr of
         None \<Rightarrow> []
       | Some methodConfig \<Rightarrow> [(rv_methodReg r, methodConfig,
           case rv_classInfo r of None \<Rightarrow> nothing | Some m \<Rightarrow> (case jm_get m rcvr of None \<Rightarrow> nothing | Some c \<Rightarrow> c))]) registeredOperations)"

text \<open>The receivers \<open>registerClass\<close> collects, each once.\<close>

definition collect_receivers :: "nat list \<Rightarrow> ('r, 'm, 'c) received_op list \<Rightarrow> nat list" where
  "collect_receivers = foldl (\<lambda>rcvrs ro. foldl (\<lambda>rs (rcvr, _). if rcvr \<in> set rs then rs else rs @ [rcvr]) rcvrs (rv_eventReceiverInfo ro))"

section \<open>Configuration\<close>

datatype topic = Topic string | TopicPattern string \<comment> \<open>a regular expression, as it prints\<close>

datatype topics = OneTopic topic | ManyTopics "topic list"

record kafka_retry =
  kr_retries :: "nat option"
  kr_maxRetryTime :: "int option"
  kr_multiplier :: "int option"

record KafkaConfig =
  kc_retry :: "kafka_retry option"

record KafkaRegistrationInfo =
  kafkaTopics :: "topics option"
  consumerConfig :: "string option" \<comment> \<open>its \<open>groupId\<close>\<close>

record KafkaDefaults =
  kafkaConfig :: "KafkaConfig option"

definition no_defaults :: KafkaDefaults where
  "no_defaults = \<lparr>kafkaConfig = None\<rparr>"

definition KafkaConsume :: "topics \<Rightarrow> string option \<Rightarrow> KafkaRegistrationInfo \<Rightarrow> KafkaRegistrationInfo" where
  "KafkaConsume ts consumerCfg kafkaRegistration = kafkaRegistration\<lparr>kafkaTopics := Some ts, consumerConfig := consumerCfg\<rparr>"

definition Kafka_decorator :: "KafkaConfig \<Rightarrow> KafkaDefaults \<Rightarrow> KafkaDefaults" where
  "Kafka_decorator cfg kafkaInfo = kafkaInfo\<lparr>kafkaConfig := Some cfg\<rparr>"

text \<open>A registered method: a transaction, a workflow, or neither.\<close>

record ('u, 'x) kafka_method =
  km_className :: string
  km_name :: string
  km_txn :: bool
  km_workflow :: "('u, 'x) Workflow option"

section \<open>Handling a message\<close>

definition kafka_uuid :: "string \<Rightarrow> nat \<Rightarrow> string \<Rightarrow> uuid" where
  "kafka_uuid tp part offset = ''kafka-unique-id-'' @ tp @ ''-'' @ nat_str part @ ''-'' @ offset"

record KafkaMessage =
  km_offset :: string
  km_message :: jsval \<comment> \<open>the whole message object\<close>

definition eachMessage ::
    "('u, 'x) DBOSExecutor \<Rightarrow> (sysdb \<Rightarrow> sysdb) list \<Rightarrow> ('u, 'x) kafka_method \<Rightarrow> string \<Rightarrow> nat \<Rightarrow> KafkaMessage \<Rightarrow> (('u, 'x) dbos, unit) meth" where
  "eachMessage dx others method tp part message =
     (let wfParams = plain_params\<lparr>p_workflowUUID := Some (kafka_uuid tp part (km_offset message)), p_configuredInstance := None\<rparr>;
          args = [JStr tp, JNum (of_nat part), km_message message] in
      if km_txn method
      then bindE (exec_transaction dx others (km_className method) (km_name method) wfParams args) (\<lambda>_. retE ())
      else (case km_workflow method of
          Some wfl \<Rightarrow> bindE (workflow dx others wfl wfParams args) (\<lambda>_. retE ())
        | None \<Rightarrow> retE ()))"

section \<open>Consumers\<close>

fun topic_str :: "topic \<Rightarrow> string" where
  "topic_str (Topic s) = s"
| "topic_str (TopicPattern s) = s"

text \<open>The characters of \<open>[a-zA-Z0-9\\-]\<close> in the source: letters, digits, the backslash and the minus.\<close>

definition safe_char :: "char \<Rightarrow> bool" where
  "safe_char c = (let n = of_char c :: nat in 97 \<le> n \<and> n \<le> 122 \<or> 65 \<le> n \<and> n \<le> 90 \<or> 48 \<le> n \<and> n \<le> 57 \<or> n = 92 \<or> n = 45)"

definition safeGroupName :: "topic list \<Rightarrow> string" where
  "safeGroupName ts = take 255 (''dbos-kafka-group-'' @ join_on (CHR ''-'') (map (filter safe_char) (map topic_str ts)))"

text \<open>How an attempt to subscribe ends: well, or with an error and its Kafka code.\<close>

record kafka_client =
  kafka_connect :: "string \<Rightarrow> jserror + unit"
  kafka_subscribe :: "string \<Rightarrow> nat \<Rightarrow> (int option \<times> jserror) option"
  kafka_run :: "string \<Rightarrow> jserror + unit"

record ('u, 'x) consumer =
  cn_groupId :: string
  cn_topics :: "topic list"
  cn_subscribed :: bool
  cn_method :: "('u, 'x) kafka_method"

record ('u, 'x) DBOSKafka =
  consumers :: "('u, 'x) consumer list"
  kafka_slept :: "int list" \<comment> \<open>the pauses between attempts, newest first\<close>

text \<open>\<open>i\<close> counts the attempts made, \<open>n\<close> those left; the result says whether one of them succeeded.\<close>

fun subscribe_loop :: "(nat \<Rightarrow> (int option \<times> jserror) option) \<Rightarrow> int \<Rightarrow> nat \<Rightarrow> nat \<Rightarrow> int \<Rightarrow> (('u, 'x) DBOSKafka, bool) meth" where
  "subscribe_loop attempt multiplier 0 i retryTime = retE False"
| "subscribe_loop attempt multiplier (Suc n) i retryTime = (case attempt i of
     None \<Rightarrow> retE True
   | Some (code, e) \<Rightarrow>
       if code = Some 3 \<and> n > 0
       then seqE (modifyE (\<lambda>k. k\<lparr>kafka_slept := retryTime # kafka_slept k\<rparr>))
              (subscribe_loop attempt multiplier n (Suc i) (retryTime * multiplier))
       else raiseE e)"

definition topics_of :: "topics \<Rightarrow> topic list" where
  "topics_of ts = (case ts of ManyTopics xs \<Rightarrow> xs | OneTopic t \<Rightarrow> [t])"

text \<open>An empty topic name counts as none.\<close>

definition has_topics :: "KafkaRegistrationInfo \<Rightarrow> topics option" where
  "has_topics ro = (case kafkaTopics ro of Some (OneTopic (Topic s)) \<Rightarrow> if s = [] then None else kafkaTopics ro | ts \<Rightarrow> ts)"

definition retry_setting :: "KafkaConfig \<Rightarrow> (kafka_retry \<Rightarrow> 'a option) \<Rightarrow> 'a \<Rightarrow> 'a" where
  "retry_setting cfg f d = (case kc_retry cfg of None \<Rightarrow> d | Some r \<Rightarrow> (case f r of None \<Rightarrow> d | Some x \<Rightarrow> x))"

definition init_consumer ::
    "kafka_client \<Rightarrow> ('u, 'x) kafka_method \<times> KafkaRegistrationInfo \<times> KafkaDefaults \<Rightarrow> (('u, 'x) DBOSKafka, unit) meth" where
  "init_consumer client op = (case op of (method, ro, defaults) \<Rightarrow> (case has_topics ro of
       None \<Rightarrow> retE ()
     | Some ts \<Rightarrow>
         let nm = km_className method @ ''.'' @ km_name method in
         if \<not> km_txn method \<and> km_workflow method = None then
           raiseE (DBOSError (''Error registering method '' @ nm @ '': A Kafka decorator can only be assigned to a transaction or workflow!'') 1)
         else (case kafkaConfig defaults of
             None \<Rightarrow> raiseE (DBOSError (''Error registering method '' @ nm @ '': Kafka configuration not found. Does class '' @ km_className method @
               '' have an @Kafka decorator?'') 1)
           | Some cfg \<Rightarrow>
               let groupId = (case consumerConfig ro of Some g \<Rightarrow> g | None \<Rightarrow> safeGroupName (topics_of ts)) in
               seqE (liftE (kafka_connect client groupId))
               (bindE (subscribe_loop (kafka_subscribe client groupId) (retry_setting cfg kr_multiplier 2)
                         (retry_setting cfg kr_retries 5) 0 (retry_setting cfg kr_maxRetryTime 300)) (\<lambda>subscribed.
                seqE (liftE (kafka_run client groupId))
                  (modifyE (\<lambda>k. k\<lparr>consumers := consumers k @ [\<lparr>cn_groupId = groupId, cn_topics = topics_of ts,
                     cn_subscribed = subscribed, cn_method = method\<rparr>]\<rparr>)))))))"

definition kafka_initialize ::
    "kafka_client \<Rightarrow> (('u, 'x) kafka_method, KafkaRegistrationInfo, KafkaDefaults) received_op list \<Rightarrow> nat \<Rightarrow> (('u, 'x) DBOSKafka, unit) meth" where
  "kafka_initialize client registeredOperations self =
     bindE (mapE (init_consumer client) (getRegistrationsFor no_defaults registeredOperations self)) (\<lambda>_. retE ())"

text \<open>The groups disconnected, in order; the list of consumers is not emptied.\<close>

definition kafka_destroy :: "('u, 'x) DBOSKafka \<Rightarrow> string list" where
  "kafka_destroy k = map cn_groupId (consumers k)"

section \<open>A subscription\<close>

text \<open>The loop makes at most as many attempts as it is given, sleeps longer each time, and stops at the first success.\<close>

lemma subscribe_loop_bound:
  assumes "subscribe_loop attempt multiplier n i retryTime k = (r, k')"
  shows "\<exists>m \<le> n. kafka_slept k' = rev (map (\<lambda>j. retryTime * multiplier ^ j) [0..<m]) @ kafka_slept k \<and> consumers k' = consumers k \<and>
    (\<forall>j < m. \<exists>e. attempt (i + j) = Some (Some 3, e)) \<and>
    (n = 0 \<longrightarrow> r = Inr False) \<and>
    (n > 0 \<longrightarrow> m < n \<and> (case attempt (i + m) of None \<Rightarrow> r = Inr True | Some (_, e) \<Rightarrow> r = Inl e))"
  using assms
proof (induction n arbitrary: i retryTime k)
  case 0
  then show ?case by (simp add: retE_def)
next
  case (Suc n)
  show ?case
  proof (cases "\<exists>e. attempt i = Some (Some 3, e) \<and> n > 0")
    case True
    then obtain e where e: "attempt i = Some (Some 3, e)" "n > 0" by blast
    with Suc.prems have "subscribe_loop attempt multiplier n (Suc i) (retryTime * multiplier) (k\<lparr>kafka_slept := retryTime # kafka_slept k\<rparr>) = (r, k')"
      by (simp add: seqE_def bindE_def modifyE_def)
    from Suc.IH [OF this] e(2) obtain m where m: "m < n"
      "kafka_slept k' = rev (map (\<lambda>j. retryTime * multiplier * multiplier ^ j) [0..<m]) @ retryTime # kafka_slept k" "consumers k' = consumers k"
      "\<forall>j < m. \<exists>e. attempt (Suc i + j) = Some (Some 3, e)"
      "case attempt (Suc i + m) of None \<Rightarrow> r = Inr True | Some (_, e) \<Rightarrow> r = Inl e" by auto
    have "map (\<lambda>j. retryTime * multiplier ^ j) [0..<Suc m] = retryTime # map (\<lambda>j. retryTime * multiplier * multiplier ^ j) [0..<m]"
      by (simp add: upt_conv_Cons map_Suc_upt [symmetric] mult.assoc del: upt_Suc)
    moreover have "\<exists>e'. attempt (i + j) = Some (Some 3, e')" if "j < Suc m" for j
      using that e(1) m(4) by (cases j) auto
    ultimately show ?thesis using m by (intro exI [of _ "Suc m"]) (simp del: upt_Suc)
  next
    case False
    with Suc.prems show ?thesis by (intro exI [of _ 0]) (auto simp: retE_def raiseE_def split: option.splits prod.splits if_splits)
  qed
qed

lemma subscribe_loop_returns:
  assumes "subscribe_loop attempt multiplier n 0 retryTime k = (Inr b, k')"
  obtains m where "m \<le> n - 1" "b \<longleftrightarrow> n \<noteq> 0" "consumers k' = consumers k"
    "kafka_slept k' = rev (map (\<lambda>j. retryTime * multiplier ^ j) [0..<m]) @ kafka_slept k"
proof -
  obtain m where m: "m \<le> n" "kafka_slept k' = rev (map (\<lambda>j. retryTime * multiplier ^ j) [0..<m]) @ kafka_slept k" "consumers k' = consumers k"
    "n = 0 \<longrightarrow> Inr b = (Inr False :: jserror + bool)"
    "n > 0 \<longrightarrow> m < n \<and> (case attempt (0 + m) of None \<Rightarrow> Inr b = (Inr True :: jserror + bool) | Some (_, e) \<Rightarrow> Inr b = Inl e)"
    using subscribe_loop_bound [OF assms] by (elim exE conjE) (rule that)
  have "m \<le> n - 1 \<and> (b \<longleftrightarrow> n \<noteq> 0)"
  proof (cases "n = 0")
    case True
    with m(1,4) show ?thesis by simp
  next
    case False
    with m(5) show ?thesis by (cases "attempt (0 + m)") auto
  qed
  with m(2,3) that show ?thesis by blast
qed

lemma connect_subscribe_run:
  assumes "seqE (liftE c) (bindE loop (\<lambda>b. seqE (liftE r) (modifyE (f b)))) k = (Inr (), k')"
  obtains b k1 where "loop k = (Inr b, k1)" "k' = f b k1"
proof -
  from assms obtain x u where "liftE c k = (Inr x, u)" and u: "bindE loop (\<lambda>b. seqE (liftE r) (modifyE (f b))) u = (Inr (), k')"
    by (rule seqE_InrD)
  then have "u = k" by (simp add: liftE_def)
  with u have "bindE loop (\<lambda>b. seqE (liftE r) (modifyE (f b))) k = (Inr (), k')" by simp
  then obtain b k1 where b: "loop k = (Inr b, k1)" "seqE (liftE r) (modifyE (f b)) k1 = (Inr (), k')" by (rule bindE_InrD)
  from b(2) have "k' = f b k1" by (rule seqE_InrD) (simp add: liftE_def modifyE_def)
  with b(1) that show ?thesis by blast
qed

section \<open>Identifiers of messages\<close>

lemma kafka_uuid_inject:
  assumes "CHR ''-'' \<notin> set off" "CHR ''-'' \<notin> set off'"
  shows "kafka_uuid tp part off = kafka_uuid tp' part' off' \<longleftrightarrow> tp = tp' \<and> part = part' \<and> off = off'"
proof
  assume "kafka_uuid tp part off = kafka_uuid tp' part' off'"
  then have "(tp @ ''-'' @ nat_str part) @ CHR ''-'' # off = (tp' @ ''-'' @ nat_str part') @ CHR ''-'' # off'"
    by (simp add: kafka_uuid_def)
  from split_last_minus [OF this assms] have "tp @ CHR ''-'' # nat_str part = tp' @ CHR ''-'' # nat_str part'" "off = off'" by auto
  with split_last_minus [OF this(1) nat_str_no_minus nat_str_no_minus] show "tp = tp' \<and> part = part' \<and> off = off'" by simp
qed auto

section \<open>Delivery\<close>

text \<open>A transaction started on its own runs in a fresh context under the given identifier, and what it returns is returned.\<close>

lemma exec_transaction_run:
  assumes "jm_get (workflowInfoMap (dx_registry dx)) tempWorkflowName = Some temp" "u \<noteq> []" "p_queueName params = None"
    and "transaction (exec_of dx) \<lparr>workflowUUID = u, presetUUID = True\<rparr> (dx_fuel dx) (full_name cls nm) args (fresh_ctx s) = (Inr v, w)"
  shows "\<exists>t. exec_transaction dx others cls nm (params\<lparr>p_workflowUUID := Some u\<rparr>) args s = (Inr v, t) \<and>
    userDatabase t = userDatabase w \<and> outside t = outside w"
proof -
  let ?p = "params\<lparr>p_workflowUUID := Some u, p_tempWfType := ''transaction'', p_tempWfName := nm, p_tempWfClass := cls\<rparr>"
  let ?w = "temp_workflow (\<lambda>ctx. transaction (exec_of dx) ctx (dx_fuel dx) (full_name cls nm))"
  let ?ctx = "\<lparr>workflowUUID = u, presetUUID = True\<rparr>"
  have single: "is_single_txn ?p" by (simp add: is_single_txn_def)
  have info: "getWorkflowInfo (dx_registry dx) ?w = Some temp" by (simp add: getWorkflowInfo_def temp_workflow_def assms(1))
  let ?st = "internalStatus dx ?w temp ?p u (now (systemDatabase s))"
  have q: "wsi_queueName ?st = None" by (simp add: internalStatus_def assms(3))
  have call: "wf_call ?w ?ctx args (fresh_ctx s) = (Inr v, w)" by (simp add: temp_workflow_def assms(4))
  have "\<exists>t. runWorkflow dx others ?w ?p ?st ?ctx args (fresh_ctx s) = (Inr v, t) \<and> userDatabase t = userDatabase w \<and> outside t = outside w"
    by (simp add: runWorkflow_def bindE_def finallyE_def catchE_def seqE_def call dequeue_if_queued_def q or_undefined_def single whenE_def
        on_sys_run bufferWorkflowOutput_def bufferWorkflowInputs_def modifyE_def retE_def)
  then obtain t where t: "runWorkflow dx others ?w ?p ?st ?ctx args (fresh_ctx s) = (Inr v, t)"
    "userDatabase t = userDatabase w" "outside t = outside w" by blast
  have "start_as dx others ?w ?p None args u True s = (Inr (InvokedHandle u (wf_name ?w) (Inr v) None), restore_ctx s t)"
    by (simp add: start_as_def info single assms(3) in_new_context_def t(1) split_beta)
  then have "workflow dx others ?w ?p args s = (Inr (InvokedHandle u (wf_name ?w) (Inr v) None), restore_ctx s t)"
    by (simp add: workflow_def internalWorkflow_start assms(2) or_undefined_def)
  then show ?thesis using t(2,3)
    by (simp add: exec_transaction_def await_result_def bindE_def on_sys_run liftE_def restore_ctx_def)
qed

lemma fresh_ctx_log [simp]: "txn_log (fresh_ctx s) = txn_log s" "faults (fresh_ctx s) = faults s" "app_of (fresh_ctx s) = app_of s"
    "outside (fresh_ctx s) = outside s" "functionID (fresh_ctx s) = 0"
  by (simp_all add: fresh_ctx_def txn_log_def faults_def app_of_def)

text \<open>A transaction method, and what it does with a message whose identifier has a record, or has none.\<close>

definition kafka_transaction :: "('u, 'x) DBOSExecutor \<Rightarrow> ('u, 'x) kafka_method \<Rightarrow> 'u TransactionInfo \<Rightarrow> bool" where
  "kafka_transaction dx method info \<longleftrightarrow> km_txn method \<and>
     transactionInfoMap (exec_of dx) (full_name (km_className method) (km_name method)) = Some info \<and>
     (\<exists>temp. jm_get (workflowInfoMap (dx_registry dx)) tempWorkflowName = Some temp)"

definition kafka_args :: "string \<Rightarrow> nat \<Rightarrow> KafkaMessage \<Rightarrow> jsval list" where
  "kafka_args tp part m = [JStr tp, JNum (of_nat part), km_message m]"

lemma kafka_uuid_nonempty [simp]: "kafka_uuid tp part off \<noteq> []"
  by (simp add: kafka_uuid_def)

lemma eachMessage_transaction:
  assumes "kafka_transaction dx method info"
    and "transaction (exec_of dx) \<lparr>workflowUUID = kafka_uuid tp part (km_offset m), presetUUID = True\<rparr> (dx_fuel dx)
      (full_name (km_className method) (km_name method)) (kafka_args tp part m) (fresh_ctx s) = (Inr v, w)"
  shows "\<exists>t. eachMessage dx others method tp part m s = (Inr (), t) \<and> userDatabase t = userDatabase w \<and> outside t = outside w"
proof -
  obtain temp where temp: "jm_get (workflowInfoMap (dx_registry dx)) tempWorkflowName = Some temp" "km_txn method"
    using assms(1) by (auto simp: kafka_transaction_def)
  have "p_queueName (plain_params\<lparr>p_configuredInstance := None\<rparr>) = None" by (simp add: plain_params_def)
  from exec_transaction_run [OF temp(1) kafka_uuid_nonempty this assms(2), of others] obtain t where
    t: "exec_transaction dx others (km_className method) (km_name method)
        (plain_params\<lparr>p_workflowUUID := Some (kafka_uuid tp part (km_offset m)), p_configuredInstance := None\<rparr>) (kafka_args tp part m) s = (Inr v, t)"
      "userDatabase t = userDatabase w" "outside t = outside w" by (auto simp: plain_params_def)
  then show ?thesis using temp(2)
    by (simp add: eachMessage_def Let_def kafka_args_def bindE_def retE_def)
qed

lemma eachMessage_redelivered:
  assumes "kafka_transaction dx method info" "txn_log s (kafka_uuid tp part (km_offset m), 0) = Some row"
    and "decode_txn (dx_runtime dx) row = Inr v" "\<And>e. Some e \<in> set (faults s) \<Longrightarrow> isRetriableTransactionError (dx_kind dx) e"
    and "length (faults s) < dx_fuel dx"
  shows "\<exists>t. eachMessage dx others method tp part m s = (Inr (), t) \<and> app_of t = app_of s \<and> txn_log t = txn_log s \<and> outside t = outside s"
proof -
  let ?ctx = "\<lparr>workflowUUID = kafka_uuid tp part (km_offset m), presetUUID = True\<rparr>"
  let ?s = "(fresh_ctx s)\<lparr>functionID := Suc 0\<rparr>"
  have s: "txn_log ?s = txn_log s" "faults ?s = faults s" "app_of ?s = app_of s" "outside ?s = outside s"
    using fresh_ctx_log [of s] by (simp_all add: txn_log_def faults_def app_of_def)
  have "presetUUID ?ctx" "decode_txn (ex_runtime (exec_of dx)) row = Inr v" using assms(3) by (simp_all add: exec_of_def)
  from txn_attempts_replay [OF this, of ?s 0 "dx_fuel dx" info "kafka_args tp part m" 1] s(1,2) assms(2,4,5)
  obtain w where w: "txn_attempts (exec_of dx) ?ctx info 0 (kafka_args tp part m) (dx_fuel dx) 1 ?s = (Inr v, w)" "same_effects ?s w"
    by (auto simp: exec_of_def)
  have "transactionInfoMap (exec_of dx) (full_name (km_className method) (km_name method)) = Some info"
    using assms(1) by (simp add: kafka_transaction_def)
  then have "transaction (exec_of dx) ?ctx (dx_fuel dx) (full_name (km_className method) (km_name method)) (kafka_args tp part m) (fresh_ctx s) = (Inr v, w)"
    using w(1) by (simp add: transaction_def bind_functionID)
  from eachMessage_transaction [OF assms(1) this, of others] obtain t where
    "eachMessage dx others method tp part m s = (Inr (), t)" "userDatabase t = userDatabase w" "outside t = outside w" by blast
  then show ?thesis using w(2) s by (auto simp: same_effects_def app_of_def txn_log_def)
qed

lemma eachMessage_first:
  assumes "kafka_transaction dx method info" "txn_log s (kafka_uuid tp part (km_offset m), 0) = None" "\<not> is_readOnly (ti_config info)"
    and "transaction (exec_of dx) \<lparr>workflowUUID = kafka_uuid tp part (km_offset m), presetUUID = True\<rparr> (dx_fuel dx)
      (full_name (km_className method) (km_name method)) (kafka_args tp part m) (fresh_ctx s) = (Inr v, w)"
  shows "\<exists>t row b. eachMessage dx others method tp part m s = (Inr (), t) \<and> userDatabase t = userDatabase w \<and>
    ti_transaction info (kafka_args tp part m) (app_of s, False) = (Inr v, (app_of t, b)) \<and>
    txn_log t (kafka_uuid tp part (km_offset m), 0) = Some row \<and> to_error row = None \<and> stringify v = Inr (to_output row)"
proof -
  let ?ctx = "\<lparr>workflowUUID = kafka_uuid tp part (km_offset m), presetUUID = True\<rparr>"
  let ?s = "(fresh_ctx s)\<lparr>functionID := Suc 0\<rparr>"
  have s: "txn_log ?s = txn_log s" "app_of ?s = app_of s"
    using fresh_ctx_log [of s] by (simp_all add: txn_log_def app_of_def)
  have "transactionInfoMap (exec_of dx) (full_name (km_className method) (km_name method)) = Some info"
    using assms(1) by (simp add: kafka_transaction_def)
  then have "txn_attempts (exec_of dx) ?ctx info 0 (kafka_args tp part m) (dx_fuel dx) 1 ?s = (Inr v, w)"
    using assms(4) by (simp add: transaction_def bind_functionID)
  from txn_attempts_atomic [OF this assms(3)] s assms(2)
  have "ran_and_logged ?ctx info 0 (kafka_args tp part m) ?s v w" by auto
  then obtain row b where row: "ti_transaction info (kafka_args tp part m) (app_of s, False) = (Inr v, (app_of w, b))"
    "txn_log w (kafka_uuid tp part (km_offset m), 0) = Some row" "to_error row = None" "stringify v = Inr (to_output row)"
    using s by (auto simp: ran_and_logged_def)
  from eachMessage_transaction [OF assms(1,4), of others] obtain t where
    t: "eachMessage dx others method tp part m s = (Inr (), t)" "userDatabase t = userDatabase w" by blast
  with row show ?thesis by (auto simp: app_of_def txn_log_def)
qed

lemma decode_logged: "to_error row = None \<Longrightarrow> stringify v = Inr (to_output row) \<Longrightarrow> canon_val rt v = Inr v' \<Longrightarrow> decode_txn rt row = Inr v'"
  by (simp add: decode_txn_def canon_val_def)

section \<open>Two methods on one topic\<close>

text \<open>The identifier does not name the method: of two transaction methods that consume a topic, the second does not run.\<close>

lemma second_method_skipped:
  assumes "kafka_transaction dx method info" "\<not> is_readOnly (ti_config info)" "txn_log s (kafka_uuid tp part (km_offset m), 0) = None"
    and "transaction (exec_of dx) \<lparr>workflowUUID = kafka_uuid tp part (km_offset m), presetUUID = True\<rparr> (dx_fuel dx)
      (full_name (km_className method) (km_name method)) (kafka_args tp part m) (fresh_ctx s) = (Inr v, w)"
    and "canon_val (dx_runtime dx) v = Inr v'" "faults w = []" "0 < dx_fuel dx"
    and "kafka_transaction dx method2 info2"
  shows "\<exists>t t'. eachMessage dx others method tp part m s = (Inr (), t) \<and>
    eachMessage dx others' method2 tp part m t = (Inr (), t') \<and> app_of t' = app_of t \<and> txn_log t' = txn_log t \<and> outside t' = outside t"
proof -
  obtain t row b where t: "eachMessage dx others method tp part m s = (Inr (), t)" "userDatabase t = userDatabase w"
    and row: "txn_log t (kafka_uuid tp part (km_offset m), 0) = Some row" "to_error row = None" "stringify v = Inr (to_output row)"
    using eachMessage_first [OF assms(1,3,2,4), of others] by blast
  have f: "faults t = []" using t(2) assms(6) by (simp add: faults_def)
  from eachMessage_redelivered [OF assms(8) row(1) decode_logged [OF row(2,3) assms(5)], of others'] f assms(7) t(1)
  show ?thesis by auto
qed

section \<open>Initialized consumers\<close>

text \<open>With no attempts configured, the consumer runs without having subscribed.\<close>

lemma initialized_consumer:
  assumes "init_consumer client (method, ro, defaults) k = (Inr (), k')" "has_topics ro = Some ts"
  shows "\<exists>cfg c n. kafkaConfig defaults = Some cfg \<and> (km_txn method \<or> km_workflow method \<noteq> None) \<and>
    consumers k' = consumers k @ [c] \<and> cn_method c = method \<and> cn_topics c = topics_of ts \<and>
    (cn_subscribed c \<longleftrightarrow> retry_setting cfg kr_retries 5 \<noteq> 0) \<and> n \<le> retry_setting cfg kr_retries 5 - 1 \<and>
    kafka_slept k' = rev (map (\<lambda>j. retry_setting cfg kr_maxRetryTime 300 * retry_setting cfg kr_multiplier 2 ^ j) [0..<n]) @ kafka_slept k"
proof -
  from assms obtain cfg where cfg: "kafkaConfig defaults = Some cfg" "km_txn method \<or> km_workflow method \<noteq> None"
    by (auto simp: init_consumer_def Let_def raiseE_def split: if_splits option.splits)
  define g where "g = (case consumerConfig ro of Some g \<Rightarrow> g | None \<Rightarrow> safeGroupName (topics_of ts))"
  let ?n = "retry_setting cfg kr_retries 5" and ?loop = "subscribe_loop (kafka_subscribe client g) (retry_setting cfg kr_multiplier 2)
    (retry_setting cfg kr_retries 5) 0 (retry_setting cfg kr_maxRetryTime 300)"
  from assms cfg have "seqE (liftE (kafka_connect client g)) (bindE ?loop (\<lambda>subscribed. seqE (liftE (kafka_run client g))
      (modifyE (\<lambda>k. k\<lparr>consumers := consumers k @ [\<lparr>cn_groupId = g, cn_topics = topics_of ts, cn_subscribed = subscribed, cn_method = method\<rparr>]\<rparr>)))) k = (Inr (), k')"
    by (auto simp: init_consumer_def Let_def g_def)
  then obtain b k1 where loop: "?loop k = (Inr b, k1)"
    and k': "k' = k1\<lparr>consumers := consumers k1 @ [\<lparr>cn_groupId = g, cn_topics = topics_of ts, cn_subscribed = b, cn_method = method\<rparr>]\<rparr>"
    by (rule connect_subscribe_run)
  obtain n where n: "n \<le> ?n - 1" "b \<longleftrightarrow> ?n \<noteq> 0" "consumers k1 = consumers k"
    "kafka_slept k1 = rev (map (\<lambda>j. retry_setting cfg kr_maxRetryTime 300 * retry_setting cfg kr_multiplier 2 ^ j) [0..<n]) @ kafka_slept k"
    by (rule subscribe_loop_returns [OF loop])
  let ?c = "\<lparr>cn_groupId = g, cn_topics = topics_of ts, cn_subscribed = b, cn_method = method\<rparr>"
  show ?thesis using n cfg k' by (intro exI [of _ cfg] exI [of _ ?c] exI [of _ n]) simp
qed

end
