(* ===== verification/Config.thy ===== *)
theory Config
  imports Http
begin

text \<open>
  Configuration (\<open>src/src/dbos-runtime/config.ts\<close>, and \<open>getConfig\<close> of the contexts and the executor): the text
  of the configuration file with its placeholders, the connection to the database, the checks, and
  the two configurations made of file, environment and command line.

  A parsed file is a JavaScript value, read as the code reads it, property by property. What is not in the
  repository is the record \<open>platform\<close>: the environment, the file system, the YAML parser, the schema validator \<open>ajv\<close>,
  the text of a JSON value, and \<open>Number\<close> of a string.
\<close>

record ajvError =
  ae_message :: string
  ae_schemaPath :: string
  ae_keyword :: string
  ae_additionalProperty :: string
  ae_data :: jsval
  ae_instancePath :: string

record platform =
  env_var :: "string \<Rightarrow> string option" \<comment> \<open>\<open>process.env\<close>\<close>
  chdir :: "string \<Rightarrow> jserror + unit"
  readFile :: "string option \<Rightarrow> string \<Rightarrow> jserror + string" \<comment> \<open>from the directory changed to, if any\<close>
  yamlParse :: "string \<Rightarrow> jserror + jsval"
  ajvErrors :: "jsval \<Rightarrow> ajvError list"
  jsonText :: "jsval \<Rightarrow> string"
  numberOfString :: "string \<Rightarrow> rat option" \<comment> \<open>\<open>None\<close> is NaN\<close>

section \<open>Operators\<close>

definition js_or :: "jsval \<Rightarrow> jsval \<Rightarrow> jsval" where
  "js_or a b = (if js_truthy a then a else b)"

definition nullish :: "jsval \<Rightarrow> jsval \<Rightarrow> jsval" where
  "nullish a b = (if a = JUndefined \<or> a = JNull then b else a)"

text \<open>Assignment of a property in strict mode; the elements of an array are not touched by it.\<close>

definition setProp :: "jsval \<Rightarrow> string \<Rightarrow> jsval \<Rightarrow> jserror + jsval" where
  "setProp v k x = (case v of
      JObj kvs \<Rightarrow> Inr (JObj (jm_set k x kvs))
    | JUndefined \<Rightarrow> Inl (runtime_error ''TypeError'' (''Cannot set properties of undefined (setting '' @ CHR 39 # k @ CHR 39 # '')''))
    | JNull \<Rightarrow> Inl (runtime_error ''TypeError'' (''Cannot set properties of null (setting '' @ CHR 39 # k @ CHR 39 # '')''))
    | JBool _ \<Rightarrow> Inl (runtime_error ''TypeError'' (''Cannot create property '' @ CHR 39 # k @ CHR 39 # '' on boolean''))
    | JNum _ \<Rightarrow> Inl (runtime_error ''TypeError'' (''Cannot create property '' @ CHR 39 # k @ CHR 39 # '' on number''))
    | JStr _ \<Rightarrow> Inl (runtime_error ''TypeError'' (''Cannot create property '' @ CHR 39 # k @ CHR 39 # '' on string''))
    | JBigInt _ \<Rightarrow> Inl (runtime_error ''TypeError'' (''Cannot create property '' @ CHR 39 # k @ CHR 39 # '' on bigint''))
    | _ \<Rightarrow> Inr v)"

definition js_number :: "platform \<Rightarrow> jsval \<Rightarrow> rat option" where
  "js_number pf v = (case v of
      JNull \<Rightarrow> Some 0 | JBool b \<Rightarrow> Some (if b then 1 else 0) | JNum q \<Rightarrow> Some q | JStr s \<Rightarrow> numberOfString pf s | _ \<Rightarrow> None)"

definition number_or :: "rat option \<Rightarrow> rat \<Rightarrow> rat" where
  "number_or a b = (case a of None \<Rightarrow> b | Some q \<Rightarrow> if q = 0 then b else q)"

lemma getProp_setProp: "setProp v k x = Inr w \<Longrightarrow> getProp w j = (if j = k \<and> (\<exists>kvs. v = JObj kvs) then x else getProp v j)"
  by (auto simp: setProp_def jm_get_set split: jsval.splits)

section \<open>Placeholders\<close>

definition env_or_empty :: "platform \<Rightarrow> string \<Rightarrow> string" where
  "env_or_empty pf nm = (case or_undefined (env_var pf nm) of None \<Rightarrow> [CHR 34, CHR 34] | Some v \<Rightarrow> v)"

text \<open>The match of \<open>/\${([^}]+)}/\<close> at the start of a text: the name between the braces.\<close>

definition placeholder :: "string \<Rightarrow> string option" where
  "placeholder s = (let g = takeWhile (\<lambda>c. c \<noteq> CHR ''}'') (drop 2 s) in
     if starts_with ''${'' s \<and> g \<noteq> [] \<and> length g + 2 < length s then Some g else None)"

function substituteEnvVars :: "platform \<Rightarrow> string \<Rightarrow> string" where
  "substituteEnvVars pf [] = []"
| "substituteEnvVars pf (c # cs) = (case placeholder (c # cs) of
     Some g \<Rightarrow> env_or_empty pf g @ substituteEnvVars pf (drop (length g + 2) cs)
   | None \<Rightarrow> c # substituteEnvVars pf cs)"
  by pat_completeness auto
termination by (relation "measure (\<lambda>(_, s). length s)") auto

section \<open>Files\<close>

definition readFileSync :: "platform \<Rightarrow> string option \<Rightarrow> string \<Rightarrow> jserror + string" where
  "readFileSync pf dir path = readFile pf dir path"

definition catch_init :: "string \<Rightarrow> jserror + 'a \<Rightarrow> jserror + 'a" where
  "catch_init what r = (case r of Inl e \<Rightarrow> Inl (DBOSInitializationError (what @ '': '' @ err_message e)) | Inr v \<Rightarrow> Inr v)"

definition loadConfigFile :: "platform \<Rightarrow> string option \<Rightarrow> string \<Rightarrow> jserror + jsval" where
  "loadConfigFile pf dir configFilePath = catch_init (''Failed to load config from '' @ configFilePath)
     (bindR (readFileSync pf dir configFilePath) (\<lambda>configFileContent. yamlParse pf (substituteEnvVars pf configFileContent)))"

section \<open>The connection\<close>

datatype ssl = NoTLS | VerifyTLS string | UnverifiedTLS

record PoolConfig =
  pl_host :: jsval
  pl_port :: jsval
  pl_user :: jsval
  pl_password :: jsval
  pl_connectionTimeoutMillis :: jsval
  pl_database :: jsval
  pl_ssl :: ssl

definition dbosConfigFilePath :: string where
  "dbosConfigFilePath = ''dbos-config.yaml''"

definition choose_ssl :: "platform \<Rightarrow> string option \<Rightarrow> jsval \<Rightarrow> jserror + ssl" where
  "choose_ssl pf dir db =
     (let sslp = getProp db ''ssl''; host = getProp db ''hostname'' in
      if sslp = JBool False then Inr NoTLS
      else if js_truthy (getProp db ''ssl_ca'') then bindR (readFileSync pf dir (str_of (getProp db ''ssl_ca''))) (\<lambda>ca. Inr (VerifyTLS ca))
      else if sslp = JUndefined \<and> (host = JStr ''localhost'' \<or> host = JStr ''127.0.0.1'') then Inr NoTLS
      else Inr UnverifiedTLS)"

definition constructPoolConfig :: "platform \<Rightarrow> string option \<Rightarrow> jsval \<Rightarrow> jserror + PoolConfig" where
  "constructPoolConfig pf dir configFile =
     (let db = getProp configFile ''database'' in
      if \<not> js_truthy (getProp db ''app_db_name'')
      then Inl (DBOSInitializationError (''DBOS configuration ('' @ dbosConfigFilePath @ '') does not contain application database name''))
      else bindR (choose_ssl pf dir db) (\<lambda>tls.
        Inr \<lparr>pl_host = getProp db ''hostname'', pl_port = getProp db ''port'', pl_user = getProp db ''username'',
          pl_password = getProp db ''password'',
          pl_connectionTimeoutMillis = js_or (getProp db ''connectionTimeoutMillis'') (JNum 3000),
          pl_database = getProp db ''app_db_name'', pl_ssl = tls\<rparr>))"

definition name_char :: "char \<Rightarrow> bool" where
  "name_char c = (let n = of_char c :: nat in 97 \<le> n \<and> n \<le> 122 \<or> 48 \<le> n \<and> n \<le> 57 \<or> n = 95)"

definition isValidDBname :: "string \<Rightarrow> bool" where
  "isValidDBname dbName =
     (if length dbName < 1 \<or> length dbName > 63 then False
      else if is_digit (hd dbName) then False
      else dbName \<noteq> [] \<and> list_all name_char dbName)"

text \<open>The argument is a string, which the schema demands.\<close>

definition valid_name_value :: "jsval \<Rightarrow> jserror + bool" where
  "valid_name_value v = (case v of JStr s \<Rightarrow> Inr (isValidDBname s)
     | _ \<Rightarrow> Inl (runtime_error ''TypeError'' ''dbName.match is not a function''))"

section \<open>Parsing the configuration\<close>

definition ajv_line :: "platform \<Rightarrow> ajvError \<Rightarrow> string" where
  "ajv_line pf error = ''Error: '' @ ae_message error
     @ (if ae_schemaPath error \<noteq> [] then '' (schema path: '' @ ae_schemaPath error @ '')'' else [])
     @ (if ae_keyword error = ''additionalProperties''
        then ''; the additional property '' @ CHR 39 # ae_additionalProperty error @ CHR 39 # '' is not allowed'' else [])
     @ (if js_truthy (ae_data error) \<and> ae_keyword error = ''not''
        then ''; the value '' @ jsonText pf (ae_data error) @ '' is not allowed for field '' @ ae_instancePath error else [])"

fun comma_join :: "string list \<Rightarrow> string" where
  "comma_join [] = []"
| "comma_join [x] = x"
| "comma_join (x # y # ys) = x @ '', '' @ comma_join (y # ys)"

definition prettyPrintAjvErrors :: "platform \<Rightarrow> ajvError list \<Rightarrow> string" where
  "prettyPrintAjvErrors pf errors = comma_join (map (ajv_line pf) errors)"

datatype app_version = VUndefined | VString string | VBool bool

record ParseOptions =
  po_port :: jsval
  po_loglevel :: "string option"
  po_configfile :: "string option"
  po_appDir :: "string option"
  po_appVersion :: app_version

definition no_options :: ParseOptions where
  "no_options = \<lparr>po_port = JUndefined, po_loglevel = None, po_configfile = None, po_appDir = None, po_appVersion = VUndefined\<rparr>"

definition config_path :: "ParseOptions \<Rightarrow> string" where
  "config_path opts = (case po_configfile opts of None \<Rightarrow> dbosConfigFilePath | Some p \<Rightarrow> p)"

definition getAppVersion :: "platform \<Rightarrow> app_version \<Rightarrow> string option" where
  "getAppVersion pf appVersion = (case appVersion of
      VString s \<Rightarrow> Some s
    | VBool b \<Rightarrow> if \<not> b then None else env_var pf ''DBOS__APPVERSION''
    | VUndefined \<Rightarrow> env_var pf ''DBOS__APPVERSION'')"

definition set_password :: "jsval \<Rightarrow> string \<Rightarrow> jserror + jsval" where
  "set_password configFile pw =
     bindR (setProp (getProp configFile ''database'') ''password'' (JStr pw)) (\<lambda>db. setProp configFile ''database'' db)"

definition ensure_password :: "platform \<Rightarrow> bool \<Rightarrow> string \<Rightarrow> jsval \<Rightarrow> jserror + jsval" where
  "ensure_password pf useProxy path configFile =
     (if js_truthy (getProp (getProp configFile ''database'') ''password'') then Inr configFile
      else if useProxy then set_password configFile ''PROXY-MODE''
      else (case or_undefined (env_var pf ''PGPASSWORD'') of
          Some pgPassword \<Rightarrow> set_password configFile pgPassword
        | None \<Rightarrow> Inl (DBOSInitializationError (''DBOS configuration ('' @ path @ '') does not contain database password''))))"

definition set_loglevel :: "string \<Rightarrow> jsval \<Rightarrow> jserror + jsval" where
  "set_loglevel level configFile =
     (let telemetry = getProp configFile ''telemetry''; logs = getProp telemetry ''logs'' in
      if \<not> js_truthy telemetry then setProp configFile ''telemetry'' (JObj [(''logs'', JObj [(''logLevel'', JStr level)])])
      else if \<not> js_truthy logs then
        bindR (setProp telemetry ''logs'' (JObj [(''logLevel'', JStr level)])) (\<lambda>t. setProp configFile ''telemetry'' t)
      else bindR (setProp logs ''logLevel'' (JStr level)) (\<lambda>l.
        bindR (setProp telemetry ''logs'' l) (\<lambda>t. setProp configFile ''telemetry'' t)))"

record DBOSConfig =
  dc_poolConfig :: PoolConfig
  dc_userDbclient :: jsval
  dc_telemetry :: jsval
  dc_system_database :: jsval
  dc_application :: jsval
  dc_env :: jsval
  dc_http :: jsval
  dc_appVersion :: "string option"

record DBOSRuntimeConfig =
  rc_entrypoints :: "string list"
  rc_port :: rat
  rc_admin_port :: rat

definition defaultEntryPoint :: string where
  "defaultEntryPoint = ''dist/operations.js''"

text \<open>\<open>[...new Set(xs)]\<close>: the first occurrences.\<close>

definition set_list :: "'a list \<Rightarrow> 'a list" where
  "set_list xs = rev (remdups (rev xs))"

definition check_config :: "platform \<Rightarrow> string \<Rightarrow> jsval \<Rightarrow> jserror + unit" where
  "check_config pf path configFile =
     (if ajvErrors pf configFile \<noteq> []
      then Inl (DBOSInitializationError (path @ '' failed schema validation. '' @ prettyPrintAjvErrors pf (ajvErrors pf configFile)))
      else if js_truthy (getProp configFile ''language'') \<and> getProp configFile ''language'' \<noteq> JStr ''node''
      then Inl (DBOSInitializationError (path @ '' specifies invalid language '' @ str_of (getProp configFile ''language'')))
      else bindR (valid_name_value (getProp (getProp configFile ''database'') ''app_db_name'')) (\<lambda>ok.
        if \<not> ok then Inl (DBOSInitializationError (path @ '' specifies invalid app_db_name '' @
            str_of (getProp (getProp configFile ''database'') ''app_db_name'') @
            ''. Must be between 3 and 31 characters long and contain only lowercase letters, underscores, and digits (cannot begin with a digit).''))
        else Inr ()))"

definition dbos_config :: "platform \<Rightarrow> ParseOptions \<Rightarrow> PoolConfig \<Rightarrow> jsval \<Rightarrow> DBOSConfig" where
  "dbos_config pf opts poolConfig configFile =
     (let db = getProp configFile ''database'' in \<lparr>
       dc_poolConfig = poolConfig,
       dc_userDbclient = js_or (getProp db ''app_db_client'') (JStr ''knex''),
       dc_telemetry = js_or (getProp configFile ''telemetry'') JUndefined,
       dc_system_database = nullish (getProp db ''sys_db_name'') (JStr (str_of (pl_database poolConfig) @ ''_dbos_sys'')),
       dc_application = js_or (getProp configFile ''application'') JUndefined,
       dc_env = js_or (getProp configFile ''env'') (JObj []),
       dc_http = getProp configFile ''http'',
       dc_appVersion = getAppVersion pf (po_appVersion opts)\<rparr>)"

definition runtime_config :: "platform \<Rightarrow> ParseOptions \<Rightarrow> jsval \<Rightarrow> DBOSRuntimeConfig" where
  "runtime_config pf opts configFile =
     (let rt = getProp configFile ''runtimeConfig'';
          appPort = number_or (js_number pf (po_port opts)) (number_or (js_number pf (getProp rt ''port'')) 3000) in
      \<lparr>rc_entrypoints = (if js_truthy (getProp rt ''entrypoints'') then set_list (map str_of (arr_of (getProp rt ''entrypoints'')))
         else [defaultEntryPoint]),
       rc_port = appPort,
       rc_admin_port = number_or (js_number pf (getProp rt ''admin_port'')) (appPort + 1)\<rparr>)"

definition parseConfigFile :: "platform \<Rightarrow> ParseOptions \<Rightarrow> bool \<Rightarrow> jserror + DBOSConfig \<times> DBOSRuntimeConfig" where
  "parseConfigFile pf opts useProxy =
     (let dir = or_undefined (po_appDir opts);
          path = config_path opts in
      bindR (case dir of None \<Rightarrow> Inr () | Some d \<Rightarrow> chdir pf d) (\<lambda>_.
      bindR (loadConfigFile pf dir path) (\<lambda>c0.
      if \<not> js_truthy c0 then Inl (DBOSInitializationError (''DBOS configuration file '' @ path @ '' is empty''))
      else if \<not> js_truthy (getProp c0 ''database'')
      then Inl (DBOSInitializationError (''DBOS configuration ('' @ path @ '') does not contain database config''))
      else
        bindR (ensure_password pf useProxy path c0) (\<lambda>c1.
        bindR (check_config pf path c1) (\<lambda>_.
        bindR (constructPoolConfig pf dir c1) (\<lambda>poolConfig.
        bindR (case or_undefined (po_loglevel opts) of None \<Rightarrow> Inr c1 | Some l \<Rightarrow> set_loglevel l c1) (\<lambda>c2.
        Inr (dbos_config pf opts poolConfig c2, runtime_config pf opts c2))))))))"

section \<open>Keys of the application\<close>

fun typeof :: "jsval \<Rightarrow> string" where
  "typeof JUndefined = ''undefined''"
| "typeof (JBool _) = ''boolean''"
| "typeof (JNum _) = ''number''"
| "typeof (JStr _) = ''string''"
| "typeof (JBigInt _) = ''bigint''"
| "typeof _ = ''object''"

text \<open>\<open>get\<close> is lodash's look-up of a path, with a default.\<close>

definition getConfig :: "(jsval \<Rightarrow> string \<Rightarrow> jsval \<Rightarrow> jsval) \<Rightarrow> jsval \<Rightarrow> string \<Rightarrow> jsval \<Rightarrow> jserror + jsval" where
  "getConfig get application key defaultValue =
     (let v = get application key defaultValue in
      if js_truthy v \<and> js_truthy defaultValue \<and> typeof v \<noteq> typeof defaultValue
      then Inl (DBOSConfigKeyTypeError key (typeof defaultValue) (typeof v)) else Inr v)"

section \<open>Placeholders, piece by piece\<close>

text \<open>A text made of pieces, the placeholders among them, and the text it stands for.\<close>

datatype piece = Lit string | Var string

fun show_piece :: "piece \<Rightarrow> string" where
  "show_piece (Lit s) = s"
| "show_piece (Var v) = ''${'' @ v @ ''}''"

fun ok_piece :: "piece \<Rightarrow> bool" where
  "ok_piece (Lit s) = (CHR ''$'' \<notin> set s)"
| "ok_piece (Var v) = (v \<noteq> [] \<and> CHR ''}'' \<notin> set v)"

fun piece_value :: "platform \<Rightarrow> piece \<Rightarrow> string" where
  "piece_value pf (Lit s) = s"
| "piece_value pf (Var v) = env_or_empty pf v"

lemma substitute_literal: "CHR ''$'' \<notin> set s \<Longrightarrow> substituteEnvVars pf (s @ t) = s @ substituteEnvVars pf t"
  by (induction s) (auto simp: placeholder_def Let_def)

lemma placeholder_here: "v \<noteq> [] \<Longrightarrow> CHR ''}'' \<notin> set v \<Longrightarrow> placeholder (''${'' @ v @ ''}'' @ t) = Some v"
proof -
  assume v: "v \<noteq> []" "CHR ''}'' \<notin> set v"
  have "takeWhile (\<lambda>c. c \<noteq> CHR ''}'') (v @ CHR ''}'' # t) = v"
    using v(2) by (subst takeWhile_append2) auto
  then show ?thesis using v(1) by (simp add: placeholder_def)
qed

lemma substitute_placeholder:
  "v \<noteq> [] \<Longrightarrow> CHR ''}'' \<notin> set v \<Longrightarrow> substituteEnvVars pf (''${'' @ v @ ''}'' @ t) = env_or_empty pf v @ substituteEnvVars pf t"
  using placeholder_here [of v t] by simp

lemma substitute_pieces:
  "list_all ok_piece ps \<Longrightarrow> substituteEnvVars pf (concat (map show_piece ps)) = concat (map (piece_value pf) ps)"
proof (induction ps)
  case (Cons p ps)
  then show ?case
    using substitute_placeholder [of _ pf "concat (map show_piece ps)"] by (cases p) (simp_all add: substitute_literal)
qed simp

section \<open>What a parsed configuration guarantees\<close>

lemma set_password_database:
  assumes "set_password c pw = Inr c'"
  shows "getProp (getProp c' ''database'') j = (if j = ''password'' \<and> (\<exists>kvs. getProp c ''database'' = JObj kvs) then JStr pw
    else getProp (getProp c ''database'') j)"
proof -
  from assms obtain db where db: "setProp (getProp c ''database'') ''password'' (JStr pw) = Inr db" "setProp c ''database'' db = Inr c'"
    by (auto simp: set_password_def bindR_def split: sum.splits)
  show ?thesis
  proof (cases "\<exists>kvs. c = JObj kvs")
    case True
    with db(2) have "getProp c' ''database'' = db" by (simp add: getProp_setProp)
    with getProp_setProp [OF db(1)] show ?thesis by simp
  next
    case False
    then have "getProp c ''database'' = JUndefined" by (cases c) auto
    with db(1) show ?thesis by (simp add: setProp_def)
  qed
qed

lemma ensure_password_database:
  assumes "ensure_password pf useProxy path c = Inr c'"
  shows "j \<noteq> ''password'' \<Longrightarrow> getProp (getProp c' ''database'') j = getProp (getProp c ''database'') j"
    and "getProp c ''database'' = JObj kvs \<Longrightarrow> js_truthy (getProp (getProp c' ''database'') ''password'')"
proof -
  have cases: "c' = c \<and> js_truthy (getProp (getProp c ''database'') ''password'') \<or> (\<exists>pw. set_password c pw = Inr c' \<and> pw \<noteq> [])"
    (is "?given \<or> ?given_now")
  proof (cases "js_truthy (getProp (getProp c ''database'') ''password'')")
    case True
    with assms show ?thesis by (simp add: ensure_password_def)
  next
    case False
    show ?thesis
    proof (cases useProxy)
      case True
      with assms False show ?thesis by (intro disjI2 exI [of _ "''PROXY-MODE''"]) (simp add: ensure_password_def)
    next
      case direct: False
      with assms False obtain pw where "or_undefined (env_var pf ''PGPASSWORD'') = Some pw" "set_password c pw = Inr c'"
        by (cases "or_undefined (env_var pf ''PGPASSWORD'')") (simp_all add: ensure_password_def)
      then show ?thesis by (intro disjI2 exI [of _ pw]) (auto simp: or_undefined_def split: option.splits if_splits)
    qed
  qed
  show "getProp (getProp c' ''database'') j = getProp (getProp c ''database'') j" if "j \<noteq> ''password''"
    using cases that by (elim disjE conjE exE) (simp_all add: set_password_database)
  show "js_truthy (getProp (getProp c' ''database'') ''password'')" if "getProp c ''database'' = JObj kvs"
    using cases that by (elim disjE conjE exE) (simp_all add: set_password_database)
qed

lemma bindR_InrE:
  assumes "bindR r f = Inr y"
  obtains x where "r = Inr x" "f x = Inr y"
  using assms by (cases r) auto

text \<open>The steps of a run that returns.\<close>

lemma parseConfigFile_steps:
  assumes "parseConfigFile pf opts useProxy = Inr (cfg, rc)"
  obtains c0 c1 c2 where "loadConfigFile pf (or_undefined (po_appDir opts)) (config_path opts) = Inr c0"
    "ensure_password pf useProxy (config_path opts) c0 = Inr c1" "check_config pf (config_path opts) c1 = Inr ()"
    "constructPoolConfig pf (or_undefined (po_appDir opts)) c1 = Inr (dc_poolConfig cfg)"
    "(case or_undefined (po_loglevel opts) of None \<Rightarrow> Inr c1 | Some l \<Rightarrow> set_loglevel l c1) = Inr c2"
    "cfg = dbos_config pf opts (dc_poolConfig cfg) c2" "rc = runtime_config pf opts c2"
proof -
  define dir where "dir = or_undefined (po_appDir opts)"
  define path where "path = config_path opts"
  note run = assms [unfolded parseConfigFile_def Let_def, folded dir_def path_def]
  from run obtain u where "bindR (loadConfigFile pf dir path) (\<lambda>c0.
      if \<not> js_truthy c0 then Inl (DBOSInitializationError (''DBOS configuration file '' @ path @ '' is empty''))
      else if \<not> js_truthy (getProp c0 ''database'')
      then Inl (DBOSInitializationError (''DBOS configuration ('' @ path @ '') does not contain database config''))
      else bindR (ensure_password pf useProxy path c0) (\<lambda>c1. bindR (check_config pf path c1) (\<lambda>_.
        bindR (constructPoolConfig pf dir c1) (\<lambda>poolConfig.
        bindR (case or_undefined (po_loglevel opts) of None \<Rightarrow> Inr c1 | Some l \<Rightarrow> set_loglevel l c1) (\<lambda>c2.
        Inr (dbos_config pf opts poolConfig c2, runtime_config pf opts c2)))))) = Inr (cfg, rc)" by (rule bindR_InrE)
  then obtain c0 where c0: "loadConfigFile pf dir path = Inr c0"
    and "bindR (ensure_password pf useProxy path c0) (\<lambda>c1. bindR (check_config pf path c1) (\<lambda>_.
        bindR (constructPoolConfig pf dir c1) (\<lambda>poolConfig.
        bindR (case or_undefined (po_loglevel opts) of None \<Rightarrow> Inr c1 | Some l \<Rightarrow> set_loglevel l c1) (\<lambda>c2.
        Inr (dbos_config pf opts poolConfig c2, runtime_config pf opts c2))))) = Inr (cfg, rc)"
    by (auto elim!: bindR_InrE split: if_splits)
  then obtain c1 pl c2 where c1: "ensure_password pf useProxy path c0 = Inr c1" "check_config pf path c1 = Inr ()"
    and c2: "constructPoolConfig pf dir c1 = Inr pl"
      "(case or_undefined (po_loglevel opts) of None \<Rightarrow> Inr c1 | Some l \<Rightarrow> set_loglevel l c1) = Inr c2"
      "cfg = dbos_config pf opts pl c2" "rc = runtime_config pf opts c2"
    by (auto elim!: bindR_InrE)
  have "dc_poolConfig cfg = pl" by (simp add: c2(3) dbos_config_def Let_def)
  then show ?thesis using c0 c1 c2
    by (intro that [of c0 c1 c2, folded dir_def]) (simp_all add: path_def)
qed

lemma constructPoolConfig_fields:
  assumes "constructPoolConfig pf dir c = Inr pl"
  shows "pl_database pl = getProp (getProp c ''database'') ''app_db_name''" "pl_password pl = getProp (getProp c ''database'') ''password''"
    "pl_host pl = getProp (getProp c ''database'') ''hostname''" "choose_ssl pf dir (getProp c ''database'') = Inr (pl_ssl pl)"
  using assms by (auto simp: constructPoolConfig_def Let_def bindR_def split: if_splits sum.splits)

lemma choose_ssl_cases:
  assumes "choose_ssl pf dir db = Inr tls"
  shows "tls = NoTLS \<longleftrightarrow> getProp db ''ssl'' = JBool False \<or>
      \<not> js_truthy (getProp db ''ssl_ca'') \<and> getProp db ''ssl'' = JUndefined \<and> getProp db ''hostname'' \<in> {JStr ''localhost'', JStr ''127.0.0.1''}"
    and "getProp db ''ssl'' \<noteq> JBool False \<Longrightarrow> js_truthy (getProp db ''ssl_ca'') \<Longrightarrow>
      \<exists>ca. tls = VerifyTLS ca \<and> readFileSync pf dir (str_of (getProp db ''ssl_ca'')) = Inr ca"
  using assms by (auto simp: choose_ssl_def Let_def bindR_def split: if_splits sum.splits)

lemma check_config_name:
  assumes "check_config pf path c = Inr ()"
  shows "\<exists>nm. getProp (getProp c ''database'') ''app_db_name'' = JStr nm \<and> isValidDBname nm"
  using assms by (auto simp: check_config_def bindR_def valid_name_value_def split: if_splits sum.splits jsval.splits)

lemma set_loglevel_database:
  assumes "set_loglevel l c = Inr c'" "j \<noteq> ''telemetry''"
  shows "getProp c' j = getProp c j"
proof -
  from assms(1) obtain t where "setProp c ''telemetry'' t = Inr c'"
    by (auto simp: set_loglevel_def Let_def bindR_def split: if_splits sum.splits)
  from getProp_setProp [OF this] assms(2) show ?thesis by simp
qed

section \<open>The name of the system database\<close>

text \<open>A name of 63 characters is accepted, and the system database's, which Postgres cuts to 63 characters, is then the same.\<close>

lemma system_name_collides:
  assumes "parseConfigFile pf opts useProxy = Inr (cfg, rc)"
    and "loadConfigFile pf (or_undefined (po_appDir opts)) (config_path opts) = Inr c" "getProp (getProp c ''database'') ''sys_db_name'' = JUndefined"
  shows "\<exists>nm. pl_database (dc_poolConfig cfg) = JStr nm \<and> dc_system_database cfg = JStr (nm @ ''_dbos_sys'') \<and>
    (take 63 (nm @ ''_dbos_sys'') = nm \<longleftrightarrow> length nm = 63)"
proof -
  obtain c0 c1 c2 where s: "loadConfigFile pf (or_undefined (po_appDir opts)) (config_path opts) = Inr c0"
    "ensure_password pf useProxy (config_path opts) c0 = Inr c1" "check_config pf (config_path opts) c1 = Inr ()"
    "constructPoolConfig pf (or_undefined (po_appDir opts)) c1 = Inr (dc_poolConfig cfg)"
    "(case or_undefined (po_loglevel opts) of None \<Rightarrow> Inr c1 | Some l \<Rightarrow> set_loglevel l c1) = Inr c2"
    "cfg = dbos_config pf opts (dc_poolConfig cfg) c2"
    by (rule parseConfigFile_steps [OF assms(1)])
  obtain nm where nm: "getProp (getProp c1 ''database'') ''app_db_name'' = JStr nm" "isValidDBname nm"
    using check_config_name [OF s(3)] by blast
  then have db: "pl_database (dc_poolConfig cfg) = JStr nm" by (simp add: constructPoolConfig_fields(1) [OF s(4)])
  have "getProp c2 ''database'' = getProp c1 ''database''"
    using s(5) set_loglevel_database by (cases "or_undefined (po_loglevel opts)") auto
  then have "getProp (getProp c2 ''database'') ''sys_db_name'' = JUndefined"
    using ensure_password_database(1) [OF s(2)] assms(2,3) s(1) by simp
  moreover have "dc_system_database cfg = nullish (getProp (getProp c2 ''database'') ''sys_db_name'') (JStr (str_of (pl_database (dc_poolConfig cfg)) @ ''_dbos_sys''))"
    by (subst s(6)) (simp add: dbos_config_def Let_def)
  ultimately have "dc_system_database cfg = JStr (nm @ ''_dbos_sys'')" by (simp add: nullish_def db str_of_def)
  moreover have "length nm \<le> 63" using nm(2) by (auto simp: isValidDBname_def split: if_splits)
  then have "take 63 (nm @ ''_dbos_sys'') = nm \<longleftrightarrow> length nm = 63"
    by (cases "length nm = 63") (auto dest: arg_cong [where f = length])
  ultimately show ?thesis using db by blast
qed

end
