(* ===== verification/Aws.thy ===== *)
theory Aws
  imports Config
begin

text \<open>
  The configuration of AWS that the packages for SQS and S3 share (\<open>src/packages/aws-config/index.ts\<close>): a section of the
  application's configuration, found by name, is checked and turned into the settings of a client.

  \<open>getConfig\<close> of the executor is a parameter; names of sections come from the configuration themselves, so they are JavaScript
  values. (In messages, a name that is not a string is left out.)
\<close>

record AWSServiceConfig =
  aws_name :: jsval
  aws_region :: string
  aws_endpoint :: jsval
  aws_accessKeyId :: string
  aws_secretAccessKey :: string

type_synonym ConfigProvider = "jsval \<Rightarrow> jsval \<Rightarrow> jserror + jsval"

text \<open>A field that must be there and be a string.\<close>

definition required_string :: "jsval \<Rightarrow> jsval \<Rightarrow> string \<Rightarrow> jserror + string" where
  "required_string cfgname cfgstrs f =
     (let v = getProp cfgstrs f in
      if \<not> js_truthy v then Inl (DBOSError (f @ '' not specified in configuration '' @ str_of cfgname) 1)
      else (case v of JStr x \<Rightarrow> Inr x | _ \<Rightarrow> Inl (DBOSConfigKeyTypeError (str_of cfgname @ ''.'' @ f) ''string'' (typeof v))))"

definition loadAWSConfigByName :: "ConfigProvider \<Rightarrow> jsval \<Rightarrow> jserror + AWSServiceConfig" where
  "loadAWSConfigByName getCfg cfgname =
     bindR (getCfg cfgname JUndefined) (\<lambda>cfgstrs.
     if \<not> js_truthy cfgstrs then Inl (DBOSConfigKeyTypeError (str_of cfgname) ''AWSCfgFileItem'' ''null'')
     else
       bindR (required_string cfgname cfgstrs ''aws_region'') (\<lambda>region.
       bindR (required_string cfgname cfgstrs ''aws_access_key_id'') (\<lambda>key.
       bindR (required_string cfgname cfgstrs ''aws_secret_access_key'') (\<lambda>secret.
       let endpoint = getProp cfgstrs ''aws_endpoint'' in
       if js_truthy endpoint \<and> typeof (getProp cfgstrs ''aws_region'') \<noteq> ''string''
       then Inl (DBOSConfigKeyTypeError (str_of cfgname @ ''.aws_endpoint'') ''string'' (typeof endpoint))
       else Inr \<lparr>aws_name = cfgname, aws_region = region, aws_endpoint = (if js_truthy endpoint then endpoint else JUndefined),
         aws_accessKeyId = key, aws_secretAccessKey = secret\<rparr>))))"

definition getAWSConfigForService :: "ConfigProvider \<Rightarrow> string \<Rightarrow> jserror + AWSServiceConfig" where
  "getAWSConfigForService getCfg svccfgname =
     (if svccfgname = [] then loadAWSConfigByName getCfg (JStr ''aws_config'')
      else bindR (getCfg (JStr svccfgname) (JStr [])) (\<lambda>nm.
        loadAWSConfigByName getCfg (if js_truthy nm then nm else JStr ''aws_config'')))"

text \<open>What is accepted has a region and credentials.\<close>

lemma required_string_InrD: "required_string c v f = Inr x \<Longrightarrow> getProp v f = JStr x \<and> x \<noteq> []"
  by (cases "getProp v f") (auto simp: required_string_def Let_def split: if_splits)

lemma loadAWSConfigByName_InrD:
  assumes "loadAWSConfigByName getCfg nm = Inr c"
  shows "aws_name c = nm \<and> aws_region c \<noteq> [] \<and> aws_accessKeyId c \<noteq> [] \<and> aws_secretAccessKey c \<noteq> []"
  using assms required_string_InrD
  by (auto simp: loadAWSConfigByName_def Let_def bindR_def split: sum.splits if_splits)

lemma getAWSConfigForService_InrD:
  assumes "getAWSConfigForService getCfg svc = Inr c"
  shows "aws_region c \<noteq> [] \<and> aws_accessKeyId c \<noteq> [] \<and> aws_secretAccessKey c \<noteq> []"
  using assms loadAWSConfigByName_InrD
  by (fastforce simp: getAWSConfigForService_def bindR_def split: sum.splits if_splits)

text \<open>
  The check of the endpoint looks at the type of the region, which is a string at this point: an endpoint of any type passes.
\<close>

lemma endpoint_not_checked:
  assumes "getCfg nm JUndefined = Inr (JObj [(''aws_region'', JStr r), (''aws_access_key_id'', JStr k), (''aws_secret_access_key'', JStr p),
      (''aws_endpoint'', v)])" "r \<noteq> []" "k \<noteq> []" "p \<noteq> []" "js_truthy v"
  shows "loadAWSConfigByName getCfg nm =
    Inr \<lparr>aws_name = nm, aws_region = r, aws_endpoint = v, aws_accessKeyId = k, aws_secretAccessKey = p\<rparr>"
  using assms by (simp add: loadAWSConfigByName_def required_string_def)

end
