(* ===== verification/Sqs.thy ===== *)
theory Sqs
  imports Kafka Aws
begin

text \<open>
  The receiver for Amazon's Simple Queue Service (\<open>src/packages/dbos-sqs/index.ts\<close>, class \<open>SQSReceiver\<close>): one loop per
  decorated workflow, which takes a message, starts the workflow under an identifier computed from the message, and then deletes the
  message.

  The service is the record \<open>sqs_client\<close> over a state of its own: what a request for a message answers, and what a
  deletion does. The class \<open>SQSCommunicator\<close>, which sends messages, is modelled, too.

  The theory shows that no message is lost (\<open>sqs_loop_keeps\<close>): a message is in the queue until its workflow is
  in the database with its inputs, from where recovery can start it.
\<close>

section \<open>Configuration\<close>

record sqs_message =
  MessageId :: string
  ReceiptHandle :: string
  sm_message :: jsval \<comment> \<open>the whole message object\<close>

record SQSConfig =
  awscfgname :: "string option"
  awscfg :: "AWSServiceConfig option"
  queueUrl :: "string option"
  queueURL :: "string option"
  getWFKey :: "(sqs_message \<Rightarrow> string option) option"

text \<open>Class and method have a configuration or none (\<open>config?\<close>).\<close>

type_synonym sqs_defaults = "SQSConfig option"

definition SQSConfigure :: "SQSConfig \<Rightarrow> sqs_defaults \<Rightarrow> sqs_defaults" where
  "SQSConfigure config erInfo = Some config"

definition SQSMessageConsumer :: "SQSConfig option \<Rightarrow> sqs_defaults \<Rightarrow> sqs_defaults" where
  "SQSMessageConsumer config mrInfo = config"

definition sqs_field :: "sqs_defaults \<Rightarrow> (SQSConfig \<Rightarrow> 'a option) \<Rightarrow> 'a option" where
  "sqs_field cfg f = Option.bind cfg f"

definition or_else :: "'a option \<Rightarrow> 'a option \<Rightarrow> 'a option" where
  "or_else a b = (case a of None \<Rightarrow> b | Some x \<Rightarrow> Some x)"

definition receiver_url :: "sqs_defaults \<Rightarrow> sqs_defaults \<Rightarrow> string option" where
  "receiver_url cro mro = or_undefined (or_else (sqs_field cro queueUrl) (or_else (sqs_field cro queueURL)
     (or_else (sqs_field mro queueUrl) (sqs_field mro queueURL))))"

record aws_lib =
  aws_getConfig :: ConfigProvider
  validateConnection :: "AWSServiceConfig \<Rightarrow> string \<Rightarrow> jserror + unit"

definition AWS_SQS_CONFIGURATION :: string where
  "AWS_SQS_CONFIGURATION = ''aws_sqs_configuration''"

text \<open>A step of the search for the configuration of AWS: what is there stays.\<close>

definition try_cfg :: "AWSServiceConfig option \<Rightarrow> jserror + AWSServiceConfig option \<Rightarrow> jserror + AWSServiceConfig option" where
  "try_cfg found next = (case found of Some c \<Rightarrow> Inr (Some c) | None \<Rightarrow> next)"

definition load_named :: "aws_lib \<Rightarrow> string option \<Rightarrow> jserror + AWSServiceConfig option" where
  "load_named aws nm = (case or_undefined nm of None \<Rightarrow> Inr None
     | Some n \<Rightarrow> bindR (loadAWSConfigByName (aws_getConfig aws) (JStr n)) (\<lambda>c. Inr (Some c)))"

definition find_awscfg :: "aws_lib \<Rightarrow> sqs_defaults \<Rightarrow> sqs_defaults \<Rightarrow> jserror + AWSServiceConfig option" where
  "find_awscfg aws cro mro =
     bindR (try_cfg (sqs_field mro awscfg) (load_named aws (sqs_field mro awscfgname))) (\<lambda>c1.
     bindR (try_cfg c1 (Inr (sqs_field cro awscfg))) (\<lambda>c2.
     bindR (try_cfg c2 (load_named aws (sqs_field cro awscfgname))) (\<lambda>c3.
     try_cfg c3 (bindR (getAWSConfigForService (aws_getConfig aws) AWS_SQS_CONFIGURATION) (\<lambda>c. Inr (Some c))))))"

text \<open>The search ends with a configuration or an error; the check for none that follows it in the code is never the one to fail.\<close>

lemma find_awscfg_found: "find_awscfg aws cro mro \<noteq> Inr None"
  by (auto simp: find_awscfg_def try_cfg_def bindR_def split: option.splits sum.splits)

section \<open>Sending\<close>

text \<open>
  A configured instance that sends messages; its client is made when it is initialized. \<open>send\<close> is the request to the
  service, with the configuration of the client, the message and the queue. A call before \<open>initialize\<close> fails like any use of
  \<open>undefined\<close>.
\<close>

record SQSCommunicator =
  sc_name :: string
  sc_config :: SQSConfig
  sc_client :: "AWSServiceConfig option"

definition SQSCommunicator_initialize :: "aws_lib \<Rightarrow> SQSCommunicator \<Rightarrow> jserror + SQSCommunicator" where
  "SQSCommunicator_initialize aws this =
     bindR (case awscfg (sc_config this) of Some c \<Rightarrow> Inr c
       | None \<Rightarrow> (case or_undefined (awscfgname (sc_config this)) of
           Some n \<Rightarrow> loadAWSConfigByName (aws_getConfig aws) (JStr n)
         | None \<Rightarrow> getAWSConfigForService (aws_getConfig aws) AWS_SQS_CONFIGURATION)) (\<lambda>c.
     Inr (this\<lparr>sc_config := (sc_config this)\<lparr>awscfg := Some c\<rparr>, sc_client := Some c\<rparr>))"

definition message_url :: "SQSConfig \<Rightarrow> jsval \<Rightarrow> jsval" where
  "message_url cfg msg =
     (if js_truthy (getProp msg ''QueueUrl'') then getProp msg ''QueueUrl''
      else (case or_undefined (queueUrl cfg) of Some u \<Rightarrow> JStr u
        | None \<Rightarrow> (case queueURL cfg of Some u \<Rightarrow> JStr u | None \<Rightarrow> JUndefined)))"

definition sendMessage ::
    "(AWSServiceConfig \<Rightarrow> jsval \<Rightarrow> jsval \<Rightarrow> ('x, jsval) meth) \<Rightarrow> SQSCommunicator \<Rightarrow> jsval \<Rightarrow> ('x, jsval) meth" where
  "sendMessage request this msg = (case sc_client this of
     None \<Rightarrow> raiseE (runtime_error ''TypeError'' (''Cannot read properties of undefined (reading '' @ CHR 39 # ''send'' @ CHR 39 # '')''))
   | Some client \<Rightarrow> request client msg (message_url (sc_config this) msg))"

section \<open>Receivers\<close>

record ('u, 'x) sqs_method =
  sq_className :: string
  sq_name :: string
  sq_workflow :: "('u, 'x) Workflow option"

record ('u, 'x) sqs_listener =
  sl_url :: string
  sl_workflow :: "('u, 'x) Workflow"
  sl_classConfig :: sqs_defaults
  sl_methodConfig :: sqs_defaults

definition init_listener :: "aws_lib \<Rightarrow> ('u, 'x) sqs_method \<times> sqs_defaults \<times> sqs_defaults \<Rightarrow> jserror + ('u, 'x) sqs_listener list" where
  "init_listener aws op = (case op of (method, mro, cro) \<Rightarrow> (case receiver_url cro mro of
       None \<Rightarrow> Inr []
     | Some url \<Rightarrow>
         let nm = sq_className method @ ''.'' @ sq_name method in
         (case sq_workflow method of
            None \<Rightarrow> Inl (DBOSError (''Error registering method '' @ nm @ '': An SQS decorator can only be assigned to a workflow!'') 1)
          | Some wfl \<Rightarrow>
              bindR (find_awscfg aws cro mro) (\<lambda>cfg. case cfg of
                None \<Rightarrow> Inl (DBOSError (''AWS Configuration not specified for SQS Receiver: '' @ nm) 1)
              | Some c \<Rightarrow> (case validateConnection aws c url of
                  Inl e \<Rightarrow> Inl (DBOSError (''SQS Receiver for '' @ nm @ '' was unable to connect to '' @ url @ '': '' @ err_message e) 1)
                | Inr _ \<Rightarrow> Inr [\<lparr>sl_url = url, sl_workflow = wfl, sl_classConfig = cro, sl_methodConfig = mro\<rparr>])))))"

definition sqs_initialize ::
    "aws_lib \<Rightarrow> (('u, 'x) sqs_method, sqs_defaults, sqs_defaults) received_op list \<Rightarrow> nat \<Rightarrow> jserror + ('u, 'x) sqs_listener list" where
  "sqs_initialize aws registeredOperations self =
     bindR (traverse (init_listener aws) (getRegistrationsFor None registeredOperations self)) (\<lambda>ls. Inr (concat ls))"

section \<open>The loop\<close>

record 'q sqs_client =
  sqs_receive :: "'q \<Rightarrow> (jserror + sqs_message option) \<times> 'q"
  sqs_deleteMessage :: "string \<Rightarrow> 'q \<Rightarrow> (jserror + unit) \<times> 'q"

text \<open>A key function may answer nothing, or the empty string; then the next one is asked.\<close>

definition message_key :: "sqs_defaults \<Rightarrow> sqs_defaults \<Rightarrow> sqs_message \<Rightarrow> uuid" where
  "message_key cro mro m =
     (let ask = (\<lambda>cfg. case sqs_field cfg getWFKey of None \<Rightarrow> None | Some f \<Rightarrow> or_undefined (f m)) in
      case or_else (ask mro) (ask cro) of Some k \<Rightarrow> k | None \<Rightarrow> MessageId m)"

definition listener_key :: "('u, 'x) sqs_listener \<Rightarrow> sqs_message \<Rightarrow> uuid" where
  "listener_key l = message_key (sl_classConfig l) (sl_methodConfig l)"

definition on_queue :: "('q \<Rightarrow> (jserror + 'a) \<times> 'q) \<Rightarrow> (('u, 'x) dbos \<times> 'q, 'a) meth" where
  "on_queue = zoomE snd (\<lambda>q s. (fst s, q))"

definition on_executor :: "(('u, 'x) dbos, 'a) meth \<Rightarrow> (('u, 'x) dbos \<times> 'q, 'a) meth" where
  "on_executor = zoomE fst (\<lambda>d s. (d, snd s))"

text \<open>One turn; an error is logged, and the loop goes on.\<close>

definition sqs_turn ::
    "('u, 'x) DBOSExecutor \<Rightarrow> (sysdb \<Rightarrow> sysdb) list \<Rightarrow> 'q sqs_client \<Rightarrow> ('u, 'x) sqs_listener \<Rightarrow> (('u, 'x) dbos \<times> 'q, unit) meth" where
  "sqs_turn dx others client l =
     catchE
       (bindE (on_queue (sqs_receive client)) (\<lambda>response. case response of
          None \<Rightarrow> retE ()
        | Some message \<Rightarrow>
            seqE (on_executor (workflow dx others (sl_workflow l)
                    (plain_params\<lparr>p_workflowUUID := Some (listener_key l message)\<rparr>) [sm_message message]))
              (on_queue (sqs_deleteMessage client (ReceiptHandle message)))))
       (\<lambda>e. retE ())"

text \<open>\<open>isShuttingDown\<close> is set from outside; the list has, turn by turn, the other sessions.\<close>

fun sqs_loop ::
    "('u, 'x) DBOSExecutor \<Rightarrow> (sysdb \<Rightarrow> sysdb) list list \<Rightarrow> 'q sqs_client \<Rightarrow> ('u, 'x) sqs_listener \<Rightarrow> (('u, 'x) dbos \<times> 'q, unit) meth" where
  "sqs_loop dx [] client l = retE ()"
| "sqs_loop dx (others # turns) client l = seqE (sqs_turn dx others client l) (sqs_loop dx turns client l)"

section \<open>No message is lost\<close>

text \<open>A workflow that recovery can start: it has a status and inputs.\<close>

definition recorded :: "uuid \<Rightarrow> sysdb \<Rightarrow> bool" where
  "recorded u db \<longleftrightarrow> has_wf db u \<and> workflow_inputs db u \<noteq> None"

lemma recorded_upsert: "(\<And>r. ws_workflow_uuid (f r) = ws_workflow_uuid r) \<Longrightarrow> recorded u db \<Longrightarrow> recorded u (upsert_wf r f db)"
  by (auto simp: recorded_def has_wf_def upsert_wf_def row_find_upsert split: option.splits)

lemma recorded_update: "(\<And>r. ws_workflow_uuid (f r) = ws_workflow_uuid r) \<Longrightarrow> recorded u db \<Longrightarrow> recorded u (update_wf v f db)"
  by (auto simp: recorded_def has_wf_def update_wf_def row_find_update)

lemma keeps_recorded_input: "keeps (recorded u) (insert_input v c)"
  by (auto simp: keeps_def insert_input_def recorded_def has_wf_def split: option.splits)

lemma keeps_recorded_init: "keeps (recorded u) (initWorkflowStatus rt st args)"
  unfolding initWorkflowStatus_def
  by (intro keeps_rules keeps_modify keeps_recorded_input) (auto intro: recorded_upsert recorded_update)

lemma keeps_recorded_error: "keeps (recorded u) (recordWorkflowError v st)"
  unfolding recordWorkflowError_def by (intro keeps_rules keeps_modify) (auto intro: recorded_upsert)

lemma keeps_recorded_buffers:
  "keeps (recorded u) (bufferWorkflowOutput v st)" "keeps (recorded u) (bufferWorkflowInputs v args)" "keeps (recorded u) (dequeueWorkflow v q)"
  by (auto simp: keeps_def em_simps recorded_def has_wf_def bufferWorkflowOutput_def bufferWorkflowInputs_def dequeueWorkflow_def)

lemma keeps_recorded_enqueue: "keeps (recorded u) (enqueueWorkflow v q)"
  by (auto simp: keeps_def em_simps recorded_def has_wf_def enqueueWorkflow_def split: option.splits)

text \<open>Other sessions delete neither a status nor inputs.\<close>

definition others_keep :: "uuid \<Rightarrow> (sysdb \<Rightarrow> sysdb) list \<Rightarrow> bool" where
  "others_keep u others \<longleftrightarrow> (\<forall>f \<in> set others. \<forall>db. recorded u db \<longrightarrow> recorded u (f db))"

lemma keeps_recorded_result: "others_keep u others \<Longrightarrow> keeps (recorded u) (getWorkflowResult rt others v)"
proof (induction others)
  case Nil
  show ?case by (subst getWorkflowResult.simps) (auto simp: Let_def intro!: keeps_rules)
next
  case (Cons f fs)
  then have "keeps (recorded u) (modifyE (f \<circ> sleep_clock 1000))"
    by (intro keeps_modify) (auto simp: others_keep_def recorded_def has_wf_def sleep_clock_def)
  with Cons show ?case by (subst getWorkflowResult.simps) (auto simp: Let_def others_keep_def intro!: keeps_rules)
qed

lemma init_records:
  assumes "initWorkflowStatus rt st args db = (Inr x, db')"
  shows "recorded (wsi_workflowUUID st) db'"
proof -
  obtain roles req where r: "stringify (roles_val (wsi_authenticatedRoles st)) = Inr roles" "stringify (wsi_request st) = Inr req"
    using assms by (cases "stringify (roles_val (wsi_authenticatedRoles st))"; cases "stringify (wsi_request st)")
      (simp_all add: initWorkflowStatus_def bindE_def liftE_def)
  define db1 where "db1 = upsert_wf (status_row st (wsi_status st) roles req None None (now db))
    (\<lambda>r. r\<lparr>ws_recovery_attempts := (if wsi_recovery st then ws_recovery_attempts r + 1 else ws_recovery_attempts r)\<rparr>) db"
  have wf: "has_wf db1 (wsi_workflowUUID st)"
    by (auto simp: db1_def has_wf_def upsert_wf_def row_find_upsert status_row_def split: option.splits)
  have "bindE (liftE (stringify (JArr args))) (\<lambda>c. bindE (insert_input (wsi_workflowUUID st) c) (\<lambda>c. bindE (liftE (parse rt c)) (\<lambda>v. retE (arr_of v)))) db1
      = (Inr x, db')"
    using assms by (simp add: initWorkflowStatus_def bindE_def [of "liftE (Inr _)"] liftE_def [of "Inr _"] r seqE_def modifyE_def
        db1_def [symmetric] bindE_def [of "\<lambda>s. (Inr _, _ s)"] raiseE_def split: if_splits)
  then obtain c where "bindE (insert_input (wsi_workflowUUID st) c) (\<lambda>c. bindE (liftE (parse rt c)) (\<lambda>v. retE (arr_of v))) db1 = (Inr x, db')"
    by (rule bindE_InrD) (auto simp: liftE_def)
  then obtain c' db2 where ins: "insert_input (wsi_workflowUUID st) c db1 = (Inr c', db2)" "bindE (liftE (parse rt c')) (\<lambda>v. retE (arr_of v)) db2 = (Inr x, db')"
    by (rule bindE_InrD)
  from ins(2) have "db' = db2" by (cases "parse rt c'") (simp_all add: bindE_def liftE_def retE_def)
  moreover have "recorded (wsi_workflowUUID st) db2"
    using ins(1) wf by (auto simp: insert_input_def recorded_def has_wf_def split: option.splits if_splits)
  ultimately show ?thesis by simp
qed

section \<open>What the executor keeps\<close>

abbreviation recorded_in :: "uuid \<Rightarrow> ('u, 'x) dbos \<Rightarrow> bool" where
  "recorded_in u s \<equiv> recorded u (systemDatabase s)"

lemma keeps_recorded_on_sys: "keeps (recorded u) m \<Longrightarrow> keeps (recorded_in u) (on_sys m)"
  unfolding on_sys_def by (rule keeps_zoom) auto

text \<open>The functions of the application do not delete a status or inputs.\<close>

definition wf_keeps :: "uuid \<Rightarrow> ('u, 'x) Workflow \<Rightarrow> bool" where
  "wf_keeps u wfl \<longleftrightarrow> (\<forall>ctx args. keeps (recorded_in u) (wf_call wfl ctx args))"

lemma keeps_recorded_dequeue: "keeps (recorded_in u) (dequeue_if_queued dx st)"
  unfolding dequeue_if_queued_def getQueueByName_def
  by (intro keeps_rules keeps_recorded_on_sys keeps_recorded_buffers)

lemma keeps_recorded_run:
  assumes "wf_keeps u wfl" "others_keep u others"
  shows "keeps (recorded_in u) (runWorkflow dx others wfl params st ctx args)"
proof -
  have "keeps (recorded_in u) (on_workflow_error dx others st v e)" for v e
    unfolding on_workflow_error_def
    by (cases e) (auto intro!: keeps_rules keeps_recorded_on_sys keeps_recorded_result keeps_recorded_error keeps_recorded_dequeue assms(2))
  then show ?thesis using assms(1) unfolding runWorkflow_def wf_keeps_def
    by (intro keeps_rules keeps_modify keeps_recorded_on_sys keeps_recorded_buffers keeps_recorded_dequeue) auto
qed

lemma keeps_recorded_new_context:
  fixes m :: "(('u, 'x) dbos, 'a) meth"
  shows "keeps (recorded_in u) m \<Longrightarrow> keeps (recorded_in u) (in_new_context m)"
proof (rule keepsI)
  fix s :: "('u, 'x) dbos" assume m: "keeps (recorded_in u) m" and s: "recorded_in u s"
  obtain r t where t: "m (fresh_ctx s) = (r, t)" by fastforce
  have "recorded_in u (fresh_ctx s)" using s by (simp add: fresh_ctx_def)
  from keeps_result [OF m this t] show "recorded_in u (snd (in_new_context m s))"
    by (simp add: in_new_context_def t restore_ctx_def)
qed

text \<open>A start keeps what is recorded, and one that returns has recorded its own workflow.\<close>

lemma start_as_records:
  assumes "wf_keeps u wfl" "others_keep u others" "start_as dx others wfl params caller args v preset s = (r, t)"
  shows "recorded_in u s \<Longrightarrow> recorded_in u t"
    and "r = Inr h \<Longrightarrow> \<not> is_single_txn params \<Longrightarrow> u = v \<Longrightarrow> recorded_in u t"
proof -
  have "(recorded_in u s \<longrightarrow> recorded_in u t) \<and> (r = Inr h \<and> \<not> is_single_txn params \<and> u = v \<longrightarrow> recorded_in u t)"
  proof (cases "getWorkflowInfo (dx_registry dx) wfl")
    case None
    with assms(3) show ?thesis by (auto simp: start_as_def)
  next
    case (Some info)
    let ?st = "internalStatus dx wfl info params v (now (systemDatabase s))"
    let ?init = "if \<not> is_single_txn params \<or> p_queueName params \<noteq> None then on_sys (initWorkflowStatus (dx_runtime dx) ?st args) s else (Inr args, s)"
    obtain r1 s1 where init: "?init = (r1, s1)" by fastforce
    have keep: "recorded_in u s \<longrightarrow> recorded_in u s1"
      using init keeps_result [OF keeps_recorded_on_sys [OF keeps_recorded_init]] by (auto split: if_splits)
    have rec: "recorded_in u s1" if "r1 = Inr args'" "\<not> is_single_txn params" "u = v" for args'
    proof -
      have "wsi_workflowUUID ?st = v" by (simp add: internalStatus_def)
      then show ?thesis using init that init_records [of "dx_runtime dx" ?st args "systemDatabase s" args']
        by (auto simp: on_sys_run split: prod.splits)
    qed
    show ?thesis
    proof (cases r1)
      case (Inl e)
      with assms(3) Some init have "r = Inl e" "t = s1" by (auto simp: start_as_def)
      with keep show ?thesis by simp
    next
      case (Inr args')
      have "recorded_in u s1 \<longrightarrow> recorded_in u t"
      proof (cases "p_queueName params = None \<or> p_executeWorkflow params")
        case True
        with assms(3) Some init Inr obtain q where
          "in_new_context (runWorkflow dx others wfl params ?st \<lparr>workflowUUID = v, presetUUID = preset\<rparr> args') s1 = (q, t)"
          by (auto simp: start_as_def split: prod.splits)
        from keeps_result [OF keeps_recorded_new_context [OF keeps_recorded_run [OF assms(1,2)]] _ this] show ?thesis by blast
      next
        case False
        let ?m = "bindE (getQueueByName dx (or_empty (p_queueName params))) (\<lambda>q. seqE (on_sys (enqueueWorkflow v q)) (retE (RetrievedHandle v caller)))"
        from False have "p_queueName params \<noteq> None" by simp
        with False assms(3) Some init Inr have run: "?m s1 = (r, t)" by (auto simp: start_as_def)
        have "keeps (recorded_in u) ?m" unfolding getQueueByName_def
          by (intro keeps_rules keeps_recorded_on_sys keeps_recorded_enqueue)
        from keeps_result [OF this _ run] show ?thesis by blast
      qed
      with keep rec [OF Inr] show ?thesis by blast
    qed
  qed
  then show "recorded_in u s \<Longrightarrow> recorded_in u t" "r = Inr h \<Longrightarrow> \<not> is_single_txn params \<Longrightarrow> u = v \<Longrightarrow> recorded_in u t" by blast+
qed

lemma workflow_records:
  assumes "wf_keeps u wfl" "others_keep u others"
    and "workflow dx others wfl (plain_params\<lparr>p_workflowUUID := Some v\<rparr>) args s = (r, t)"
  shows "recorded_in u s \<Longrightarrow> recorded_in u t" and "r = Inr h \<Longrightarrow> v \<noteq> [] \<Longrightarrow> u = v \<Longrightarrow> recorded_in u t"
proof -
  let ?p = "plain_params\<lparr>p_workflowUUID := Some v\<rparr>"
  obtain w preset s0 where start: "start_as dx others wfl ?p None args w preset s0 = (r, t)"
    and s0: "systemDatabase s0 = systemDatabase s" "v \<noteq> [] \<Longrightarrow> w = v"
    using assms(3) by (cases "v = []") (auto simp: workflow_def internalWorkflow_start or_undefined_def)
  have "\<not> is_single_txn ?p" by (simp add: is_single_txn_def plain_params_def)
  with start_as_records [OF assms(1,2) start] s0
  show "recorded_in u s \<Longrightarrow> recorded_in u t" "r = Inr h \<Longrightarrow> v \<noteq> [] \<Longrightarrow> u = v \<Longrightarrow> recorded_in u t" by auto
qed

section \<open>The queue\<close>

text \<open>
  What the service documents, for the messages \<open>held\<close> by its queue: receiving takes nothing out of the
  queue, and a deletion removes no message but that with the receipt.
\<close>

definition sqs_service :: "'q sqs_client \<Rightarrow> ('q \<Rightarrow> sqs_message set) \<Rightarrow> bool" where
  "sqs_service client held \<longleftrightarrow>
     (\<forall>q. held (snd (sqs_receive client q)) = held q) \<and>
     (\<forall>q h. held q - {m. ReceiptHandle m = h} \<subseteq> held (snd (sqs_deleteMessage client h q))) \<and>
     (\<forall>q m m' q'. sqs_receive client q = (Inr (Some m), q') \<longrightarrow> m' \<in> held q \<longrightarrow> ReceiptHandle m' = ReceiptHandle m \<longrightarrow> m' = m)"

definition safe :: "('q \<Rightarrow> sqs_message set) \<Rightarrow> ('u, 'x) sqs_listener \<Rightarrow> sqs_message \<Rightarrow> ('u, 'x) dbos \<times> 'q \<Rightarrow> bool" where
  "safe held l m s \<longleftrightarrow> m \<in> held (snd s) \<or> recorded_in (listener_key l m) (fst s)"

lemma sqs_turn_keeps:
  fixes l :: "('u, 'x) sqs_listener" and client :: "'q sqs_client"
  assumes "sqs_service client held" "wf_keeps (listener_key l m) (sl_workflow l)" "others_keep (listener_key l m) others" "listener_key l m \<noteq> []"
  shows "keeps (safe held l m) (sqs_turn dx others client l)"
proof (rule keepsI)
  fix s :: "('u, 'x) dbos \<times> 'q"
  assume safe: "safe held l m s"
  obtain d q where s: "s = (d, q)" by (cases s)
  obtain r q1 where rcv: "sqs_receive client q = (r, q1)" by fastforce
  have held1: "held q1 = held q" using assms(1) rcv by (metis sqs_service_def snd_conv)
  show "safe held l m (snd (sqs_turn dx others client l s))"
  proof (cases "\<exists>msg. r = Inr (Some msg)")
    case False
    then consider e where "r = Inl e" | "r = Inr None" by (cases r) auto
    then have "snd (sqs_turn dx others client l s) = (d, q1)"
      by cases (simp_all add: sqs_turn_def catchE_def bindE_def on_queue_def zoomE_def s rcv retE_def)
    then show ?thesis using safe held1 by (simp add: safe_def s)
  next
    case True
    then obtain msg where msg: "r = Inr (Some msg)" by blast
    obtain w d1 where w: "workflow dx others (sl_workflow l) (plain_params\<lparr>p_workflowUUID := Some (listener_key l msg)\<rparr>) [sm_message msg] d = (w, d1)"
      by fastforce
    note rec = workflow_records [OF assms(2,3) w]
    show ?thesis
    proof (cases w)
      case (Inl e)
      then have "snd (sqs_turn dx others client l s) = (d1, q1)"
        by (simp add: sqs_turn_def catchE_def bindE_def seqE_def on_queue_def on_executor_def zoomE_def s rcv msg w retE_def)
      then show ?thesis using safe held1 rec(1) by (auto simp: safe_def s)
    next
      case (Inr h)
      obtain x q2 where del: "sqs_deleteMessage client (ReceiptHandle msg) q1 = (x, q2)" by fastforce
      have t: "snd (sqs_turn dx others client l s) = (d1, q2)"
        by (cases x) (simp_all add: sqs_turn_def catchE_def bindE_def seqE_def on_queue_def on_executor_def zoomE_def s rcv msg w Inr del retE_def)
      have kept: "held q - {m. ReceiptHandle m = ReceiptHandle msg} \<subseteq> held q2"
        using assms(1) del held1 by (metis sqs_service_def snd_conv)
      show ?thesis
      proof (cases "m \<in> held q \<and> ReceiptHandle m = ReceiptHandle msg")
        case True
        with assms(1) rcv msg have "m = msg" unfolding sqs_service_def by blast
        with rec(2) [OF Inr] assms(4) have "recorded_in (listener_key l m) d1" by simp
        then show ?thesis by (simp add: safe_def t)
      next
        case False
        have "m \<in> held q \<or> recorded_in (listener_key l m) d" using safe by (simp add: safe_def s)
        with False kept rec(1) show ?thesis unfolding safe_def t by auto
      qed
    qed
  qed
qed

lemma sqs_loop_keeps:
  assumes "sqs_service client held" "wf_keeps (listener_key l m) (sl_workflow l)" "listener_key l m \<noteq> []"
    and "\<forall>others \<in> set turns. others_keep (listener_key l m) others"
  shows "keeps (safe held l m) (sqs_loop dx turns client l)"
  using assms(4)
proof (induction turns)
  case (Cons others turns)
  then show ?case by (auto intro!: keeps_rules sqs_turn_keeps assms(1-3))
qed (simp add: keeps_ret)

text \<open>The loop itself never throws.\<close>

lemma sqs_loop_returns: "fst (sqs_loop dx turns client l s) = Inr ()"
proof (induction turns arbitrary: s)
  case (Cons others turns)
  have "\<exists>t. sqs_turn dx others client l s = (Inr (), t)"
    by (auto simp: sqs_turn_def catchE_def retE_def split: prod.split sum.split)
  with Cons show ?case by (auto simp: seqE_def bindE_def)
qed (simp add: retE_def)

end
