(* ===== verification/S3.thy ===== *)
theory S3
  imports Sqs
begin

text \<open>
  Files in S3 (\<open>src/packages/component-aws-s3/src/s3_utils.ts\<close>, class \<open>S3Ops\<close>): the steps of a configured instance, and
  the workflows made of them, with the call-backs by which the application keeps its own records of files.

  The service is a record of requests over the outside world, made from a configuration of AWS. The workflows run in the context of
  \<open>WfContext\<close>; the registered steps are those of one instance (\<open>s3_registered\<close>).

  The theory shows what saving a file leaves in the bucket, on every branch and when it is repeated, and that an
  upload that fails has the deletion of its file started.
\<close>

section \<open>Steps\<close>

record 'x s3_service =
  DeleteObject :: "jsval \<Rightarrow> jsval \<Rightarrow> ('x, jsval) meth"
  PutObject :: "jsval \<Rightarrow> jsval \<Rightarrow> jsval \<Rightarrow> jsval \<Rightarrow> ('x, jsval) meth"
  GetObject :: "jsval \<Rightarrow> jsval \<Rightarrow> ('x, jsval option) meth" \<comment> \<open>the text of the body, if there is one\<close>
  getSignedUrl :: "jsval \<Rightarrow> jsval \<Rightarrow> jsval \<Rightarrow> jsval \<Rightarrow> ('x, jsval) meth"
  presignPost :: "jsval \<Rightarrow> jsval \<Rightarrow> jsval \<Rightarrow> jsval \<times> jsval \<Rightarrow> jsval \<Rightarrow> ('x, jsval \<times> jsval) meth"

record ('u, 'x) s3_callbacks =
  newActiveFile :: "wctx \<Rightarrow> jsval \<Rightarrow> (('u, 'x) dbos, jsval) meth"
  newPendingFile :: "wctx \<Rightarrow> jsval \<Rightarrow> (('u, 'x) dbos, jsval) meth"
  fileActivated :: "wctx \<Rightarrow> jsval \<Rightarrow> (('u, 'x) dbos, jsval) meth"
  fileDeleted :: "wctx \<Rightarrow> jsval \<Rightarrow> (('u, 'x) dbos, jsval) meth"

record ('u, 'x) S3Ops =
  s3_name :: string
  s3_awscfgname :: "string option"
  s3_awscfg :: "AWSServiceConfig option"
  s3_bucket :: jsval
  s3_Callbacks :: "('u, 'x) s3_callbacks option"
  s3client :: "'x s3_service option"

definition AWS_S3_CONFIGURATION :: string where
  "AWS_S3_CONFIGURATION = ''aws_s3_configuration''"

definition S3Ops_initialize ::
    "ConfigProvider \<Rightarrow> (AWSServiceConfig \<Rightarrow> 'x s3_service) \<Rightarrow> ('u, 'x) S3Ops \<Rightarrow> jserror + ('u, 'x) S3Ops" where
  "S3Ops_initialize getCfg createS3Client this =
     bindR (case s3_awscfg this of Some c \<Rightarrow> Inr c
       | None \<Rightarrow> (case or_undefined (s3_awscfgname this) of
           Some n \<Rightarrow> loadAWSConfigByName getCfg (JStr n)
         | None \<Rightarrow> getAWSConfigForService getCfg AWS_S3_CONFIGURATION)) (\<lambda>c.
     Inr (this\<lparr>s3_awscfg := Some c, s3client := Some (createS3Client c)\<rparr>))"

text \<open>
  Arguments that are missing are \<open>undefined\<close>, and those have their defaults. A use of a client that was never made fails; the error of the
  libraries that sign addresses, which do not reach a request then, is not told apart from that of a request.
\<close>

definition arg_at :: "jsval list \<Rightarrow> nat \<Rightarrow> jsval" where
  "arg_at args i = (if i < length args then args ! i else JUndefined)"

definition default_to :: "jsval \<Rightarrow> jsval \<Rightarrow> jsval" where
  "default_to d v = (if v = JUndefined then d else v)"

definition with_client :: "('u, 'x) S3Ops \<Rightarrow> ('x s3_service \<Rightarrow> ('x, jsval) meth) \<Rightarrow> ('x, jsval) meth" where
  "with_client this f = (case s3client this of
     None \<Rightarrow> raiseE (runtime_error ''TypeError'' (''Cannot read properties of undefined (reading '' @ CHR 39 # ''send'' @ CHR 39 # '')''))
   | Some s3 \<Rightarrow> f s3)"

definition s3_delete :: "('u, 'x) S3Ops \<Rightarrow> jsval list \<Rightarrow> ('x, jsval) meth" where
  "s3_delete this args = with_client this (\<lambda>s3. DeleteObject s3 (s3_bucket this) (arg_at args 0))"

definition s3_put :: "('u, 'x) S3Ops \<Rightarrow> jsval list \<Rightarrow> ('x, jsval) meth" where
  "s3_put this args = with_client this (\<lambda>s3.
     PutObject s3 (s3_bucket this) (arg_at args 0) (arg_at args 1) (default_to (JStr ''text/plain'') (arg_at args 2)))"

definition s3_get :: "('u, 'x) S3Ops \<Rightarrow> jsval list \<Rightarrow> ('x, jsval) meth" where
  "s3_get this args = with_client this (\<lambda>s3.
     bindE (GetObject s3 (s3_bucket this) (arg_at args 0)) (\<lambda>body. retE (case body of None \<Rightarrow> JUndefined | Some txt \<Rightarrow> txt)))"

definition presignedGetURL :: "('u, 'x) S3Ops \<Rightarrow> jsval list \<Rightarrow> ('x, jsval) meth" where
  "presignedGetURL this args = with_client this (\<lambda>s3.
     getSignedUrl s3 (s3_bucket this) (arg_at args 0) (default_to (JNum 3600) (arg_at args 1)) (default_to (JObj []) (arg_at args 2)))"

text \<open>The limits of the length, and the type of the content.\<close>

definition postS3KeyCmd :: "'x s3_service \<Rightarrow> jsval \<Rightarrow> jsval \<Rightarrow> jsval \<Rightarrow> jsval \<Rightarrow> ('x, jsval) meth" where
  "postS3KeyCmd s3 bucket key expirationSecs contentOptions =
     bindE (presignPost s3 bucket key expirationSecs
       (nullish (getProp contentOptions ''contentLengthMin'') (JNum 1), nullish (getProp contentOptions ''contentLengthMax'') (JNum 10000000))
       (nullish (getProp contentOptions ''contentType'') (JStr ''*''))) (\<lambda>(url, fields).
     retE (JObj [(''url'', url), (''fields'', fields)]))"

definition createPresignedPost :: "('u, 'x) S3Ops \<Rightarrow> jsval list \<Rightarrow> ('x, jsval) meth" where
  "createPresignedPost this args =
     catchE (with_client this (\<lambda>s3. postS3KeyCmd s3 (s3_bucket this) (arg_at args 0) (default_to (JNum 1200) (arg_at args 1)) (arg_at args 2)))
       (\<lambda>e. raiseE (DBOSError (''Unable to presign post: '' @ err_message e) 500))"

text \<open>The decorators have no settings.\<close>

definition s3_step :: "string \<Rightarrow> (jsval list \<Rightarrow> ('x, jsval) meth) \<Rightarrow> 'x StepInfo" where
  "s3_step nm f = \<lparr>si_name = nm,
     si_config = \<lparr>sc_retriesAllowed = None, sc_intervalSeconds = None, sc_maxAttempts = None, sc_backoffRate = None\<rparr>, si_step = f\<rparr>"

definition s3_steps :: "('u, 'x) S3Ops \<Rightarrow> (string \<times> 'x StepInfo) list" where
  "s3_steps this = map (\<lambda>(nm, f). (full_name ''S3Ops'' nm, s3_step nm f))
     [(''delete'', s3_delete this), (''put'', s3_put this), (''get'', s3_get this), (''presignedGetURL'', presignedGetURL this),
      (''createPresignedPost'', createPresignedPost this)]"

section \<open>Workflows\<close>

definition key_of :: "jsval \<Rightarrow> ('s, jsval) meth" where
  "key_of fileDetails =
     (if fileDetails = JUndefined \<or> fileDetails = JNull
      then raiseE (runtime_error ''TypeError'' (''Cannot read properties of '' @ (if fileDetails = JNull then ''null'' else ''undefined'') @
        '' (reading '' @ CHR 39 # ''key'' @ CHR 39 # '')''))
      else retE (getProp fileDetails ''key''))"

definition invoke_s3 :: "('u, 'x) dbosExec \<Rightarrow> wctx \<Rightarrow> string \<Rightarrow> jsval \<Rightarrow> jsval list \<Rightarrow> (('u, 'x) dbos, jsval) meth" where
  "invoke_s3 ex ctx nm fileDetails rest =
     bindE (key_of fileDetails) (\<lambda>key. external ex ctx (full_name ''S3Ops'' nm) (key # rest))"

definition call_back ::
    "('u, 'x) S3Ops \<Rightarrow> (('u, 'x) s3_callbacks \<Rightarrow> wctx \<Rightarrow> jsval \<Rightarrow> (('u, 'x) dbos, jsval) meth) \<Rightarrow> wctx \<Rightarrow> jsval \<Rightarrow> (('u, 'x) dbos, unit) meth" where
  "call_back this f ctx fileDetails = (case s3_Callbacks this of
     None \<Rightarrow> retE ()
   | Some cbs \<Rightarrow> bindE (f cbs ctx fileDetails) (\<lambda>_. retE ()))"

definition saveStringToFile ::
    "('u, 'x) dbosExec \<Rightarrow> ('u, 'x) S3Ops \<Rightarrow> wctx \<Rightarrow> jsval \<Rightarrow> jsval \<Rightarrow> jsval \<Rightarrow> (('u, 'x) dbos, jsval) meth" where
  "saveStringToFile ex this ctx fileDetails content contentType =
     bindE (catchE (invoke_s3 ex ctx ''put'' fileDetails [content, default_to (JStr ''text/plain'') contentType])
       (\<lambda>e. bindE (invoke_s3 ex ctx ''delete'' fileDetails []) (\<lambda>_. raiseE e))) (\<lambda>_.
     seqE (call_back this newActiveFile ctx fileDetails) (retE fileDetails))"

definition readStringFromFile :: "('u, 'x) dbosExec \<Rightarrow> wctx \<Rightarrow> jsval \<Rightarrow> (('u, 'x) dbos, jsval) meth" where
  "readStringFromFile ex ctx fileDetails = invoke_s3 ex ctx ''get'' fileDetails []"

definition deleteFile :: "('u, 'x) dbosExec \<Rightarrow> ('u, 'x) S3Ops \<Rightarrow> wctx \<Rightarrow> jsval \<Rightarrow> (('u, 'x) dbos, jsval) meth" where
  "deleteFile ex this ctx fileDetails =
     seqE (call_back this fileDeleted ctx fileDetails) (invoke_s3 ex ctx ''delete'' fileDetails [])"

definition getFileReadURL :: "('u, 'x) dbosExec \<Rightarrow> wctx \<Rightarrow> jsval \<Rightarrow> jsval \<Rightarrow> jsval \<Rightarrow> (('u, 'x) dbos, jsval) meth" where
  "getFileReadURL ex ctx fileDetails expirationSec options =
     invoke_s3 ex ctx ''presignedGetURL'' fileDetails [default_to (JNum 3600) expirationSec, default_to (JObj []) options]"

definition deleteFile_workflow :: "('u, 'x) dbosExec \<Rightarrow> ('u, 'x) S3Ops \<Rightarrow> ('u, 'x) Workflow" where
  "deleteFile_workflow ex this = \<lparr>wf_name = ''deleteFile'', wf_className = ''S3Ops'',
     wf_call = (\<lambda>ctx args. deleteFile ex this ctx (arg_at args 0))\<rparr>"

text \<open>The first part publishes the address; the second waits for the upload. \<open>wk\<close> is how the wait ends.\<close>

definition publish_upload ::
    "('u, 'x) dbosExec \<Rightarrow> ('u, 'x) S3Ops \<Rightarrow> wctx \<Rightarrow> jsval \<Rightarrow> int \<Rightarrow> jsval \<Rightarrow> (('u, 'x) dbos, unit) meth" where
  "publish_upload ex this ctx fileDetails expirationSec contentOptions =
     seqE (call_back this newPendingFile ctx fileDetails)
     (bindE (invoke_s3 ex ctx ''createPresignedPost'' fileDetails [JNum (of_int expirationSec), contentOptions]) (\<lambda>upkey.
     ctx_setEvent ex ctx ''uploadkey'' upkey))"

definition await_upload ::
    "('u, 'x) dbosExec \<Rightarrow> ('u, 'x) S3Ops \<Rightarrow> wctx \<Rightarrow> wake \<Rightarrow> jsval \<Rightarrow> int \<Rightarrow> (('u, 'x) dbos, unit) meth" where
  "await_upload ex this ctx wk fileDetails expirationSec =
     bindE (ctx_recv ex ctx wk (Some ''uploadfinish'') (expirationSec + 60)) (\<lambda>res.
     if \<not> js_truthy res then raiseE (runtime_error ''Error'' ''S3 operation timed out or canceled'')
     else call_back this fileActivated ctx fileDetails)"

definition writeFileViaURL ::
    "('u, 'x) DBOSExecutor \<Rightarrow> (sysdb \<Rightarrow> sysdb) list \<Rightarrow> parentCtx \<Rightarrow> ('u, 'x) S3Ops \<Rightarrow> wctx \<Rightarrow> wake \<Rightarrow> jsval \<Rightarrow> int option \<Rightarrow> jsval \<Rightarrow>
     (('u, 'x) dbos, jsval) meth" where
  "writeFileViaURL dx others self this ctx wk fileDetails expiration contentOptions =
     (let ex = exec_of dx; expirationSec = (case expiration of None \<Rightarrow> 3600 | Some n \<Rightarrow> n) in
      seqE (publish_upload ex this ctx fileDetails expirationSec contentOptions)
      (seqE (catchE (await_upload ex this ctx wk fileDetails expirationSec)
        (\<lambda>e. seqE (catchE
            (bindE (proxyInvokeWF dx others ctx self (deleteFile_workflow ex this) None (Some (s3_name this)) None [fileDetails]) (\<lambda>_. retE ()))
            (\<lambda>e2. retE ())) (raiseE e)))
      (retE fileDetails)))"

section \<open>Steps of a workflow that runs for the first time\<close>

text \<open>No operation from this number on is recorded.\<close>

definition free_from :: "uuid \<Rightarrow> nat \<Rightarrow> ('u, 'x) dbos \<Rightarrow> bool" where
  "free_from u n s \<longleftrightarrow> (\<forall>f \<ge> n. op_rows s (u, f) = None)"

lemma keeps_ctx_flush: "keeps (\<lambda>s. ctx_part s = c) (flushResultBuffer ex ctx k)"
  unfolding flushResultBuffer_def by (intro keeps_rules keeps_ctx_user keeps_ctx_misc)

lemma flush_in_txn_rows_kept:
  assumes "flush_in_txn ex ctx s = (r, t)"
  shows "op_rows t = op_rows s \<and> functionID t = functionID s"
proof -
  let ?k = "isKeyConflictError (ex_kind ex)" and ?s = "s\<lparr>userDatabase := begin_txn (userDatabase s)\<rparr>"
  obtain q s1 where run: "flushResultBuffer ex ctx ?k ?s = (q, s1)" by fastforce
  have "ctx_part s1 = ctx_part ?s" by (rule keeps_result [OF keeps_ctx_flush _ run]) simp
  with assms run show ?thesis
    by (auto simp: flush_in_txn_def seqE_def bindE_def clear_buffer_def modifyE_def in_txn_run ctx_part_def op_rows_def
        split: sum.splits if_splits option.splits)
qed

lemma run_step_InrD:
  assumes "run_step info args s = (Inr v, t)"
  shows "\<exists>x. si_step info args x = (Inr v, outside t)"
proof (cases "retriesAllowed (si_config info)")
  case False
  with assms have "on_outside (si_step info args) s = (Inr v, t)" by (simp add: run_step_def)
  then show ?thesis by (auto simp: on_outside_run split: prod.splits)
next
  case True
  with assms obtain q where q: "step_attempts (si_step info args) (backoffRate (si_config info)) (maxAttempts (si_config info))
      (intervalSeconds (si_config info)) s = (Inr (Some v), t)"
    by (auto simp: run_step_def retE_def raiseE_def elim!: bindE_InrD split: option.splits)
  from step_attempts_bound [OF this] obtain j where j: "outside t = (run_on (si_step info args) ^^ Suc j) (outside s)"
    "fst (si_step info args ((run_on (si_step info args) ^^ j) (outside s))) = Inr v" by auto
  then have "si_step info args ((run_on (si_step info args) ^^ j) (outside s)) = (Inr v, outside t)"
    by (simp add: run_on_def prod_eq_iff)
  then show ?thesis by blast
qed

lemma external_free:
  assumes "stepInfoMap ex nm = Some info" "external ex ctx nm args s = (r, t)" "free_from (workflowUUID ctx) (functionID s) s"
  shows "functionID t = Suc (functionID s) \<and> free_from (workflowUUID ctx) (Suc (functionID s)) t"
    and "r = Inr v \<Longrightarrow> (\<exists>x. si_step info args x = (Inr v, outside t)) \<and>
      recorded_op (ex_runtime ex) (systemDatabase t) (workflowUUID ctx, functionID s) = Some (canon_val (ex_runtime ex) v)"
proof -
  let ?u = "workflowUUID ctx" and ?f = "functionID s" and ?s = "s\<lparr>functionID := Suc (functionID s)\<rparr>"
  have none: "recorded_op (ex_runtime ex) (systemDatabase w) (?u, ?f) = None" if "op_rows w = op_rows s" for w
    using assms(3) that by (simp add: free_from_def recorded_op_def op_rows_def)
  obtain q s1 where fl: "flush_in_txn ex ctx ?s = (q, s1)" by fastforce
  have s1: "op_rows s1 = op_rows s" "functionID s1 = Suc ?f"
    using flush_in_txn_rows_kept [OF fl] by (simp_all add: op_rows_def)
  have free1: "free_from ?u (Suc ?f) s1" using assms(3) s1(1) by (simp add: free_from_def)
  obtain p s2 where st: "run_step info args s1 = (p, s2)" by fastforce
  have "step_view s2 = step_view s1" by (rule keeps_result [OF keeps_view_step _ st]) simp
  then have s2: "op_rows s2 = op_rows s1" "functionID s2 = Suc ?f" using s1 by (simp_all add: step_view_def)
  have free2: "free_from ?u (Suc ?f) s2" using free1 s2(1) by (simp add: free_from_def)
  have check: "on_sys (checkOperationOutput (ex_runtime ex) ?u ?f) s1 = (Inr None, s1)"
    using none [OF s1(1)] by (simp add: on_sys_run checkOperationOutput_eq)
  have run: "external ex ctx nm args s = (case q of Inl e \<Rightarrow> (Inl e, s1) | Inr _ \<Rightarrow> (case p of
      Inl err \<Rightarrow> seqE (on_sys (recordOperationError (ex_runtime ex) ?u ?f err)) (raiseE err) s2
    | Inr v \<Rightarrow> seqE (on_sys (recordOperationOutput ?u ?f v)) (retE v) s2))"
    by (simp add: external_def assms(1) bind_functionID seqE_def bindE_def [of "flush_in_txn ex ctx"] fl bindE_def [of "on_sys (checkOperationOutput (ex_runtime ex) ?u ?f)"] check st split: sum.split)
  have row: "operation_outputs (systemDatabase s2) (?u, ?f) = None"
    using assms(3) s1(1) s2(1) by (simp add: free_from_def op_rows_def)
  show "functionID t = Suc ?f \<and> free_from ?u (Suc ?f) t"
    using assms(2) run s1(2) s2(2) free1 free2
    by (auto simp: seqE_def bindE_def on_sys_run recordOperationError_eq recordOperationOutput_eq row retE_def raiseE_def free_from_def op_rows_def
        split: sum.splits prod.splits if_splits)
  assume r: "r = Inr v"
  with assms(2) run have p: "p = Inr v" and rec: "on_sys (recordOperationOutput ?u ?f v) s2 = (Inr (), t)"
    by (auto simp: seqE_def bindE_def retE_def raiseE_def split: sum.splits prod.splits)
  from rec row have "outside t = outside s2 \<and> (\<exists>c. stringify v = Inr c \<and>
      operation_outputs (systemDatabase t) (?u, ?f) = Some \<lparr>oo_output = c, oo_error = None\<rparr>)"
    by (auto simp: on_sys_run recordOperationOutput_eq split: sum.splits if_splits)
  with run_step_InrD [OF st [unfolded p]]
  show "(\<exists>x. si_step info args x = (Inr v, outside t)) \<and> recorded_op (ex_runtime ex) (systemDatabase t) (?u, ?f) = Some (canon_val (ex_runtime ex) v)"
    by (auto simp: recorded_op_def decode_op_def canon_val_def bindR_def)
qed

section \<open>Saving a file\<close>

text \<open>What the service promises of a bucket: \<open>obj x b k\<close> is the object of a key in the world \<open>x\<close>. An answer that is an error promises nothing.\<close>

definition s3_objects :: "'x s3_service \<Rightarrow> ('x \<Rightarrow> jsval \<Rightarrow> jsval \<Rightarrow> jsval option) \<Rightarrow> bool" where
  "s3_objects s3 obj \<longleftrightarrow>
     (\<forall>b k c ct x v y. PutObject s3 b k c ct x = (Inr v, y) \<longrightarrow> obj y b k = Some c) \<and>
     (\<forall>b k x v y. DeleteObject s3 b k x = (Inr v, y) \<longrightarrow> obj y b k = None)"

definition s3_registered :: "('u, 'x) dbosExec \<Rightarrow> ('u, 'x) S3Ops \<Rightarrow> bool" where
  "s3_registered ex this \<longleftrightarrow> (\<forall>(nm, info) \<in> set (s3_steps this). stepInfoMap ex nm = Some info)"

lemma s3_registeredD:
  assumes "s3_registered ex this"
  shows "stepInfoMap ex (full_name ''S3Ops'' ''put'') = Some (s3_step ''put'' (s3_put this))"
    "stepInfoMap ex (full_name ''S3Ops'' ''delete'') = Some (s3_step ''delete'' (s3_delete this))"
    "stepInfoMap ex (full_name ''S3Ops'' ''createPresignedPost'') = Some (s3_step ''createPresignedPost'' (createPresignedPost this))"
  using assms by (simp_all add: s3_registered_def s3_steps_def)

lemma put_stores:
  assumes "s3_objects s3 obj" "s3client this = Some s3" "s3_put this (k # c # rest) x = (Inr v, y)"
  shows "obj y (s3_bucket this) k = Some c"
  using assms by (auto simp: s3_put_def with_client_def arg_at_def s3_objects_def)

lemma delete_removes:
  assumes "s3_objects s3 obj" "s3client this = Some s3" "s3_delete this (k # rest) x = (Inr v, y)"
  shows "obj y (s3_bucket this) k = None"
  using assms by (auto simp: s3_delete_def with_client_def arg_at_def s3_objects_def)

lemma invoke_s3_obj: "invoke_s3 ex ctx nm (JObj kvs) rest = external ex ctx (full_name ''S3Ops'' nm) (getProp (JObj kvs) ''key'' # rest)"
  by (simp add: invoke_s3_def key_of_def bindE_def retE_def)

lemma saveStringToFile_first:
  assumes "s3_objects s3 obj" "s3client this = Some s3" "s3_registered ex this" "free_from (workflowUUID ctx) (functionID s) s"
    and "saveStringToFile ex this ctx (JObj kvs) content ct s = (r, t)"
  shows "case r of
      Inr res \<Rightarrow> res = JObj kvs \<and> (\<exists>v w. obj (outside w) (s3_bucket this) (getProp (JObj kvs) ''key'') = Some content \<and>
        recorded_op (ex_runtime ex) (systemDatabase w) (workflowUUID ctx, functionID s) = Some (canon_val (ex_runtime ex) v) \<and>
        call_back this newActiveFile ctx (JObj kvs) w = (Inr (), t))
    | Inl e \<Rightarrow> obj (outside t) (s3_bucket this) (getProp (JObj kvs) ''key'') = None \<or>
        (\<exists>w. invoke_s3 ex ctx ''delete'' (JObj kvs) [] w = (Inl e, t)) \<or>
        (\<exists>w. obj (outside w) (s3_bucket this) (getProp (JObj kvs) ''key'') = Some content \<and>
          call_back this newActiveFile ctx (JObj kvs) w = (Inl e, t))"
proof -
  let ?key = "getProp (JObj kvs) ''key''"
  note reg = s3_registeredD [OF assms(3)]
  obtain p w where put: "invoke_s3 ex ctx ''put'' (JObj kvs) [content, default_to (JStr ''text/plain'') ct] s = (p, w)" by fastforce
  note free = external_free [OF reg(1) put [unfolded invoke_s3_obj] assms(4)]
  show ?thesis
  proof (cases p)
    case (Inr v)
    with free(2) [OF Inr] have stored: "obj (outside w) (s3_bucket this) ?key = Some content"
      "recorded_op (ex_runtime ex) (systemDatabase w) (workflowUUID ctx, functionID s) = Some (canon_val (ex_runtime ex) v)"
      using put_stores [OF assms(1,2)] by (auto simp: s3_step_def)
    have "seqE (call_back this newActiveFile ctx (JObj kvs)) (retE (JObj kvs)) w = (r, t)"
      using assms(5) put Inr by (simp add: saveStringToFile_def bindE_def catchE_def)
    with stored show ?thesis by (auto simp: seqE_def bindE_def retE_def split: prod.splits sum.splits)
  next
    case (Inl e)
    obtain q y where del: "invoke_s3 ex ctx ''delete'' (JObj kvs) [] w = (q, y)" by fastforce
    have free_w: "free_from (workflowUUID ctx) (functionID w) w" using free(1) by simp
    have rt: "r = (case q of Inl e2 \<Rightarrow> Inl e2 | Inr _ \<Rightarrow> Inl e)" "t = y"
      using assms(5) put Inl del by (auto simp: saveStringToFile_def bindE_def catchE_def raiseE_def split: sum.splits)
    have "obj (outside y) (s3_bucket this) ?key = None" if "q = Inr v" for v
      using external_free(2) [OF reg(2) del [unfolded invoke_s3_obj] free_w that] delete_removes [OF assms(1,2)]
      by (auto simp: s3_step_def)
    with rt del show ?thesis by (cases q) auto
  qed
qed

text \<open>The workflow again, when its first operation is recorded: the service is not called.\<close>

lemma saveStringToFile_again:
  assumes "s3_registered ex this" "idle s"
    and "recorded_op (ex_runtime ex) (systemDatabase s) (workflowUUID ctx, functionID s) = Some (Inr v)"
  shows "\<exists>w. same_effects (s\<lparr>functionID := Suc (functionID s)\<rparr>) w \<and>
    saveStringToFile ex this ctx (JObj kvs) content ct s = seqE (call_back this newActiveFile ctx (JObj kvs)) (retE (JObj kvs)) w"
proof -
  from external_replay [OF s3_registeredD(1) [OF assms(1)] _ _ assms(3)] assms(2) obtain w where
    w: "external ex ctx (full_name ''S3Ops'' ''put'') (getProp (JObj kvs) ''key'' # [content, default_to (JStr ''text/plain'') ct]) s = (Inr v, w)"
    "same_effects (s\<lparr>functionID := Suc (functionID s)\<rparr>) w"
    by (fastforce simp: idle_def faults_def next_fault_def)
  then show ?thesis by (auto simp: saveStringToFile_def invoke_s3_obj bindE_def catchE_def)
qed

text \<open>
  An instance that is not initialized has no client. A workflow that is recovered before its instance is initialized, as the executor
  does it, therefore fails, though the service works.
\<close>

lemma uninitialized_save_fails:
  assumes "s3client this = None" "s3_registered ex this" "free_from (workflowUUID ctx) (functionID s) s"
    and "saveStringToFile ex this ctx (JObj kvs) content ct s = (r, t)"
  shows "\<exists>e. r = Inl e"
proof (rule ccontr)
  assume "\<not> ?thesis"
  then obtain x where "r = Inr x" by (cases r) auto
  with assms(4) obtain v w where "invoke_s3 ex ctx ''put'' (JObj kvs) [content, default_to (JStr ''text/plain'') ct] s = (Inr v, w)"
    by (auto simp: saveStringToFile_def bindE_def catchE_def raiseE_def split: prod.splits sum.splits)
  from external_free(2) [OF s3_registeredD(1) [OF assms(2)] this [unfolded invoke_s3_obj] assms(3) refl] assms(1)
  show False by (simp add: s3_step_def s3_put_def with_client_def raiseE_def)
qed

section \<open>Uploads\<close>

text \<open>
  An upload that is published and then fails (no message in time, an empty message, a call-back that throws) has the workflow that deletes
  the file in the database, so that recovery runs it if this process does not; unless it could not be started.
\<close>

lemma failed_upload_deleted:
  assumes "publish_upload (exec_of dx) this ctx fd (case expiration of None \<Rightarrow> 3600 | Some n \<Rightarrow> n) opts s = (Inr (), v)"
    and "writeFileViaURL dx others self this ctx wk fd expiration opts s = (Inl e, t)"
    and "\<And>u. wf_keeps u (deleteFile_workflow (exec_of dx) this)" "\<And>u. others_keep u others"
  shows "\<exists>w. await_upload (exec_of dx) this ctx wk fd (case expiration of None \<Rightarrow> 3600 | Some n \<Rightarrow> n) v = (Inl e, w) \<and>
    (recorded_in (child_uuid (workflowUUID ctx) (functionID w)) t \<or>
     (\<exists>e2. proxyInvokeWF dx others ctx self (deleteFile_workflow (exec_of dx) this) None (Some (s3_name this)) None [fd] w = (Inl e2, t)))"
proof -
  let ?u = "\<lambda>w. child_uuid (workflowUUID ctx) (functionID w)"
  let ?start = "proxyInvokeWF dx others ctx self (deleteFile_workflow (exec_of dx) this) None (Some (s3_name this)) None [fd]"
  obtain p w where aw: "await_upload (exec_of dx) this ctx wk fd (case expiration of None \<Rightarrow> 3600 | Some n \<Rightarrow> n) v = (p, w)" by fastforce
  obtain q y where st: "?start w = (q, y)" by fastforce
  from assms(2) assms(1) aw st have pe: "p = Inl e" and ty: "t = y"
    by (auto simp: writeFileViaURL_def Let_def seqE_def bindE_def catchE_def retE_def raiseE_def split: sum.splits)
  have "recorded_in (?u w) y" if "q = Inr h" for h
  proof -
    let ?params = "plain_params\<lparr>p_workflowUUID := Some (?u w), p_parentCtx := self, p_configuredInstance := Some (s3_name this), p_queueName := None\<rparr>"
    have "?u w \<noteq> []" by (simp add: child_uuid_def)
    then have "start_as dx others (deleteFile_workflow (exec_of dx) this) ?params (Some (workflowUUID ctx, functionID w)) [fd] (?u w) True
        (w\<lparr>functionID := Suc (functionID w)\<rparr>) = (q, y)"
      using st by (simp add: proxyInvokeWF_def bind_functionID internalWorkflow_start or_undefined_def)
    from start_as_records(2) [OF assms(3,4) this that _ refl] show ?thesis
      by (simp add: is_single_txn_def plain_params_def)
  qed
  with aw pe ty st show ?thesis by (cases q) auto
qed

end
