(* ===== verification/Telemetry.thy ===== *)
theory Telemetry
  imports Config
begin

text \<open>
  Telemetry (\<open>src/src/telemetry/\<close>): the collector's queue of signals and its periodic export, the exporter that sorts
  signals into traces and logs, and where signals come from: the loggers and the tracer.

  A signal is an object, a list of properties. The libraries winston and OpenTelemetry are third-party: what they do with a
  batch, with a line of the console or with a span is not modelled beyond being handed over. Clocks are parameters.

  The locale \<open>telemetry_sink\<close> is the interface of an exporter; the collector's properties are proved over it, and it
  is interpreted on the exporter of the program, once for logs and once for traces.
\<close>

type_synonym signal = "(string \<times> jsval) list"

section \<open>Kinds of signals\<close>

definition isTraceSignal :: "signal \<Rightarrow> bool" where
  "isTraceSignal sg \<longleftrightarrow> jm_has sg ''kind''"

definition isLogSignal :: "signal \<Rightarrow> bool" where
  "isLogSignal sg \<longleftrightarrow> jm_has sg ''severityText'' \<and> jm_has sg ''severityNumber''"

section \<open>The collector\<close>

record 'x telemetry =
  tl_signals :: "signal list"
  tl_exporter :: 'x

type_synonym 'x export = "signal list \<Rightarrow> 'x \<Rightarrow> (jserror + unit) \<times> 'x"

definition tl_push :: "signal \<Rightarrow> ('x telemetry, unit) meth" where
  "tl_push sg = modifyE (\<lambda>c. c\<lparr>tl_signals := tl_signals c @ [sg]\<rparr>)"

definition tl_pop :: "('x telemetry, signal option) meth" where
  "tl_pop = (\<lambda>c. case tl_signals c of [] \<Rightarrow> (Inr None, c) | sg # rest \<Rightarrow> (Inr (Some sg), c\<lparr>tl_signals := rest\<rparr>))"

text \<open>The loop that empties the queue into a batch.\<close>

function drain :: "signal list \<Rightarrow> 'x telemetry \<Rightarrow> signal list \<times> 'x telemetry" where
  "drain batch c = (if length (tl_signals c) > 0
     then (case tl_pop c of (Inr (Some sg), c') \<Rightarrow> drain (batch @ [sg]) c' | (_, c') \<Rightarrow> (batch, c'))
     else (batch, c))"
  by pat_completeness auto
termination
  by (relation "measure (\<lambda>(_, c). length (tl_signals c))") (auto simp: tl_pop_def split: list.splits)

declare drain.simps [simp del]

text \<open>An error of the export is printed; the batch is gone from the queue.\<close>

definition processAndExportSignals :: "'x export option \<Rightarrow> ('x telemetry, unit) meth" where
  "processAndExportSignals exporter = (\<lambda>c. case drain [] c of (batch, c') \<Rightarrow>
     if length batch > 0 then (case exporter of
         None \<Rightarrow> (Inr (), c')
       | Some export \<Rightarrow> (case export batch (tl_exporter c') of (_, x) \<Rightarrow> (Inr (), c'\<lparr>tl_exporter := x\<rparr>)))
     else (Inr (), c'))"

definition collector_destroy :: "'x export option \<Rightarrow> ('x \<Rightarrow> (jserror + unit) \<times> 'x) \<Rightarrow> ('x telemetry, unit) meth" where
  "collector_destroy exporter flush =
     seqE (processAndExportSignals exporter)
       (case exporter of None \<Rightarrow> retE () | Some _ \<Rightarrow> zoomE tl_exporter (\<lambda>x c. c\<lparr>tl_exporter := x\<rparr>) flush)"

text \<open>
  What happens to a collector: signals arrive, the timer fires. A signal that arrives during an export
  is one that arrives after it, since the queue is emptied before.
\<close>

datatype tl_event = Arrives signal | TimerFires

fun tl_step :: "'x export option \<Rightarrow> tl_event \<Rightarrow> ('x telemetry, unit) meth" where
  "tl_step exporter (Arrives sg) = tl_push sg"
| "tl_step exporter TimerFires = processAndExportSignals exporter"

fun tl_run :: "'x export option \<Rightarrow> tl_event list \<Rightarrow> 'x telemetry \<Rightarrow> 'x telemetry" where
  "tl_run exporter [] c = c"
| "tl_run exporter (e # es) c = tl_run exporter es (snd (tl_step exporter e c))"

definition arriving :: "tl_event list \<Rightarrow> signal list" where
  "arriving es = concat (map (\<lambda>e. case e of Arrives sg \<Rightarrow> [sg] | TimerFires \<Rightarrow> []) es)"

lemma drain_all: "drain batch c = (batch @ tl_signals c, c\<lparr>tl_signals := []\<rparr>)"
proof (induction batch c rule: drain.induct)
  case (1 batch c)
  show ?case
  proof (cases "tl_signals c")
    case Nil
    then show ?thesis by (subst drain.simps) simp
  next
    case (Cons sg rest)
    then have pop: "tl_pop c = (Inr (Some sg), c\<lparr>tl_signals := rest\<rparr>)" by (simp add: tl_pop_def)
    from Cons "1.IH" [OF _ pop [symmetric] refl refl] show ?thesis by (subst drain.simps) (simp add: pop)
  qed
qed

section \<open>The interface of an exporter\<close>

text \<open>
  An exporter takes a batch, whether or not the transmission succeeds; \<open>given\<close> are the signals it has been
  given to transmit so far, of those it is responsible for (\<open>wants\<close>).
\<close>

locale telemetry_sink =
  fixes export :: "'x export" and given :: "'x \<Rightarrow> signal list" and wants :: "signal \<Rightarrow> bool"
  assumes export_gives: "given (snd (export batch x)) = given x @ filter wants batch"
begin

lemma process_gives:
  "processAndExportSignals (Some export) c = (Inr (), d) \<Longrightarrow> tl_signals d = [] \<and> given (tl_exporter d) = given (tl_exporter c) @ filter wants (tl_signals c)"
  using export_gives [of "tl_signals c" "tl_exporter c"]
  by (auto simp: processAndExportSignals_def drain_all split: if_splits prod.splits)

lemma process_returns: "\<exists>d. processAndExportSignals (Some export) c = (Inr (), d)"
  by (simp add: processAndExportSignals_def drain_all split: prod.split)

text \<open>Signals are handed over once each, in the order of their arrival; those not yet handed over are in the queue.\<close>

lemma run_gives:
  "\<exists>handed. handed @ tl_signals (tl_run (Some export) es c) = tl_signals c @ arriving es \<and>
     given (tl_exporter (tl_run (Some export) es c)) = given (tl_exporter c) @ filter wants handed"
proof (induction es arbitrary: c)
  case Nil
  show ?case by (simp add: arriving_def)
next
  case (Cons e es)
  show ?case
  proof (cases e)
    case (Arrives sg)
    then have "tl_run (Some export) (e # es) c = tl_run (Some export) es (c\<lparr>tl_signals := tl_signals c @ [sg]\<rparr>)"
      by (simp add: tl_push_def modifyE_def)
    with Cons.IH [of "c\<lparr>tl_signals := tl_signals c @ [sg]\<rparr>"] Arrives show ?thesis by (simp add: arriving_def)
  next
    case TimerFires
    obtain d where d: "processAndExportSignals (Some export) c = (Inr (), d)" using process_returns by blast
    note g = process_gives [OF d]
    obtain handed where h: "handed @ tl_signals (tl_run (Some export) es d) = tl_signals d @ arriving es"
      "given (tl_exporter (tl_run (Some export) es d)) = given (tl_exporter d) @ filter wants handed" using Cons.IH by blast
    have "tl_run (Some export) (e # es) c = tl_run (Some export) es d" by (simp add: TimerFires d)
    with g h show ?thesis by (intro exI [of _ "tl_signals c @ handed"]) (simp add: TimerFires arriving_def)
  qed
qed

text \<open>After shutting down, everything has been handed over.\<close>

lemma destroy_gives:
  assumes "\<And>x. given (snd (flush x)) = given x"
  shows "given (tl_exporter (snd (collector_destroy (Some export) flush (tl_run (Some export) es c)))) =
    given (tl_exporter c) @ filter wants (tl_signals c @ arriving es)"
proof -
  let ?c = "tl_run (Some export) es c"
  obtain d where d: "processAndExportSignals (Some export) ?c = (Inr (), d)" using process_returns by blast
  obtain handed where h: "handed @ tl_signals ?c = tl_signals c @ arriving es" "given (tl_exporter ?c) = given (tl_exporter c) @ filter wants handed"
    using run_gives by blast
  have "tl_exporter (snd (collector_destroy (Some export) flush ?c)) = snd (flush (tl_exporter d))"
    by (simp add: collector_destroy_def seqE_def bindE_def d zoomE_def split: prod.split)
  with assms process_gives [OF d] h show ?thesis by (simp flip: h(1))
qed

end

section \<open>The exporter\<close>

record OTLPExporterConfig =
  logsEndpoint :: "string option"
  tracesEndpoint :: "string option"

text \<open>What the OpenTelemetry exporters have been given, and with which result codes they will answer (0 is success).\<close>

record otlp =
  ot_traces :: "signal list"
  ot_logs :: "signal list"
  ot_warnings :: "(string \<times> nat) list"
  ot_codes :: "nat list"

definition otlp_task :: "string \<Rightarrow> otlp \<Rightarrow> otlp" where
  "otlp_task what x = (case ot_codes x of [] \<Rightarrow> x
     | code # codes \<Rightarrow> x\<lparr>ot_codes := codes, ot_warnings := (if code \<noteq> 0 then (what, code) # ot_warnings x else ot_warnings x)\<rparr>)"

definition exporter_export :: "OTLPExporterConfig \<Rightarrow> otlp export" where
  "exporter_export cfg signals x =
     (let exportSpans = filter isTraceSignal signals; exportLogs = filter isLogSignal signals;
          x1 = (if length exportSpans > 0 \<and> or_undefined (tracesEndpoint cfg) \<noteq> None
            then otlp_task ''Trace export failed'' (x\<lparr>ot_traces := ot_traces x @ exportSpans\<rparr>) else x);
          x2 = (if length exportLogs > 0 \<and> or_undefined (logsEndpoint cfg) \<noteq> None
            then otlp_task ''Log export failed'' (x1\<lparr>ot_logs := ot_logs x1 @ exportLogs\<rparr>) else x1) in (Inr (), x2))"

definition exporter_flush :: "otlp \<Rightarrow> (jserror + unit) \<times> otlp" where
  "exporter_flush x = (Inr (), x)"

lemma otlp_task_frame [simp]: "ot_logs (otlp_task w x) = ot_logs x" "ot_traces (otlp_task w x) = ot_traces x"
  by (auto simp: otlp_task_def split: list.split)

definition wants_logs :: "OTLPExporterConfig \<Rightarrow> signal \<Rightarrow> bool" where
  "wants_logs cfg sg \<longleftrightarrow> or_undefined (logsEndpoint cfg) \<noteq> None \<and> isLogSignal sg"

definition wants_traces :: "OTLPExporterConfig \<Rightarrow> signal \<Rightarrow> bool" where
  "wants_traces cfg sg \<longleftrightarrow> or_undefined (tracesEndpoint cfg) \<noteq> None \<and> isTraceSignal sg"

interpretation logs: telemetry_sink "exporter_export cfg" ot_logs "wants_logs cfg" for cfg
  by unfold_locales (auto simp: exporter_export_def Let_def wants_logs_def [abs_def] filter_empty_conv)

interpretation traces: telemetry_sink "exporter_export cfg" ot_traces "wants_traces cfg" for cfg
  by unfold_locales (auto simp: exporter_export_def Let_def wants_traces_def [abs_def] filter_empty_conv)

text \<open>A collector with an exporter, from its construction on.\<close>

definition collected :: "OTLPExporterConfig \<Rightarrow> tl_event list \<Rightarrow> otlp \<Rightarrow> otlp telemetry" where
  "collected cfg es x = tl_run (Some (exporter_export cfg)) es \<lparr>tl_signals = [], tl_exporter = x\<rparr>"

section \<open>Where signals come from\<close>

datatype level = LError | LWarn | LInfo | LDebug

fun level_name :: "level \<Rightarrow> string" where
  "level_name LError = ''error''"
| "level_name LWarn = ''warn''"
| "level_name LInfo = ''info''"
| "level_name LDebug = ''debug''"

fun severityNumber :: "level \<Rightarrow> rat" where
  "severityNumber LError = 17"
| "severityNumber LWarn = 13"
| "severityNumber LInfo = 9"
| "severityNumber LDebug = 5"

record app_env =
  ae_applicationID :: string
  ae_applicationVersion :: string
  ae_executorID :: string

definition app_env :: "platform \<Rightarrow> app_env" where
  "app_env pf = \<lparr>ae_applicationID = or_empty (env_var pf ''DBOS__APPID''), ae_applicationVersion = or_empty (env_var pf ''DBOS__APPVERSION''),
     ae_executorID = (case or_undefined (env_var pf ''DBOS__VMID'') of None \<Rightarrow> ''local'' | Some v \<Rightarrow> v)\<rparr>"

text \<open>\<open>{...a, k: v, ...}\<close>: later properties replace earlier ones.\<close>

definition spread :: "(string \<times> jsval) list \<Rightarrow> (string \<times> jsval) list \<Rightarrow> (string \<times> jsval) list" where
  "spread a kvs = foldl (\<lambda>m (k, v). jm_set k v m) a kvs"

record span =
  sp_attributes :: "(string \<times> jsval) list"
  sp_traceId :: string
  sp_spanId :: string
  sp_props :: signal \<comment> \<open>the other properties of the span, with its \<open>kind\<close>\<close>

definition log_message :: "platform \<Rightarrow> jsval \<Rightarrow> string" where
  "log_message pf entry = (case entry of JStr s \<Rightarrow> s | v \<Rightarrow> jsonText pf v)"

text \<open>The record the transport emits for an entry, with the span of the context, if any.\<close>

definition log_record :: "app_env \<Rightarrow> rat \<Rightarrow> level \<Rightarrow> string \<Rightarrow> jsval \<Rightarrow> span option \<Rightarrow> signal" where
  "log_record env clock lv message stack sp =
     [(''severityNumber'', JNum (severityNumber lv)), (''severityText'', JStr (level_name lv)), (''body'', JStr message),
      (''timestamp'', JNum clock), (''observedTimestamp'', JNum clock),
      (''attributes'', JObj (spread (case sp of None \<Rightarrow> [] | Some s \<Rightarrow> sp_attributes s)
        [(''traceId'', case sp of None \<Rightarrow> JUndefined | Some s \<Rightarrow> JStr (sp_traceId s)),
         (''spanId'', case sp of None \<Rightarrow> JUndefined | Some s \<Rightarrow> JStr (sp_spanId s)),
         (''stack'', stack),
         (''applicationID'', JStr (ae_applicationID env)), (''applicationVersion'', JStr (ae_applicationVersion env)),
         (''executorID'', JStr (ae_executorID env))]))]"

definition transport_log :: "app_env \<Rightarrow> rat \<Rightarrow> level \<Rightarrow> string \<Rightarrow> jsval \<Rightarrow> span option \<Rightarrow> ('x telemetry, unit) meth" where
  "transport_log env clock lv message stack sp = tl_push (log_record env clock lv message stack sp)"

definition endSpan :: "app_env \<Rightarrow> span \<Rightarrow> ('x telemetry, unit) meth" where
  "endSpan env sp =
     (let a1 = spread (sp_attributes sp) [(''applicationID'', JStr (ae_applicationID env)), (''applicationVersion'', JStr (ae_applicationVersion env))];
          a2 = (if \<not> jm_has a1 ''executorID'' then jm_set ''executorID'' (JStr (ae_executorID env)) a1 else a1) in
      tl_push (jm_set ''attributes'' (JObj a2) (sp_props sp)))"

text \<open>The line on the console, \<open>stack\<close> with its first line left out.\<close>

definition console_line :: "platform \<Rightarrow> string \<Rightarrow> string \<Rightarrow> jsval \<Rightarrow> bool \<Rightarrow> jsval \<Rightarrow> string option \<Rightarrow> string" where
  "console_line pf timestamp coloredLevel message includeContextMetadata attributes stack =
     (let applicationVersion = or_empty (env_var pf ''DBOS__APPVERSION'');
          ts = replace_first ''T'' '' '' (take 19 timestamp);
          formattedStack = (case stack of None \<Rightarrow> ''undefined'' | Some s \<Rightarrow> join_on (CHR 0x0A) (tl (split_on (CHR 0x0A) s)));
          fullMessageString = log_message pf message @ (if includeContextMetadata then '' '' @ jsonText pf attributes else []);
          versionString = (if applicationVersion \<noteq> [] then '' [version '' @ applicationVersion @ '']'' else []) in
      ts @ versionString @ '' ['' @ coloredLevel @ '']: '' @ fullMessageString @ '' '' @
        (if or_undefined stack \<noteq> None then [CHR 0x0A] @ formattedStack else []))"

lemma jm_has_spread: "jm_has (spread a kvs) k \<longleftrightarrow> jm_has a k \<or> jm_has kvs k"
proof (induction kvs arbitrary: a)
  case Nil
  show ?case by (simp add: spread_def jm_has_def)
next
  case (Cons kv kvs)
  obtain j v where kv: "kv = (j, v)" by (cases kv)
  have "spread a (kv # kvs) = spread (jm_set j v a) kvs" by (simp add: spread_def kv)
  then show ?case by (simp add: Cons.IH) (auto simp: jm_has_iff jm_get_set kv)
qed

text \<open>What the loggers make is a log signal and no trace; what the tracer makes of a span with a \<open>kind\<close> is a trace.\<close>

lemma log_record_kind: "isLogSignal (log_record env clock lv message stack sp)" "\<not> isTraceSignal (log_record env clock lv message stack sp)"
  by (simp_all add: isLogSignal_def isTraceSignal_def log_record_def jm_has_def)

end
