(* ===== verification/Migrate.thy ===== *)
theory Migrate
  imports Config
begin

text \<open>
  Migrations (\<open>src/src/dbos-runtime/migrate.ts\<close>, \<open>runAndLog\<close> of \<open>cli.ts\<close>, \<open>init\<close> of \<open>PostgresSystemDatabase\<close> in
  \<open>src/src/system_database.ts\<close>): creation of the application's database, the migration commands of the application, the tables of DBOS in
  both databases, and the rollback.

  A server has databases, each with the tables of the \<open>dbos\<close> schema and the list of the files of \<open>src/migrations\<close> that have been applied; what
  else the commands of the application work on is a type parameter. Parameters (\<open>pg_env\<close>): whether the server refuses a connection or
  a creation, the shell commands, and the library knex that applies the files.

  Names follow the rules of Postgres: a value of type \<open>name\<close> is cut to 63 characters, and an identifier without quotation marks is moreover
  folded to lower case.
\<close>

record pg_database =
  pd_dbos :: db_schema
  pd_migrations :: "string list" \<comment> \<open>the table \<open>knex_migrations\<close>\<close>

record 'a pg_server =
  sv_databases :: "(string, pg_database) jmap"
  sv_app :: 'a

record 'a pg_env =
  pg_refuses :: "PoolConfig \<Rightarrow> jserror option"
  pg_forbids :: "string \<Rightarrow> jserror option" \<comment> \<open>the creation of a database\<close>
  knex_latest :: "pg_database \<Rightarrow> (jserror + unit) \<times> pg_database"
  execSync :: "string \<Rightarrow> 'a pg_server \<Rightarrow> (jserror + string) \<times> 'a pg_server"

section \<open>The server\<close>

definition new_database :: pg_database where
  "new_database = \<lparr>pd_dbos = \<lparr>schemaExists = False, txnOutputTableExists = False, txnIndexExists = False, dataSourceInitialized = False\<rparr>,
     pd_migrations = []\<rparr>"

definition datname :: "string \<Rightarrow> string" where
  "datname s = take 63 s"

definition ident_char :: "char \<Rightarrow> bool" where
  "ident_char c = (name_char (lower_char c) \<or> c = CHR ''$'')"

definition plain_ident :: "string \<Rightarrow> string option" where
  "plain_ident s = (if s \<noteq> [] \<and> \<not> is_digit (hd s) \<and> hd s \<noteq> CHR ''$'' \<and> list_all ident_char s then Some (datname (map lower_char s)) else None)"

definition quoted_ident :: "string \<Rightarrow> string option" where
  "quoted_ident s = (if s \<noteq> [] \<and> CHR 34 \<notin> set s then Some (datname s) else None)"

definition connect :: "'a pg_env \<Rightarrow> PoolConfig \<Rightarrow> ('a pg_server, string) meth" where
  "connect env cfg = (\<lambda>s. case pg_refuses env cfg of
      Some e \<Rightarrow> (Inl e, s)
    | None \<Rightarrow> if jm_has (sv_databases s) (datname (str_of (pl_database cfg))) then (Inr (datname (str_of (pl_database cfg))), s)
        else (Inl (pg_err ''3D000''), s))"

definition create_database :: "'a pg_env \<Rightarrow> string option \<Rightarrow> ('a pg_server, unit) meth" where
  "create_database env ident = (\<lambda>s. case ident of
      None \<Rightarrow> (Inl (pg_err ''42601''), s)
    | Some d \<Rightarrow> (case pg_forbids env d of
        Some e \<Rightarrow> (Inl e, s)
      | None \<Rightarrow> if jm_has (sv_databases s) d then (Inl (pg_err ''42P04''), s)
          else (Inr (), s\<lparr>sv_databases := jm_set d new_database (sv_databases s)\<rparr>)))"

definition db_exists :: "string \<Rightarrow> ('a pg_server, bool) meth" where
  "db_exists nm = getsE (\<lambda>s. jm_has (sv_databases s) (datname nm))"

definition on_db :: "string \<Rightarrow> (pg_database, 'b) meth \<Rightarrow> ('a pg_server, 'b) meth" where
  "on_db d m = (\<lambda>s. case jm_get (sv_databases s) d of
      None \<Rightarrow> (Inl (pg_err ''3D000''), s)
    | Some p \<Rightarrow> (case m p of (r, p') \<Rightarrow> (r, s\<lparr>sv_databases := jm_set d p' (sv_databases s)\<rparr>)))"

definition in_dbos :: "(db_schema, 'b) meth \<Rightarrow> (pg_database, 'b) meth" where
  "in_dbos = zoomE pd_dbos (\<lambda>x p. p\<lparr>pd_dbos := x\<rparr>)"

section \<open>The package\<close>

text \<open>
  \<open>findPackageRoot\<close> of \<open>utils.ts\<close>, which finds the directory of the migrations: the nearest directory above with a file \<open>package.json\<close>. \<open>has\<close> says
  whether \<open>package.json\<close>, joined to a directory, exists; the empty path, which the search comes to at last, is the working directory and not the root.
\<close>

fun find_root :: "(string \<Rightarrow> bool) \<Rightarrow> string list \<Rightarrow> jserror + string" where
  "find_root has [] = Inl (runtime_error ''Error'' ''package.json not found in path'')"
| "find_root has (x # xs) =
     (let start = butlast (x # xs); dir = join_on (CHR ''/'') start in if has dir then Inr dir else find_root has start)"

definition findPackageRoot :: "(string \<Rightarrow> bool) \<Rightarrow> string \<Rightarrow> jserror + string" where
  "findPackageRoot has start =
     find_root has (split_on (CHR ''/'') (if start \<noteq> [] \<and> last start = CHR ''/'' then start else start @ ''/''))"

text \<open>The longest proper prefix of the path that has the file.\<close>

lemma find_root_snoc:
  "find_root has (segs @ [x]) =
     (if has (join_on (CHR ''/'') segs) then Inr (join_on (CHR ''/'') segs) else find_root has segs)"
proof -
  obtain y ys where y: "segs @ [x] = y # ys" by (cases "segs @ [x]") auto
  then have "butlast (y # ys) = segs" by (metis butlast_snoc)
  then show ?thesis unfolding y find_root.simps Let_def by (simp del: butlast.simps)
qed

lemma find_root_nearest:
  "find_root has segs = (case find (\<lambda>n. has (join_on (CHR ''/'') (take n segs))) (rev [0..<length segs]) of
     Some n \<Rightarrow> Inr (join_on (CHR ''/'') (take n segs)) | None \<Rightarrow> Inl (runtime_error ''Error'' ''package.json not found in path''))"
proof (induction segs rule: rev_induct)
  case (snoc x segs)
  have "find (\<lambda>n. has (join_on (CHR ''/'') (take n (segs @ [x])))) (rev [0..<length segs]) =
      find (\<lambda>n. has (join_on (CHR ''/'') (take n segs))) (rev [0..<length segs])"
    by (rule find_cong) auto
  moreover have "n - length segs = 0" if "find P (rev [0..<length segs]) = Some n" for P n
    using that by (auto simp: find_Some_iff rev_nth)
  ultimately show ?case using snoc by (auto simp: find_root_snoc simp del: diff_is_0_eq diff_is_0_eq' split: option.splits)
qed simp

section \<open>The system database\<close>

text \<open>The file \<open>20240123183021_tables.js\<close> creates \<open>dbos.operation_outputs\<close>.\<close>

definition has_operation_outputs :: "pg_database \<Rightarrow> bool" where
  "has_operation_outputs p \<longleftrightarrow> ''20240123183021_tables.js'' \<in> set (pd_migrations p)"

definition migrateSystemDatabase :: "'a pg_env \<Rightarrow> PoolConfig \<Rightarrow> ('a pg_server, unit) meth" where
  "migrateSystemDatabase env systemPoolConfig = bindE (connect env systemPoolConfig) (\<lambda>d. on_db d (knex_latest env))"

text \<open>A failure is passed over when the table is there.\<close>

definition migrate_unless_tables :: "'a pg_env \<Rightarrow> PoolConfig \<Rightarrow> ('a pg_server, unit) meth" where
  "migrate_unless_tables env systemPoolConfig =
     catchE (migrateSystemDatabase env systemPoolConfig) (\<lambda>e.
       bindE (connect env systemPoolConfig) (\<lambda>d.
       bindE (on_db d (getsE has_operation_outputs)) (\<lambda>tableExists. if tableExists then retE () else raiseE e)))"

definition system_pool :: "PoolConfig \<Rightarrow> jsval \<Rightarrow> PoolConfig" where
  "system_pool pgPoolConfig nm = pgPoolConfig\<lparr>pl_database := nm\<rparr>"

definition PostgresSystemDatabase_init :: "'a pg_env \<Rightarrow> PoolConfig \<Rightarrow> string \<Rightarrow> ('a pg_server, unit) meth" where
  "PostgresSystemDatabase_init env pgPoolConfig systemDatabaseName =
     seqE (connect env pgPoolConfig)
     (bindE (db_exists systemDatabaseName) (\<lambda>dbExists.
     seqE (whenE (\<not> dbExists) (create_database env (quoted_ident systemDatabaseName)))
     (migrate_unless_tables env ((system_pool pgPoolConfig (JStr systemDatabaseName))\<lparr>pl_connectionTimeoutMillis := JNum 10000\<rparr>))))"

section \<open>The command\<close>

definition createDBOSTables :: "'a pg_env \<Rightarrow> platform \<Rightarrow> string option \<Rightarrow> jsval \<Rightarrow> ('a pg_server, unit) meth" where
  "createDBOSTables env pf dir configFile =
     bindE (liftE (constructPoolConfig pf dir configFile)) (\<lambda>userPoolConfig.
     let systemPoolConfig = system_pool userPoolConfig
           (nullish (getProp (getProp configFile ''database'') ''sys_db_name'') (JStr (str_of (pl_database userPoolConfig) @ ''_dbos_sys''))) in
     bindE (connect env userPoolConfig) (\<lambda>d.
     seqE (on_db d (in_dbos init_tables))
     (bindE (db_exists (str_of (pl_database systemPoolConfig))) (\<lambda>dbExists.
     seqE (whenE (\<not> dbExists) (create_database env (plain_ident (str_of (pl_database systemPoolConfig)))))
     (seqE (connect env systemPoolConfig)
     (migrate_unless_tables env systemPoolConfig))))))"

definition checkDatabaseExists :: "'a pg_env \<Rightarrow> platform \<Rightarrow> string option \<Rightarrow> jsval \<Rightarrow> ('a pg_server, bool) meth" where
  "checkDatabaseExists env pf dir configFile =
     bindE (liftE (constructPoolConfig pf dir configFile)) (\<lambda>pgUserConfig.
     catchE (seqE (connect env pgUserConfig) (retE True)) (\<lambda>e. retE False))"

definition run_commands :: "'a pg_env \<Rightarrow> jsval \<Rightarrow> ('a pg_server, unit) meth" where
  "run_commands env cmds = (case cmds of
      JArr cs \<Rightarrow> bindE (mapE (\<lambda>cmd. execSync env (str_of cmd)) cs) (\<lambda>_. retE ())
    | JUndefined \<Rightarrow> retE ()
    | JNull \<Rightarrow> retE ()
    | _ \<Rightarrow> raiseE (runtime_error ''TypeError'' ''migrationCommands?.forEach is not a function''))"

text \<open>Exit codes: \<open>code_of m\<close> is 0 when \<open>m\<close> returns and 1 when it throws, the error being logged.\<close>

definition code_of :: "('s, 'b) meth \<Rightarrow> ('s, nat) meth" where
  "code_of m = catchE (seqE m (retE 0)) (\<lambda>e. retE 1)"

definition create_user_database :: "'a pg_env \<Rightarrow> platform \<Rightarrow> string option \<Rightarrow> jsval \<Rightarrow> ('a pg_server, nat) meth" where
  "create_user_database env pf dir configFile =
     bindE (liftE (constructPoolConfig pf dir configFile)) (\<lambda>postgresConfig.
     code_of (seqE (connect env (postgresConfig\<lparr>pl_database := JStr ''postgres''\<rparr>))
       (create_database env (plain_ident (str_of (getProp (getProp configFile ''database'') ''app_db_name''))))))"

text \<open>The next part runs when the code so far is 0.\<close>

definition and_then :: "('s, nat) meth \<Rightarrow> ('s, nat) meth \<Rightarrow> ('s, nat) meth" where
  "and_then m n = bindE m (\<lambda>code. if code = 0 then n else retE code)"

definition migrate :: "'a pg_env \<Rightarrow> platform \<Rightarrow> string option \<Rightarrow> jsval \<Rightarrow> ('a pg_server, nat) meth" where
  "migrate env pf dir configFile =
     and_then (bindE (checkDatabaseExists env pf dir configFile) (\<lambda>exists. if \<not> exists then create_user_database env pf dir configFile else retE 0))
     (and_then (code_of (run_commands env (getProp (getProp configFile ''database'') ''migrate'')))
     (code_of (createDBOSTables env pf dir configFile)))"

definition rollbackMigration :: "'a pg_env \<Rightarrow> jsval \<Rightarrow> ('a pg_server, nat) meth" where
  "rollbackMigration env configFile = code_of (run_commands env (getProp (getProp configFile ''database'') ''rollback''))"

text \<open>An invalid configuration is thrown; an error of the action is logged, and the exit code is 1.\<close>

definition runAndLog :: "platform \<Rightarrow> (jsval \<Rightarrow> ('s, nat) meth) \<Rightarrow> ('s, nat) meth" where
  "runAndLog pf action =
     seqE (liftE (parseConfigFile pf no_options False))
     (bindE (liftE (loadConfigFile pf None dbosConfigFilePath)) (\<lambda>configFile.
     catchE (action configFile) (\<lambda>e. retE 1)))"

section \<open>A migration is complete, and can be repeated\<close>

lemma jm_set_same: "jm_get m k = Some v \<Longrightarrow> jm_set k v m = m"
  by (induction m) (auto split: if_splits)

lemma connect_InrD:
  assumes "connect env cfg s = (Inr d, t)"
  shows "t = s \<and> d = datname (str_of (pl_database cfg)) \<and> jm_has (sv_databases s) d \<and> pg_refuses env cfg = None"
  using assms by (auto simp: connect_def split: option.splits if_splits)

lemma connect_ok: "pg_refuses env cfg = None \<Longrightarrow> jm_get (sv_databases s) (datname (str_of (pl_database cfg))) = Some p \<Longrightarrow>
    connect env cfg s = (Inr (datname (str_of (pl_database cfg))), s)"
  by (simp add: connect_def jm_has_iff)

lemma on_db_run: "jm_get (sv_databases s) d = Some p \<Longrightarrow> m p = (r, p') \<Longrightarrow> on_db d m s = (r, s\<lparr>sv_databases := jm_set d p' (sv_databases s)\<rparr>)"
  by (simp add: on_db_def)

lemma on_db_InrD:
  assumes "on_db d m s = (Inr x, t)"
  obtains p p' where "jm_get (sv_databases s) d = Some p" "m p = (Inr x, p')" "t = s\<lparr>sv_databases := jm_set d p' (sv_databases s)\<rparr>"
  using assms by (auto simp: on_db_def split: option.splits prod.splits)

lemma on_db_unchanged: "jm_get (sv_databases s) d = Some p \<Longrightarrow> m p = (r, p) \<Longrightarrow> on_db d m s = (r, s)"
  by (simp add: on_db_run jm_set_same)

lemma code_of_0: "code_of m s = (Inr 0, t) \<Longrightarrow> \<exists>x. m s = (Inr x, t)"
  by (auto simp: code_of_def em_simps split: prod.splits sum.splits)

lemma code_of_ok: "m s = (Inr x, t) \<Longrightarrow> code_of m s = (Inr 0, t)"
  by (simp add: code_of_def em_simps)

lemma and_then_0:
  assumes "and_then m n s = (Inr 0, t)"
  obtains u where "m s = (Inr 0, u)" "n u = (Inr 0, t)"
  using assms by (auto simp: and_then_def em_simps split: prod.splits sum.splits if_splits)

definition dbos_tables :: "pg_database \<Rightarrow> bool" where
  "dbos_tables p \<longleftrightarrow> schemaExists (pd_dbos p) \<and> txnOutputTableExists (pd_dbos p) \<and> txnIndexExists (pd_dbos p)"

lemma init_tables_InrD: "in_dbos init_tables p = (Inr (), p') \<Longrightarrow> dbos_tables p' \<and> pd_migrations p' = pd_migrations p"
  by (cases "pd_dbos p") (auto simp: in_dbos_def dbos_tables_def init_tables_def create_schema_def create_table_def create_index_def em_simps
      split: if_splits)

lemma init_tables_again: "dbos_tables p \<Longrightarrow> in_dbos init_tables p = (Inr (), p)"
  by (simp add: in_dbos_def dbos_tables_def init_tables_def em_simps)

text \<open>
  What is relied on of knex: \<open>latest\<close> keeps what has been applied and touches nothing else, has applied every file when it returns,
  and does nothing when all are applied.
\<close>

definition knex_ok :: "'a pg_env \<Rightarrow> string list \<Rightarrow> bool" where
  "knex_ok env files \<longleftrightarrow> (\<forall>p r p'. knex_latest env p = (r, p') \<longrightarrow>
     pd_dbos p' = pd_dbos p \<and> set (pd_migrations p) \<subseteq> set (pd_migrations p') \<and> (r = Inr () \<longrightarrow> set files \<subseteq> set (pd_migrations p')) \<and>
     (set files \<subseteq> set (pd_migrations p) \<longrightarrow> r = Inr () \<and> p' = p))"

definition migrated :: "string list \<Rightarrow> pg_database \<Rightarrow> bool" where
  "migrated files p \<longleftrightarrow> set files \<subseteq> set (pd_migrations p)"

lemma knex_again: "knex_ok env files \<Longrightarrow> migrated files p \<Longrightarrow> knex_latest env p = (Inr (), p)"
  unfolding knex_ok_def migrated_def by (metis prod.collapse)

text \<open>The database and its tables of the other kind survive.\<close>

lemma migrateSystemDatabase_effect:
  assumes "knex_ok env files" "migrateSystemDatabase env cfg s = (r, t)"
  shows "(\<forall>d p. jm_get (sv_databases s) d = Some p \<longrightarrow> (\<exists>p'. jm_get (sv_databases t) d = Some p' \<and> pd_dbos p' = pd_dbos p)) \<and>
    (r = Inr () \<longrightarrow> (\<exists>q. jm_get (sv_databases t) (datname (str_of (pl_database cfg))) = Some q \<and> migrated files q))"
proof (cases "connect env cfg s")
  case (Pair x u)
  show ?thesis
  proof (cases x)
    case (Inl e)
    with Pair assms(2) have "t = s" "r = Inl e"
      by (auto simp: migrateSystemDatabase_def bindE_stop connect_def split: option.splits if_splits)
    then show ?thesis by blast
  next
    case (Inr d)
    from connect_InrD [OF Pair [unfolded Inr]] have d: "u = s" "d = datname (str_of (pl_database cfg))" "jm_has (sv_databases s) d" by blast+
    then obtain p where p: "jm_get (sv_databases s) d = Some p" by (auto simp: jm_has_iff)
    obtain q where q: "knex_latest env p = (r, q)" "t = s\<lparr>sv_databases := jm_set d q (sv_databases s)\<rparr>"
      using assms(2) Pair Inr d(1) p by (auto simp: migrateSystemDatabase_def bindE_def on_db_def split: prod.splits)
    have "pd_dbos q = pd_dbos p" "r = Inr () \<longrightarrow> migrated files q" using assms(1) q(1) by (auto simp: knex_ok_def migrated_def)
    with p q(2) d(2) show ?thesis by (auto simp: jm_get_set)
  qed
qed

text \<open>The outcome for the system database: all files applied, or the failure that was passed over.\<close>

definition usable :: "'a pg_env \<Rightarrow> string list \<Rightarrow> pg_database \<Rightarrow> bool" where
  "usable env files q \<longleftrightarrow> migrated files q \<or> has_operation_outputs q \<and> (\<exists>p e p'. knex_latest env p = (Inl e, p'))"

lemma migrate_unless_tables_InrD:
  assumes "knex_ok env files" "migrate_unless_tables env cfg s = (Inr (), t)" "jm_has (sv_databases s) (datname (str_of (pl_database cfg)))"
    and "pg_refuses env cfg = None"
  shows "\<forall>d p. jm_get (sv_databases s) d = Some p \<longrightarrow> (\<exists>p'. jm_get (sv_databases t) d = Some p' \<and> pd_dbos p' = pd_dbos p)"
    and "\<exists>q. jm_get (sv_databases t) (datname (str_of (pl_database cfg))) = Some q \<and> usable env files q"
proof -
  obtain r u where r: "migrateSystemDatabase env cfg s = (r, u)" by fastforce
  note eff = migrateSystemDatabase_effect [OF assms(1) r]
  have "u = t \<and> (r = Inr () \<or> (\<exists>e q. r = Inl e \<and> jm_get (sv_databases t) (datname (str_of (pl_database cfg))) = Some q \<and> has_operation_outputs q))"
  proof (cases r)
    case (Inr x)
    with r assms(2) show ?thesis by (simp add: migrate_unless_tables_def catchE_def)
  next
    case (Inl e)
    with r assms(2) have "bindE (connect env cfg) (\<lambda>d. bindE (on_db d (getsE has_operation_outputs)) (\<lambda>b. if b then retE () else raiseE e)) u = (Inr (), t)"
      by (simp add: migrate_unless_tables_def catchE_def)
    then obtain d w where d: "connect env cfg u = (Inr d, w)" "bindE (on_db d (getsE has_operation_outputs)) (\<lambda>b. if b then retE () else raiseE e) w = (Inr (), t)"
      by (rule bindE_InrD)
    then obtain b x where b: "on_db d (getsE has_operation_outputs) w = (Inr b, x)" "(if b then retE () else raiseE e) x = (Inr (), t)" by (elim bindE_InrD)
    have bt: "b" "x = t" using b(2) by (auto simp: retE_def raiseE_def split: if_splits)
    from b(1) bt have q: "x = w \<and> (\<exists>q. jm_get (sv_databases w) d = Some q \<and> has_operation_outputs q)"
      by (auto simp: on_db_def getsE_def jm_set_same split: option.splits)
    with connect_InrD [OF d(1)] bt Inl show ?thesis by auto
  qed
  note ut = this
  then have t: "migrateSystemDatabase env cfg s = (r, t)" using r by simp
  show "\<forall>d p. jm_get (sv_databases s) d = Some p \<longrightarrow> (\<exists>p'. jm_get (sv_databases t) d = Some p' \<and> pd_dbos p' = pd_dbos p)"
    using eff ut by blast
  show "\<exists>q. jm_get (sv_databases t) (datname (str_of (pl_database cfg))) = Some q \<and> usable env files q"
  proof (cases "r = Inr ()")
    case True
    with eff ut show ?thesis by (auto simp: usable_def)
  next
    case False
    with ut obtain e q where e: "r = Inl e" "jm_get (sv_databases t) (datname (str_of (pl_database cfg))) = Some q" "has_operation_outputs q" by blast
    from assms(3) obtain p where p: "jm_get (sv_databases s) (datname (str_of (pl_database cfg))) = Some p" by (auto simp: jm_has_iff)
    have "migrateSystemDatabase env cfg s = on_db (datname (str_of (pl_database cfg))) (knex_latest env) s"
      using connect_ok [OF assms(4) p] by (simp add: migrateSystemDatabase_def bindE_step)
    then obtain q' where "knex_latest env p = (Inl e, q')" using t e(1) p by (auto simp: on_db_def split: prod.splits)
    with e(2,3) show ?thesis by (auto simp: usable_def)
  qed
qed

lemma migrate_unless_tables_connected:
  assumes "migrate_unless_tables env cfg s = (Inr (), t)"
  shows "jm_has (sv_databases s) (datname (str_of (pl_database cfg))) \<and> pg_refuses env cfg = None"
proof (cases "connect env cfg s")
  case (Pair x u)
  show ?thesis
  proof (cases x)
    case (Inr d)
    with connect_InrD [OF Pair [unfolded Inr]] show ?thesis by blast
  next
    case (Inl e)
    with Pair have "u = s" by (auto simp: connect_def split: option.splits if_splits)
    with Pair Inl assms show ?thesis
      by (simp add: migrate_unless_tables_def migrateSystemDatabase_def catchE_def bindE_stop)
  qed
qed

lemma migrate_unless_tables_again:
  assumes "knex_ok env files" "pg_refuses env cfg = None"
    and "jm_get (sv_databases t) (datname (str_of (pl_database cfg))) = Some q" "migrated files q"
  shows "migrate_unless_tables env cfg t = (Inr (), t)"
  using on_db_unchanged [where m = "knex_latest env", OF assms(3) knex_again [OF assms(1,4)]] connect_ok [OF assms(2,3)]
  by (simp add: migrate_unless_tables_def migrateSystemDatabase_def catchE_def bindE_step)

text \<open>The name of the system database, as the configuration of the executor has it, too.\<close>

definition system_name :: "jsval \<Rightarrow> PoolConfig \<Rightarrow> jsval" where
  "system_name configFile userPoolConfig =
     nullish (getProp (getProp configFile ''database'') ''sys_db_name'') (JStr (str_of (pl_database userPoolConfig) @ ''_dbos_sys''))"

lemma connected_exists:
  assumes "seqE (whenE (\<not> b) (create_database env i)) (seqE (connect env cfg) m) s = (Inr x, t)"
    and "pd_ok = (\<lambda>w. \<forall>d p. jm_get (sv_databases s) d = Some p \<longrightarrow> (\<exists>p'. jm_get (sv_databases w) d = Some p' \<and> pd_dbos p' = pd_dbos p))"
  obtains w where "m w = (Inr x, t)" "pd_ok w" "jm_has (sv_databases w) (datname (str_of (pl_database cfg)))" "pg_refuses env cfg = None"
proof -
  from assms(1) obtain y u where u: "whenE (\<not> b) (create_database env i) s = (Inr y, u)" "seqE (connect env cfg) m u = (Inr x, t)"
    by (rule seqE_InrD)
  from u(2) obtain d w where w: "connect env cfg u = (Inr d, w)" "m w = (Inr x, t)" by (rule seqE_InrD)
  have "pd_ok u" using u(1)
    by (auto simp: assms(2) whenE_def retE_def create_database_def jm_get_set jm_has_iff split: if_splits option.splits)
  with connect_InrD [OF w(1)] w(2) that show ?thesis by auto
qed

lemma bindE_liftE: "bindE (liftE (Inr x)) f = f x"
  by (simp add: bindE_def liftE_def)

lemma createDBOSTables_InrD:
  assumes "knex_ok env files" "createDBOSTables env pf dir c s = (Inr (), t)"
  obtains u p q where "constructPoolConfig pf dir c = Inr u"
    "jm_get (sv_databases t) (datname (str_of (pl_database u))) = Some p" "dbos_tables p"
    "jm_get (sv_databases t) (datname (str_of (system_name c u))) = Some q" "usable env files q"
    "pg_refuses env u = None" "pg_refuses env (system_pool u (system_name c u)) = None"
proof -
  obtain u where u: "constructPoolConfig pf dir c = Inr u"
    using assms(2) by (cases "constructPoolConfig pf dir c") (auto simp: createDBOSTables_def bindE_def liftE_def)
  let ?sc = "system_pool u (system_name c u)"
  have sc: "pl_database ?sc = system_name c u" by (simp add: system_pool_def)
  have "bindE (connect env u) (\<lambda>d. seqE (on_db d (in_dbos init_tables)) (bindE (db_exists (str_of (pl_database ?sc))) (\<lambda>dbExists.
      seqE (whenE (\<not> dbExists) (create_database env (plain_ident (str_of (pl_database ?sc))))) (seqE (connect env ?sc) (migrate_unless_tables env ?sc))))) s = (Inr (), t)"
    using assms(2) by (simp add: createDBOSTables_def u bindE_liftE system_name_def Let_def)
  then obtain d s1 where s1: "connect env u s = (Inr d, s1)" "seqE (on_db d (in_dbos init_tables)) (bindE (db_exists (str_of (pl_database ?sc))) (\<lambda>dbExists.
      seqE (whenE (\<not> dbExists) (create_database env (plain_ident (str_of (pl_database ?sc))))) (seqE (connect env ?sc) (migrate_unless_tables env ?sc)))) s1 = (Inr (), t)"
    by (rule bindE_InrD)
  from s1(2) obtain x s2 where s2: "on_db d (in_dbos init_tables) s1 = (Inr x, s2)" "bindE (db_exists (str_of (pl_database ?sc))) (\<lambda>dbExists.
      seqE (whenE (\<not> dbExists) (create_database env (plain_ident (str_of (pl_database ?sc))))) (seqE (connect env ?sc) (migrate_unless_tables env ?sc))) s2 = (Inr (), t)"
    by (rule seqE_InrD)
  obtain p where p: "jm_get (sv_databases s2) d = Some p" "dbos_tables p"
    using s2(1) by (auto simp: on_db_def jm_get_set dest!: init_tables_InrD split: option.splits prod.splits)
  from s2(2) obtain b where "seqE (whenE (\<not> b) (create_database env (plain_ident (str_of (pl_database ?sc))))) (seqE (connect env ?sc) (migrate_unless_tables env ?sc)) s2 = (Inr (), t)"
    by (auto simp: db_exists_def)
  from connected_exists [OF this refl] obtain w where w: "migrate_unless_tables env ?sc w = (Inr (), t)"
    "\<forall>d p. jm_get (sv_databases s2) d = Some p \<longrightarrow> (\<exists>p'. jm_get (sv_databases w) d = Some p' \<and> pd_dbos p' = pd_dbos p)"
    "jm_has (sv_databases w) (datname (str_of (pl_database ?sc)))" "pg_refuses env ?sc = None" .
  note sys = migrate_unless_tables_InrD [OF assms(1) w(1,3,4)]
  from w(2) p(1) sys(1) obtain p' where "jm_get (sv_databases t) d = Some p'" "pd_dbos p' = pd_dbos p" by metis
  with p(2) sys(2) connect_InrD [OF s1(1)] that u w(4) show ?thesis
    by (auto simp: dbos_tables_def sc)
qed

lemma createDBOSTables_again:
  assumes "knex_ok env files" "constructPoolConfig pf dir c = Inr u" "pg_refuses env u = None" "pg_refuses env (system_pool u (system_name c u)) = None"
    and "jm_get (sv_databases t) (datname (str_of (pl_database u))) = Some p" "dbos_tables p"
    and "jm_get (sv_databases t) (datname (str_of (system_name c u))) = Some q" "migrated files q"
  shows "createDBOSTables env pf dir c t = (Inr (), t)"
proof -
  let ?sc = "system_pool u (system_name c u)"
  have sc: "pl_database ?sc = system_name c u" by (simp add: system_pool_def)
  have q: "jm_get (sv_databases t) (datname (str_of (pl_database ?sc))) = Some q" by (simp add: sc assms(7))
  note steps = connect_ok [OF assms(3,5)] on_db_unchanged [where m = "in_dbos init_tables", OF assms(5) init_tables_again [OF assms(6)]]
    connect_ok [OF assms(4) q] migrate_unless_tables_again [OF assms(1,4) q assms(8)]
  have "db_exists (str_of (pl_database ?sc)) t = (Inr True, t)" using q by (simp add: db_exists_def getsE_def jm_has_iff)
  with steps assms(2) show ?thesis
    by (simp add: createDBOSTables_def liftE_def bindE_def seqE_def whenE_def retE_def Let_def flip: system_name_def)
qed

lemma PostgresSystemDatabase_init_again:
  assumes "knex_ok env files" "pg_refuses env u = None" "\<And>n. pg_refuses env ((system_pool u n)\<lparr>pl_connectionTimeoutMillis := JNum 10000\<rparr>) = None"
    and "jm_get (sv_databases t) (datname (str_of (pl_database u))) = Some p"
    and "jm_get (sv_databases t) (datname nm) = Some q" "migrated files q"
  shows "PostgresSystemDatabase_init env u nm t = (Inr (), t)"
proof -
  let ?sc = "(system_pool u (JStr nm))\<lparr>pl_connectionTimeoutMillis := JNum 10000\<rparr>"
  have q: "jm_get (sv_databases t) (datname (str_of (pl_database ?sc))) = Some q" by (simp add: system_pool_def str_of_def assms(5))
  have "db_exists nm t = (Inr True, t)" using assms(5) by (simp add: db_exists_def getsE_def jm_has_iff)
  with connect_ok [OF assms(2,4)] migrate_unless_tables_again [OF assms(1) assms(3) q assms(6)] show ?thesis
    by (simp add: PostgresSystemDatabase_init_def bindE_def seqE_def whenE_def retE_def)
qed

lemma migrate_0:
  assumes "migrate env pf dir c s = (Inr 0, t)"
  obtains w where "createDBOSTables env pf dir c w = (Inr (), t)"
proof -
  from assms obtain s1 where "and_then (code_of (run_commands env (getProp (getProp c ''database'') ''migrate''))) (code_of (createDBOSTables env pf dir c)) s1 = (Inr 0, t)"
    unfolding migrate_def by (rule and_then_0)
  then obtain w where "code_of (createDBOSTables env pf dir c) w = (Inr 0, t)" by (rule and_then_0)
  with code_of_0 that show ?thesis by fastforce
qed

lemma migrate_again:
  assumes "createDBOSTables env pf dir c t = (Inr (), t)" "run_commands env (getProp (getProp c ''database'') ''migrate'') t = (Inr (), t)"
    and "constructPoolConfig pf dir c = Inr u" "pg_refuses env u = None" "jm_get (sv_databases t) (datname (str_of (pl_database u))) = Some p"
  shows "migrate env pf dir c t = (Inr 0, t)"
proof -
  have "checkDatabaseExists env pf dir c t = (Inr True, t)"
    using connect_ok [OF assms(4,5)] assms(3) by (simp add: checkDatabaseExists_def liftE_def bindE_def catchE_def seqE_def retE_def)
  with code_of_ok [where m = "createDBOSTables env pf dir c", OF assms(1)]
    code_of_ok [where m = "run_commands env (getProp (getProp c ''database'') ''migrate'')", OF assms(2)] show ?thesis
    by (simp add: migrate_def and_then_def bindE_def retE_def)
qed

text \<open>A file that fails on an existing system database is passed over: the migration reports success, with the file not applied.\<close>

lemma failed_upgrade_passes:
  assumes "pg_refuses env cfg = None" "jm_get (sv_databases s) (datname (str_of (pl_database cfg))) = Some q"
    and "knex_latest env q = (Inl e, q)" "has_operation_outputs q"
  shows "migrate_unless_tables env cfg s = (Inr (), s)"
  using assms(4) connect_ok [OF assms(1,2)] on_db_unchanged [where m = "knex_latest env", OF assms(2,3)]
    on_db_unchanged [where m = "getsE has_operation_outputs", OF assms(2), of "Inr True"]
  by (simp add: migrate_unless_tables_def migrateSystemDatabase_def catchE_def bindE_step getsE_def retE_def)

text \<open>A name with capital letters is looked for as it is, and created in lower case: the command can never connect to what it creates.\<close>

lemma capital_name_fails:
  assumes "plain_ident nm = Some d" "d \<noteq> datname nm" "\<not> jm_has (sv_databases s) (datname nm)" "create_database env (plain_ident nm) s = (Inr (), t)"
  shows "\<exists>e. connect env (system_pool u (JStr nm)) t = (Inl e, t)"
  using assms by (auto simp: create_database_def connect_def system_pool_def str_of_def jm_has_iff jm_get_set split: option.splits if_splits)

lemma PostgresSystemDatabase_init_InrD:
  assumes "knex_ok env files" "PostgresSystemDatabase_init env u nm s = (Inr (), t)"
  shows "\<forall>d p. jm_get (sv_databases s) d = Some p \<longrightarrow> (\<exists>p'. jm_get (sv_databases t) d = Some p' \<and> pd_dbos p' = pd_dbos p)"
    and "\<exists>q. jm_get (sv_databases t) (datname nm) = Some q \<and> usable env files q"
proof -
  let ?sc = "(system_pool u (JStr nm))\<lparr>pl_connectionTimeoutMillis := JNum 10000\<rparr>"
  have nm: "str_of (pl_database ?sc) = nm" by (simp add: system_pool_def str_of_def)
  from assms(2) obtain d s1 where s1: "connect env u s = (Inr d, s1)"
    "bindE (db_exists nm) (\<lambda>b. seqE (whenE (\<not> b) (create_database env (quoted_ident nm))) (migrate_unless_tables env ?sc)) s1 = (Inr (), t)"
    unfolding PostgresSystemDatabase_init_def by (rule seqE_InrD)
  then obtain b where "seqE (whenE (\<not> b) (create_database env (quoted_ident nm))) (migrate_unless_tables env ?sc) s1 = (Inr (), t)"
    by (auto simp: db_exists_def)
  then obtain x w where w: "whenE (\<not> b) (create_database env (quoted_ident nm)) s1 = (Inr x, w)" "migrate_unless_tables env ?sc w = (Inr (), t)"
    by (rule seqE_InrD)
  have "\<forall>d p. jm_get (sv_databases s) d = Some p \<longrightarrow> jm_get (sv_databases w) d = Some p"
    using w(1) connect_InrD [OF s1(1)]
    by (auto simp: whenE_def retE_def create_database_def jm_get_set jm_has_iff split: if_splits option.splits)
  moreover note conn = migrate_unless_tables_connected [OF w(2)]
  note eff = migrate_unless_tables_InrD [OF assms(1) w(2) conjunct1 [OF conn] conjunct2 [OF conn]]
  ultimately show "\<forall>d p. jm_get (sv_databases s) d = Some p \<longrightarrow> (\<exists>p'. jm_get (sv_databases t) d = Some p' \<and> pd_dbos p' = pd_dbos p)"
    by blast
  show "\<exists>q. jm_get (sv_databases t) (datname nm) = Some q \<and> usable env files q" using eff(2) by (simp only: nm)
qed

end
