(* ===== verification/Startup.thy ===== *)
theory Startup
  imports Lifecycle Migrate
begin

text \<open>
  The life of an executor (\<open>src/src/dbos-executor.ts\<close>: the environment it sets, \<open>configureDbClient\<close>, \<open>init\<close>, the timer of the
  flushes, \<open>destroy\<close>, and the names of stored procedures). The theory shows what an initialization has done when it returns, that one in debug mode writes
  nothing, and what a shutdown has written.

  The state joins what other theories model apart: the server with its databases (\<open>Migrate\<close>), the state of the executor (\<open>Executor\<close>), its
  registries, and the flags of its life cycle. Classes are given with their entities, their registered operations and the
  \<open>initialize\<close> methods of their configured instances. Modules to be loaded, constructors of the drivers, and what an \<open>AggregateError\<close> joins are parameters.
\<close>

section \<open>The environment\<close>

definition obj_entries :: "jsval \<Rightarrow> (string \<times> jsval) list" where
  "obj_entries v = (case v of JObj kvs \<Rightarrow> kvs | _ \<Rightarrow> [])"

text \<open>Entries that are strings are set, the others are reported.\<close>

definition set_env :: "(string \<times> jsval) list \<Rightarrow> (string \<rightharpoonup> string) \<Rightarrow> (string \<rightharpoonup> string)" where
  "set_env entries e = foldl (\<lambda>e (key, v). case v of JStr s \<Rightarrow> e(key \<mapsto> s) | _ \<Rightarrow> e) e entries"

section \<open>The executor\<close>

record ('u, 'x) init_op =
  io_registration :: "('u, 'x) MethodRegistration"
  io_receivers :: "nat list"
  io_init :: bool
  io_origFunction :: "(('u, 'x) dbos, unit) meth"

record ('u, 'x) class_info =
  ci_ormEntities :: jsval
  ci_operations :: "('u, 'x) init_op list"
  ci_configuredInstances :: "(string, (('u, 'x) dbos, unit) meth) jmap"

record ('u, 'x, 'a) live =
  lx_dbos :: "('u, 'x) dbos"
  lx_server :: "'a pg_server"
  lx_registry :: "('u, 'x) registry"
  lx_registeredOperations :: "('u, 'x) init_op list"
  lx_eventReceivers :: "nat list"
  lx_typeormEntities :: "jsval list"
  lx_drizzleEntities :: "(string \<times> jsval) list"
  lx_userDatabase :: "UserDatabaseName option"
  lx_initialized :: bool
  lx_isFlushingBuffers :: bool

record ('u, 'x, 'a) boot =
  bt_executor :: "('u, 'x) DBOSExecutor" \<comment> \<open>its registry is replaced by the one of the state\<close>
  bt_config :: DBOSConfig
  bt_debugMode :: bool
  bt_pg :: "'a pg_env"
  bt_require :: "string \<Rightarrow> jserror option"
  bt_dataSource :: "jserror option"
  bt_aggregate :: "jserror \<Rightarrow> jserror list option"
  bt_others :: "(sysdb \<Rightarrow> sysdb) list"
  bt_allClasses :: "('u, 'x) class_info list" \<comment> \<open>\<open>getAllRegisteredClasses\<close>\<close>

text \<open>
  The constructor: the environment, the proxy of the debugger, which replaces the host and port of the connection (\<open>new URL\<close> and \<open>parseInt\<close> are the parameter
  \<open>parseURL\<close>), and an executor that is not initialized.
\<close>

definition debug_pool :: "(string \<Rightarrow> jserror + string \<times> jsval) \<Rightarrow> bool \<Rightarrow> string option \<Rightarrow> PoolConfig \<Rightarrow> jserror + PoolConfig" where
  "debug_pool parseURL debugMode debugProxy pool = (case or_undefined debugProxy of
      Some url \<Rightarrow> if debugMode then bindR (parseURL url) (\<lambda>(host, port). Inr (pool\<lparr>pl_host := JStr host, pl_port := port\<rparr>)) else Inr pool
    | None \<Rightarrow> Inr pool)"

definition new_live :: "('u, 'x) dbos \<Rightarrow> 'a pg_server \<Rightarrow> ('u, 'x, 'a) live" where
  "new_live d server = \<lparr>lx_dbos = d, lx_server = server, lx_registry = empty_registry, lx_registeredOperations = [], lx_eventReceivers = [],
     lx_typeormEntities = [], lx_drizzleEntities = [], lx_userDatabase = None, lx_initialized = False, lx_isFlushingBuffers = False\<rparr>"

definition new_DBOSExecutor ::
    "(string \<Rightarrow> jserror + string \<times> jsval) \<Rightarrow> string option \<Rightarrow> ('u, 'x, 'a) boot \<Rightarrow> ('u, 'x) dbos \<Rightarrow> 'a pg_server \<Rightarrow> (string \<rightharpoonup> string) \<Rightarrow>
     jserror + ('u, 'x, 'a) boot \<times> ('u, 'x, 'a) live \<times> (string \<rightharpoonup> string)" where
  "new_DBOSExecutor parseURL debugProxy b d server env =
     bindR (debug_pool parseURL (bt_debugMode b) debugProxy (dc_poolConfig (bt_config b))) (\<lambda>pool.
     Inr (b\<lparr>bt_config := (bt_config b)\<lparr>dc_poolConfig := pool\<rparr>\<rparr>, new_live d server, set_env (obj_entries (dc_env (bt_config b))) env))"

definition on_server :: "('a pg_server, 'b) meth \<Rightarrow> (('u, 'x, 'a) live, 'b) meth" where
  "on_server = zoomE lx_server (\<lambda>v s. s\<lparr>lx_server := v\<rparr>)"

definition on_dbos_state :: "(('u, 'x) dbos, 'b) meth \<Rightarrow> (('u, 'x, 'a) live, 'b) meth" where
  "on_dbos_state = zoomE lx_dbos (\<lambda>v s. s\<lparr>lx_dbos := v\<rparr>)"

definition on_registry :: "(('u, 'x) registry, 'b) meth \<Rightarrow> (('u, 'x, 'a) live, 'b) meth" where
  "on_registry = zoomE lx_registry (\<lambda>v s. s\<lparr>lx_registry := v\<rparr>)"

definition load_entities :: "('u, 'x) class_info \<Rightarrow> (('u, 'x, 'a) live, unit) meth" where
  "load_entities reg = modifyE (\<lambda>s. case ci_ormEntities reg of
      JArr es \<Rightarrow> s\<lparr>lx_typeormEntities := lx_typeormEntities s @ es\<rparr>
    | v \<Rightarrow> s\<lparr>lx_drizzleEntities := foldl (\<lambda>m (k, x). jm_set k x m) (lx_drizzleEntities s) (obj_entries v)\<rparr>)"

text \<open>The module of TypeORM is loaded outside the \<open>try\<close>; an error of its constructor is reported, and there is no user database.\<close>

definition require_module :: "('u, 'x, 'a) boot \<Rightarrow> string \<Rightarrow> (('u, 'x, 'a) live, unit) meth" where
  "require_module b nm = (case bt_require b nm of Some e \<Rightarrow> raiseE e | None \<Rightarrow> retE ())"

definition use_database :: "UserDatabaseName \<Rightarrow> (('u, 'x, 'a) live, unit) meth" where
  "use_database kind = modifyE (\<lambda>s. s\<lparr>lx_userDatabase := Some kind\<rparr>)"

definition configureDbClient :: "('u, 'x, 'a) boot \<Rightarrow> (('u, 'x, 'a) live, unit) meth" where
  "configureDbClient b =
     (let userDbClient = dc_userDbclient (bt_config b) in
      if userDbClient = JStr ''prisma'' then seqE (require_module b ''@prisma/client'') (use_database PRISMA)
      else if userDbClient = JStr ''typeorm'' then
        seqE (require_module b ''typeorm'') (if bt_dataSource b = None then use_database TYPEORM else retE ())
      else if userDbClient = JStr ''knex'' then use_database KNEX
      else if userDbClient = JStr ''drizzle'' then seqE (require_module b ''drizzle-orm/node-postgres'') (use_database DRIZZLE)
      else use_database PGNODE)"

definition register_op :: "('u, 'x) init_op \<Rightarrow> (('u, 'x, 'a) live, unit) meth" where
  "register_op ro =
     seqE (on_registry (registerClass [io_registration ro]))
       (modifyE (\<lambda>s. s\<lparr>lx_eventReceivers := foldl (\<lambda>rs rcvr. if rcvr \<in> set rs then rs else rs @ [rcvr]) (lx_eventReceivers s) (io_receivers ro)\<rparr>))"

definition registerClass_of :: "('u, 'x) class_info \<Rightarrow> (('u, 'x, 'a) live, unit) meth" where
  "registerClass_of cls =
     seqE (modifyE (\<lambda>s. s\<lparr>lx_registeredOperations := lx_registeredOperations s @ ci_operations cls\<rparr>))
     (bindE (mapE register_op (ci_operations cls)) (\<lambda>_. retE ()))"

text \<open>In debug mode, only TypeORM connects.\<close>

definition init_user_database :: "('u, 'x, 'a) boot \<Rightarrow> UserDatabaseName \<Rightarrow> (('u, 'x, 'a) live, unit) meth" where
  "init_user_database b kind =
     (if bt_debugMode b \<and> kind \<noteq> TYPEORM then retE ()
      else on_server (bindE (connect (bt_pg b) (dc_poolConfig (bt_config b))) (\<lambda>d. on_db d (in_dbos (init_userdb kind (bt_debugMode b))))))"

definition executor_now :: "('u, 'x, 'a) boot \<Rightarrow> ('u, 'x, 'a) live \<Rightarrow> ('u, 'x) DBOSExecutor" where
  "executor_now b s = (bt_executor b)\<lparr>dx_registry := lx_registry s\<rparr>"

definition init_databases :: "('u, 'x, 'a) boot \<Rightarrow> UserDatabaseName \<Rightarrow> (('u, 'x, 'a) live, unit) meth" where
  "init_databases b kind =
     seqE (init_user_database b kind)
     (whenE (\<not> bt_debugMode b)
       (seqE (on_server (PostgresSystemDatabase_init (bt_pg b) (dc_poolConfig (bt_config b)) (str_of (dc_system_database (bt_config b)))))
       (bindE (\<lambda>s. on_dbos_state (recoverPendingWorkflows (executor_now b s) (bt_others b) [''local'']) s) (\<lambda>_. retE ()))))"

definition init_executor :: "('u, 'x, 'a) boot \<Rightarrow> ('u, 'x) class_info list \<Rightarrow> (('u, 'x, 'a) live, unit) meth" where
  "init_executor b classes =
     seqE (mapE load_entities classes)
     (seqE (configureDbClient b)
     (bindE (getsE lx_userDatabase) (\<lambda>udb. case udb of
        None \<Rightarrow> raiseE (DBOSInitializationError ''No user database configured!'')
      | Some kind \<Rightarrow> seqE (mapE registerClass_of classes) (init_databases b kind))))"

definition init_error :: "('u, 'x, 'a) boot \<Rightarrow> jserror \<Rightarrow> jserror" where
  "init_error b err = DBOSInitializationError (''Failed to initialize workflow executor: '' @
     (case bt_aggregate b err of Some es \<Rightarrow> concat (map (\<lambda>e. err_message e @ ''; '') es) | None \<Rightarrow> err_message err))"

text \<open>Configured instances, class by class, and then the methods marked for initialization.\<close>

definition run_initializers :: "('u, 'x) class_info list \<Rightarrow> (('u, 'x, 'a) live, unit) meth" where
  "run_initializers classes =
     seqE (mapE (\<lambda>cls. mapE (\<lambda>(_, cfg). on_dbos_state cfg) (ci_configuredInstances cls)) classes)
     (bindE (getsE lx_registeredOperations) (\<lambda>ops.
     bindE (mapE (\<lambda>m. whenE (io_init m) (on_dbos_state (io_origFunction m))) ops) (\<lambda>_. retE ())))"

definition init_classes :: "('u, 'x, 'a) boot \<Rightarrow> ('u, 'x) class_info list \<Rightarrow> ('u, 'x) class_info list" where
  "init_classes b classes = (if classes = [] then bt_allClasses b else classes)"

definition init :: "('u, 'x, 'a) boot \<Rightarrow> ('u, 'x) class_info list \<Rightarrow> (('u, 'x, 'a) live, unit) meth" where
  "init b classes = bindE (getsE lx_initialized) (\<lambda>done.
     if done then retE ()
     else seqE (catchE (init_executor b (init_classes b classes)) (\<lambda>err. raiseE (init_error b err)))
       (seqE (modifyE (\<lambda>s. s\<lparr>lx_initialized := True\<rparr>))
       (whenE (\<not> bt_debugMode b) (run_initializers (init_classes b classes)))))"

section \<open>Flushing and shutting down\<close>

text \<open>What the databases do during a flush: faults and arrivals for the three buffers.\<close>

record flush_io =
  fi_results :: "(jserror option \<times> (uuid \<times> (nat, BufferedResult) jmap) list) list"
  fi_statuses :: "io list"
  fi_inputs :: "io list"

definition flush_buffers :: "('u, 'x, 'a) boot \<Rightarrow> flush_io \<Rightarrow> (('u, 'x, 'a) live, unit) meth" where
  "flush_buffers b fio =
     seqE (\<lambda>s. on_dbos_state (flushWorkflowBuffers (executor_now b s) (lx_initialized s) (fi_results fio) (fi_statuses fio) (fi_inputs fio)) s)
       (modifyE (\<lambda>s. s\<lparr>lx_isFlushingBuffers := False\<rparr>))"

text \<open>The timer starts a flush; it runs beside the rest until \<open>flush_buffers\<close> has ended.\<close>

definition flush_starts :: "('u, 'x, 'a) boot \<Rightarrow> ('u, 'x, 'a) live \<Rightarrow> bool" where
  "flush_starts b s \<longleftrightarrow> \<not> bt_debugMode b \<and> \<not> lx_isFlushingBuffers s"

definition flush_timer :: "('u, 'x, 'a) boot \<Rightarrow> flush_io \<Rightarrow> (('u, 'x, 'a) live, unit) meth" where
  "flush_timer b fio = (\<lambda>s. if flush_starts b s then flush_buffers b fio (s\<lparr>lx_isFlushingBuffers := True\<rparr>) else (Inr (), s))"

text \<open>
  \<open>settle\<close> is what the pending workflows do until they have finished. A flush in the background, if there is one, ends while
  \<open>destroy\<close> waits, and does \<open>rest\<close>; then \<open>destroy\<close> does not flush itself.
\<close>

definition destroy :: "('u, 'x, 'a) boot \<Rightarrow> (('u, 'x) dbos \<Rightarrow> ('u, 'x) dbos) \<Rightarrow> (('u, 'x) dbos \<Rightarrow> ('u, 'x) dbos) \<Rightarrow> flush_io \<Rightarrow>
    (('u, 'x, 'a) live, unit) meth" where
  "destroy b settle rest fio =
     seqE (modifyE (\<lambda>s. s\<lparr>lx_dbos := settle (lx_dbos s)\<rparr>))
     (bindE (getsE (flush_starts b)) (\<lambda>own.
     seqE (whenE own (flush_buffers b fio))
     (bindE (getsE lx_isFlushingBuffers) (\<lambda>waiting.
     whenE waiting (modifyE (\<lambda>s. s\<lparr>lx_dbos := rest (lx_dbos s), lx_isFlushingBuffers := False\<rparr>))))))"

section \<open>Stored procedures\<close>

definition procedure_name :: "string option \<Rightarrow> string \<Rightarrow> string \<Rightarrow> string" where
  "procedure_name appVersion procClassName name =
     (let plainProcName = procClassName @ ''_'' @ name @ ''_p'' in
      case or_undefined appVersion of Some v \<Rightarrow> ''v'' @ v @ ''_'' @ plainProcName | None \<Rightarrow> plainProcName)"

definition call_sql :: "string \<Rightarrow> nat \<Rightarrow> string" where
  "call_sql procName n = ''CALL '' @ CHR 34 # procName @ CHR 34 # ''('' @
     join_on (CHR '','') (map (\<lambda>i. CHR ''$'' # nat_str (i + 1)) [0..<n]) @ '');''"

datatype notice_level = NInfo | NWarn | NDebug | NError

definition logNotice :: "string \<Rightarrow> string \<Rightarrow> notice_level \<times> string" where
  "logNotice severity message =
     (if severity \<in> {''INFO'', ''LOG'', ''NOTICE''} then (NInfo, message)
      else if severity = ''WARNING'' then (NWarn, message)
      else if severity = ''DEBUG'' then (NDebug, message)
      else if severity \<in> {''ERROR'', ''FATAL'', ''PANIC''} then (NError, message)
      else (NError, ''Unknown notice severity: '' @ severity @ '' - '' @ message))"

section \<open>What a shutdown has written\<close>

text \<open>The flush of the transaction outputs leaves the system database alone, the flush of the inputs the statuses.\<close>

lemma arrived_system: "systemDatabase (arrived xs s) = systemDatabase s"
  by simp

lemma flushResultBatches_system:
  "flushResultBatches sq evs fin tot (l, s) = (r, (l', t)) \<Longrightarrow> systemDatabase t = systemDatabase s"
proof (induction "length l" arbitrary: evs fin l s rule: less_induct)
  case less
  from less.prems show ?case
  proof (cases rule: flushResultBatches_turn)
    case (stop xs)
    then show ?thesis by simp
  next
    case (go rows x s1 xs)
    have "length (jm_del_all (map fst (take 50 l)) l) < length l"
      using go(1) by (intro jm_del_all_shorter) (auto dest: in_set_takeD)
    from less.hyps [OF this go(6)] go(3) show ?thesis by (auto simp: on_user_run split: prod.splits)
  qed
qed

lemma flushWorkflowResultBuffer_system:
  "flushWorkflowResultBuffer dx evs s = (r, t) \<Longrightarrow> r = Inr () \<and> systemDatabase t = systemDatabase s"
  by (auto simp: flushWorkflowResultBuffer_def dest!: flushResultBatches_system split: prod.splits sum.splits)

lemma flushInputsBatches_status:
  "flushInputsBatches evs fin tot (l, db) = (r, (l', db')) \<Longrightarrow> distinct (map fst l) \<Longrightarrow> tot \<le> fin + length l \<Longrightarrow>
   \<forall>e \<in> set evs. io_error e \<noteq> Some Diverges \<Longrightarrow> workflow_status db' = workflow_status db"
proof (induction "tot - fin" arbitrary: evs fin l db rule: less_induct)
  case less
  from less.prems show ?case
  proof (cases rule: flushInputsBatches_step)
    case (finished r e)
    then show ?thesis by (auto simp: arrive_def)
  next
    case (skip n)
    then show ?thesis using less.hyps [OF _ skip(3) less.prems(2)] less.prems by auto
  next
    case (batch n b rows d)
    note sub = scan_inputs_sub [OF batch(2)]
    have b: "length l \<le> n + length (jm_del_all (map fst b) l)"
      using length_del_all [OF less.prems(2) sub(1) sub(2) [OF less.prems(2)]] sub(3) by linarith
    have "distinct (map fst (jm_del_all (map fst b) l))" using less.prems(2) by (rule distinct_del_all)
    moreover have "\<forall>e \<in> set (tl evs). io_error e \<noteq> Some Diverges" using less.prems(4) by (cases evs) auto
    ultimately have "workflow_status db' = workflow_status (arrive (next_io evs) d)"
      using less.hyps [OF _ batch(7)] batch(1,3) b less.prems(3) by auto
    also have "\<dots> = workflow_status d" by (simp add: arrive_def)
    also have "\<dots> = workflow_status db" using insert_inputs_effect(2) [OF batch(6)] by (metis sysdb.ext_inject sysdb.surjective sysdb.update_convs(3))
    finally show ?thesis .
  qed
qed

lemma flushWorkflowInputsBuffer_status:
  assumes "distinct (map fst (workflowInputsBuffer db))" "\<forall>e \<in> set evs. io_error e \<noteq> Some Diverges" "flushWorkflowInputsBuffer evs db = (r, db')"
  shows "r = Inr () \<and> workflow_status db' = workflow_status db"
proof -
  obtain q l d where run: "flushInputsBatches evs 0 (length (workflowInputsBuffer db))
      (workflowInputsBuffer db, db\<lparr>workflowInputsBuffer := []\<rparr>) = (q, (l, d))" by (metis prod.exhaust)
  have "q \<noteq> Inl Diverges" using flushInputsBatches_once [OF run assms(1) _ assms(2)] by simp
  with flushInputsBatches_status [OF run assms(1) _ assms(2)] assms(3) run show ?thesis
    by (cases q) (auto simp: flushWorkflowInputsBuffer_def Let_def em_simps split: if_splits)
qed

lemma flushStatusBatches_inputs:
  "flushStatusBatches [] fin tot (l, db) = (r, (l', d)) \<Longrightarrow> workflowInputsBuffer d = workflowInputsBuffer db"
proof (induction l arbitrary: fin db rule: length_induct)
  case (1 l)
  let ?b = "take flushBatchSize l"
  show ?case
  proof (cases "fin < tot \<and> (\<exists>rows. status_values (now db) ?b = Inr rows) \<and> ?b \<noteq> []")
    case False
    with "1.prems" show ?thesis
      by (subst (asm) flushStatusBatches.simps) (auto simp: Let_def next_io_def arrive_def put_all_def split: if_splits sum.splits)
  next
    case True
    then obtain rows where rows: "fin < tot" "status_values (now db) ?b = Inr rows" "?b \<noteq> []" by blast
    with "1.prems" have run: "flushStatusBatches [] (fin + length ?b) tot (jm_del_all (map fst ?b) l, arrive quiet (upsert_statuses rows db)) = (r, (l', d))"
      by (subst (asm) flushStatusBatches.simps) (simp add: Let_def next_io_def)
    have "length (jm_del_all (map fst ?b) l) < length l"
      using rows(3) by (intro jm_del_all_shorter) (auto dest: in_set_takeD)
    with "1.IH" run have "workflowInputsBuffer d = workflowInputsBuffer (arrive quiet (upsert_statuses rows db))" by blast
    then show ?thesis by (simp add: arrive_def put_all_def)
  qed
qed

lemma flushWorkflowStatusBuffer_inputs:
  assumes "flushWorkflowStatusBuffer [] db = (Inr (), db')"
  shows "workflowInputsBuffer db' = workflowInputsBuffer db"
proof -
  obtain q l d where run: "flushStatusBatches [] 0 (length (workflowStatusBuffer db))
      (workflowStatusBuffer db, db\<lparr>workflowStatusBuffer := []\<rparr>) = (q, (l, d))" by (metis prod.exhaust)
  from flushStatusBatches_inputs [OF run] flushWorkflowStatusBuffer_eq [OF run] assms show ?thesis by simp
qed

lemma flush_writes_statuses:
  assumes "distinct (map fst (workflowStatusBuffer (systemDatabase s)))" "\<forall>(u, st) \<in> set (workflowStatusBuffer (systemDatabase s)). serializable st"
    and "distinct (map fst (workflowInputsBuffer (systemDatabase s)))" "\<forall>e \<in> set evs2. io_error e \<noteq> Some Diverges"
    and "flushWorkflowBuffers dx True evs [] evs2 s = (r, t)"
  shows "r = Inr () \<and> (\<forall>(u, st) \<in> set (workflowStatusBuffer (systemDatabase s)). written (systemDatabase t) u st)"
proof -
  obtain x w where w: "flushWorkflowResultBuffer dx evs s = (x, w)" by fastforce
  note w' = flushWorkflowResultBuffer_system [OF w]
  obtain db where db: "flushWorkflowStatusBuffer [] (systemDatabase w) = (Inr (), db)"
    "\<forall>(u, st) \<in> set (workflowStatusBuffer (systemDatabase s)). written db u st"
    using flushWorkflowStatusBuffer_quiet [OF assms(1,2)] w' by auto
  obtain y db' where db': "flushWorkflowInputsBuffer evs2 db = (y, db')" by fastforce
  have "t = w\<lparr>systemDatabase := db'\<rparr> \<and> r = y" using assms(5) w w' db(1) db'
    by (simp add: flushWorkflowBuffers_def whenE_def seqE_def bindE_def on_sys_run flushWorkflowSystemBuffers_def)
  moreover have "y = Inr () \<and> workflow_status db' = workflow_status db"
  proof (rule flushWorkflowInputsBuffer_status [OF _ assms(4) db'])
    show "distinct (map fst (workflowInputsBuffer db))"
      using flushWorkflowStatusBuffer_inputs [OF db(1)] w' assms(3) by simp
  qed
  ultimately show ?thesis using db(2) by (auto simp: written_def)
qed

section \<open>What an initialization has done\<close>

lemma mapE_establishes:
  assumes "mapE f xs s = (Inr ys, t)" "\<And>x s y t. x \<in> set xs \<Longrightarrow> f x s = (Inr y, t) \<Longrightarrow> P x t" "\<And>x y. x \<in> set xs \<Longrightarrow> y \<in> set xs \<Longrightarrow> keeps (P x) (f y)"
  shows "\<forall>x \<in> set xs. P x t"
proof -
  have keep: "\<forall>y \<in> set zs. keeps Q (f y) \<Longrightarrow> keeps Q (mapE f zs)" for zs Q
    by (induction zs) (auto intro!: keeps_rules)
  have "mapE f zs s = (Inr ys, t) \<Longrightarrow> set zs \<subseteq> set xs \<Longrightarrow> \<forall>x \<in> set zs. P x t" for zs s ys
  proof (induction zs arbitrary: s ys)
    case (Cons z zs)
    from Cons.prems(1) have "bindE (f z) (\<lambda>y. bindE (mapE f zs) (\<lambda>ys. retE (y # ys))) s = (Inr ys, t)" by simp
    then obtain y u where u: "f z s = (Inr y, u)" "bindE (mapE f zs) (\<lambda>ys. retE (y # ys)) u = (Inr ys, t)" by (rule bindE_InrD)
    from u(2) obtain us v where v: "mapE f zs u = (Inr us, v)" "v = t"
      by (auto simp: bindE_def retE_def split: prod.splits sum.splits)
    have "P z u" using assms(2) u(1) Cons.prems(2) by auto
    moreover have "keeps (P z) (mapE f zs)" using assms(3) Cons.prems(2) by (intro keep) auto
    ultimately have "P z t" using v keeps_result by metis
    moreover have "\<forall>x \<in> set zs. P x t" using Cons.IH [of u us] v Cons.prems(2) by auto
    ultimately show ?case by simp
  qed simp
  with assms(1) show ?thesis by blast
qed

definition op_in_registry :: "('u, 'x) MethodRegistration \<Rightarrow> ('u, 'x) registry \<Rightarrow> bool" where
  "op_in_registry ro r \<longleftrightarrow> (let k = full_name (mr_className ro) (mr_name ro) in case mr_config ro of
      WorkflowOp i \<Rightarrow> jm_get (workflowInfoMap r) k = Some i
    | TransactionOp i \<Rightarrow> jm_get (transactionInfos r) k = Some i
    | StepOp i \<Rightarrow> jm_get (stepInfos r) k = Some i
    | ProcedureOp i \<Rightarrow> jm_get (procedureInfos r) k = Some i
    | OtherOp \<Rightarrow> True)"

lemmas register_defs = registerWorkflow_def registerTransaction_def registerStep_def registerProcedure_def

lemma registerClass_registers: "registerClass [ro] r = (Inr x, r') \<Longrightarrow> op_in_registry ro r'"
  by (cases "mr_config ro") (auto simp: registerClass_def op_in_registry_def register_defs em_simps jm_get_set split: if_splits)

lemma keeps_registered_op: "keeps (op_in_registry ro) (registerClass [ro'])"
  by (cases "mr_config ro'"; cases "mr_config ro")
    (auto simp: keeps_def registerClass_def op_in_registry_def Let_def register_defs em_simps jm_get_set jm_has_iff split: if_splits)

lemma keeps_zoomed:
  "(\<And>v x. P (x\<lparr>lx_dbos := v\<rparr>) = P x) \<Longrightarrow> keeps P (on_dbos_state m)"
  "(\<And>v x. P (x\<lparr>lx_registry := v\<rparr>) = P x) \<Longrightarrow> keeps P (on_registry m')"
  "(\<And>v x. P (x\<lparr>lx_server := v\<rparr>) = P x) \<Longrightarrow> keeps P (on_server m'')"
  by (auto simp: keeps_def on_dbos_state_def on_registry_def on_server_def zoomE_def split: prod.split)

text \<open>The parts of the state that the preparation does not touch.\<close>

lemma keeps_prepare:
  assumes "\<And>v x. P (x\<lparr>lx_typeormEntities := v\<rparr>) = P x" "\<And>v x. P (x\<lparr>lx_drizzleEntities := v\<rparr>) = P x" "\<And>v x. P (x\<lparr>lx_userDatabase := v\<rparr>) = P x"
  shows "keeps P (load_entities cls)" "keeps P (configureDbClient b)"
proof -
  show "keeps P (load_entities cls)" unfolding load_entities_def
    by (intro keeps_modify) (auto simp: assms split: jsval.split)
  have use: "keeps P (use_database k)" for k unfolding use_database_def by (intro keeps_modify) (simp add: assms)
  have req: "keeps P (require_module b nm)" for nm unfolding require_module_def by (intro keeps_rules)
  show "keeps P (configureDbClient b)" unfolding configureDbClient_def Let_def by (intro keeps_rules use req)
qed

lemma keeps_registerClass_of:
  assumes "\<And>v x. P (x\<lparr>lx_registeredOperations := v\<rparr>) = P x" "\<And>v x. P (x\<lparr>lx_registry := v\<rparr>) = P x" "\<And>v x. P (x\<lparr>lx_eventReceivers := v\<rparr>) = P x"
  shows "keeps P (registerClass_of cls)"
  unfolding registerClass_of_def register_op_def by (intro keeps_rules keeps_modify keeps_zoomed) (simp_all add: assms)

definition op_registered :: "('u, 'x) init_op \<Rightarrow> ('u, 'x, 'a) live \<Rightarrow> bool" where
  "op_registered ro s \<longleftrightarrow> op_in_registry (io_registration ro) (lx_registry s)"

definition all_registered :: "('u, 'x) class_info \<Rightarrow> ('u, 'x, 'a) live \<Rightarrow> bool" where
  "all_registered cls s \<longleftrightarrow> (\<forall>ro \<in> set (ci_operations cls). op_registered ro s)"

lemma register_op_registers: "register_op ro s = (Inr x, t) \<Longrightarrow> op_registered ro t"
  unfolding register_op_def op_registered_def on_registry_def
  by (auto simp: seqE_def bindE_def zoomE_def modifyE_def dest: registerClass_registers split: prod.splits sum.splits)

lemma keeps_register_op: "keeps (op_registered ro) (register_op ro')"
  unfolding register_op_def on_registry_def
  by (intro keeps_rules keeps_modify keeps_zoom [where J = "op_in_registry (io_registration ro)"]) (simp_all add: keeps_registered_op op_registered_def)

lemma registerClass_of_registers:
  assumes "registerClass_of cls s = (Inr x, t)"
  shows "all_registered cls t"
proof -
  from assms obtain y u where u: "bindE (mapE register_op (ci_operations cls)) (\<lambda>_. retE ()) u = (Inr x, t)"
    unfolding registerClass_of_def by (rule seqE_InrD)
  then obtain ys where "mapE register_op (ci_operations cls) u = (Inr ys, t)"
    by (auto simp: bindE_def retE_def split: prod.splits sum.splits)
  from mapE_establishes [OF this, where P = op_registered] show ?thesis
    unfolding all_registered_def using register_op_registers keeps_register_op by blast
qed

lemma keeps_registered_state: "keeps (op_registered ro) (registerClass_of cls)"
  unfolding registerClass_of_def by (intro keeps_rules keeps_modify keeps_register_op) (simp add: op_registered_def)

lemma keeps_all_registered: "keeps (all_registered cls) (registerClass_of cls')"
  using keeps_registered_state by (auto simp: keeps_def all_registered_def)

text \<open>Both databases are set up for the executor.\<close>

definition server_ready :: "('u, 'x, 'a) boot \<Rightarrow> string list \<Rightarrow> 'a pg_server \<Rightarrow> bool" where
  "server_ready b files v \<longleftrightarrow>
     (\<exists>p. jm_get (sv_databases v) (datname (str_of (pl_database (dc_poolConfig (bt_config b))))) = Some p \<and> dbos_tables p) \<and>
     (\<exists>q. jm_get (sv_databases v) (datname (str_of (dc_system_database (bt_config b)))) = Some q \<and> usable (bt_pg b) files q)"

lemma init_userdb_tables: "in_dbos (init_userdb kind False) p = (Inr (), p') \<Longrightarrow> dbos_tables p' \<and> pd_migrations p' = pd_migrations p"
  by (cases kind; cases "pd_dbos p") (auto simp: in_dbos_def dbos_tables_def init_tables_def create_schema_def create_table_def create_index_def em_simps
      split: if_splits)

lemma on_server_InrD:
  assumes "on_server m s = (Inr x, t)"
  obtains v where "m (lx_server s) = (Inr x, v)" "t = s\<lparr>lx_server := v\<rparr>"
  using assms by (auto simp: on_server_def zoomE_def split: prod.splits)

lemma init_databases_InrD:
  assumes "knex_ok (bt_pg b) files" "\<not> bt_debugMode b" "init_databases b kind s = (Inr (), t)"
  shows "server_ready b files (lx_server t) \<and>
    t = s\<lparr>lx_server := lx_server t, lx_dbos := snd (recoverPendingWorkflows (executor_now b s) (bt_others b) [''local''] (lx_dbos s))\<rparr>"
proof -
  let ?c = "dc_poolConfig (bt_config b)" and ?nm = "str_of (dc_system_database (bt_config b))"
  let ?rec = "bindE (\<lambda>s. on_dbos_state (recoverPendingWorkflows (executor_now b s) (bt_others b) [''local'']) s) (\<lambda>_. retE ())"
  have "seqE (init_user_database b kind) (seqE (on_server (PostgresSystemDatabase_init (bt_pg b) ?c ?nm)) ?rec) s = (Inr (), t)"
    using assms(2,3) by (simp add: init_databases_def whenE_def)
  then obtain x s1 where s1: "init_user_database b kind s = (Inr x, s1)" "seqE (on_server (PostgresSystemDatabase_init (bt_pg b) ?c ?nm)) ?rec s1 = (Inr (), t)"
    by (rule seqE_InrD)
  from s1(2) obtain y s2 where s2: "on_server (PostgresSystemDatabase_init (bt_pg b) ?c ?nm) s1 = (Inr y, s2)" "?rec s2 = (Inr (), t)" by (rule seqE_InrD)
  have "on_server (bindE (connect (bt_pg b) ?c) (\<lambda>d. on_db d (in_dbos (init_userdb kind False)))) s = (Inr x, s1)"
    using s1(1) assms(2) by (simp add: init_user_database_def)
  then obtain v1 where v1: "bindE (connect (bt_pg b) ?c) (\<lambda>d. on_db d (in_dbos (init_userdb kind False))) (lx_server s) = (Inr x, v1)" "s1 = s\<lparr>lx_server := v1\<rparr>"
    by (rule on_server_InrD)
  from v1(1) obtain d w where d: "connect (bt_pg b) ?c (lx_server s) = (Inr d, w)" "on_db d (in_dbos (init_userdb kind False)) w = (Inr x, v1)"
    by (rule bindE_InrD)
  have p: "\<exists>p. jm_get (sv_databases v1) (datname (str_of (pl_database ?c))) = Some p \<and> dbos_tables p"
    using d(2) connect_InrD [OF d(1)] by (auto simp: on_db_def jm_get_set dest!: init_userdb_tables split: option.splits prod.splits)
  from s2(1) obtain v2 where v2: "PostgresSystemDatabase_init (bt_pg b) ?c ?nm v1 = (Inr (), v2)" "s2 = s1\<lparr>lx_server := v2\<rparr>"
    using v1(2) by (elim on_server_InrD) simp
  note sys = PostgresSystemDatabase_init_InrD [OF assms(1) v2(1)]
  from p sys(1) obtain p' where "jm_get (sv_databases v2) (datname (str_of (pl_database ?c))) = Some p'" "dbos_tables p'"
    by (metis dbos_tables_def)
  with sys(2) have ready: "server_ready b files v2" by (auto simp: server_ready_def)
  obtain hs where hs: "fst (recoverPendingWorkflows (executor_now b s2) (bt_others b) [''local''] (lx_dbos s2)) = Inr hs"
    using recoverPendingWorkflows_total by (metis fst_conv)
  have "t = s2\<lparr>lx_dbos := snd (recoverPendingWorkflows (executor_now b s2) (bt_others b) [''local''] (lx_dbos s2))\<rparr>"
    using s2(2) hs by (cases "recoverPendingWorkflows (executor_now b s2) (bt_others b) [''local''] (lx_dbos s2)")
      (auto simp: bindE_def on_dbos_state_def zoomE_def retE_def)
  then show ?thesis using ready v1(2) v2(2) by (simp add: executor_now_def)
qed

definition same_world :: "('u, 'x, 'a) live \<Rightarrow> ('u, 'x, 'a) live \<Rightarrow> bool" where
  "same_world s t \<longleftrightarrow> lx_server t = lx_server s \<and> lx_dbos t = lx_dbos s \<and> lx_initialized t = lx_initialized s \<and> lx_isFlushingBuffers t = lx_isFlushingBuffers s"

lemma keeps_same_world: "keeps (same_world s) (load_entities cls)" "keeps (same_world s) (configureDbClient b)" "keeps (same_world s) (registerClass_of cls)"
  by (intro keeps_prepare keeps_registerClass_of; simp add: same_world_def)+

lemma init_executor_InrD:
  assumes "init_executor b classes s = (Inr (), t)"
  obtains kind w where "same_world s w" "\<forall>cls \<in> set classes. all_registered cls w" "init_databases b kind w = (Inr (), t)"
proof -
  from assms obtain x s1 where s1: "mapE load_entities classes s = (Inr x, s1)" "seqE (configureDbClient b)
     (bindE (getsE lx_userDatabase) (\<lambda>udb. case udb of None \<Rightarrow> raiseE (DBOSInitializationError ''No user database configured!'')
      | Some kind \<Rightarrow> seqE (mapE registerClass_of classes) (init_databases b kind))) s1 = (Inr (), t)"
    unfolding init_executor_def by (rule seqE_InrD)
  from s1(2) obtain y s2 where s2: "configureDbClient b s1 = (Inr y, s2)" "bindE (getsE lx_userDatabase) (\<lambda>udb. case udb of
      None \<Rightarrow> raiseE (DBOSInitializationError ''No user database configured!'')
      | Some kind \<Rightarrow> seqE (mapE registerClass_of classes) (init_databases b kind)) s2 = (Inr (), t)" by (rule seqE_InrD)
  then obtain kind where "seqE (mapE registerClass_of classes) (init_databases b kind) s2 = (Inr (), t)"
    by (cases "lx_userDatabase s2") (auto simp: raiseE_def)
  then obtain xs w where w: "mapE registerClass_of classes s2 = (Inr xs, w)" "init_databases b kind w = (Inr (), t)" by (rule seqE_InrD)
  have "keeps (same_world s) (mapE load_entities classes)" "keeps (same_world s) (mapE registerClass_of classes)"
    by (intro keeps_map keeps_same_world)+
  then have "same_world s w" using keeps_result keeps_same_world(2) s1(1) s2(1) w(1) by (metis same_world_def)
  moreover have "all_registered cls v" if "registerClass_of cls u = (Inr z, v)" for cls u z v
    using that by (rule registerClass_of_registers)
  then have "\<forall>cls \<in> set classes. all_registered cls w"
    using mapE_establishes [OF w(1), where P = all_registered] keeps_all_registered by blast
  ultimately show ?thesis using that w(2) by blast
qed

lemma run_initializers_frame:
  assumes "run_initializers classes s = (r, t)"
  shows "lx_server t = lx_server s \<and> lx_registry t = lx_registry s \<and> lx_initialized t = lx_initialized s"
proof -
  have "keeps (\<lambda>t. lx_server t = lx_server s \<and> lx_registry t = lx_registry s \<and> lx_initialized t = lx_initialized s) (run_initializers classes)"
    unfolding run_initializers_def by (intro keeps_rules keeps_zoomed) simp_all
  from keeps_result [OF this _ assms] show ?thesis by simp
qed

text \<open>In debug mode nothing of the databases changes but that TypeORM connects.\<close>

definition tables_of :: "pg_database \<Rightarrow> bool \<times> bool \<times> bool \<times> string list" where
  "tables_of p = (schemaExists (pd_dbos p), txnOutputTableExists (pd_dbos p), txnIndexExists (pd_dbos p), pd_migrations p)"

definition same_tables :: "'a pg_server \<Rightarrow> 'a pg_server \<Rightarrow> bool" where
  "same_tables v w \<longleftrightarrow> sv_app w = sv_app v \<and>
     (\<forall>d. map_option tables_of (jm_get (sv_databases w) d) = map_option tables_of (jm_get (sv_databases v) d))"

lemma debug_tables: "in_dbos (init_userdb kind True) p = (r, p') \<Longrightarrow> tables_of p' = tables_of p"
  by (cases kind) (auto simp: in_dbos_def em_simps tables_of_def)

lemma keeps_same_tables: "keeps (same_tables v) (connect env c)" "keeps (same_tables v) (on_db d (in_dbos (init_userdb kind True)))"
proof -
  show "keeps (same_tables v) (connect env c)" by (auto simp: keeps_def connect_def split: option.split)
  show "keeps (same_tables v) (on_db d (in_dbos (init_userdb kind True)))"
  proof (rule keepsI)
    fix s assume s: "same_tables v s"
    show "same_tables v (snd (on_db d (in_dbos (init_userdb kind True)) s))"
    proof (cases "jm_get (sv_databases s) d")
      case None
      with s show ?thesis by (simp add: on_db_def)
    next
      case (Some p)
      obtain r p' where p': "in_dbos (init_userdb kind True) p = (r, p')" by fastforce
      have "map_option tables_of (jm_get (jm_set d p' (sv_databases s)) e) = map_option tables_of (jm_get (sv_databases s) e)" for e
        using Some debug_tables [OF p'] by (simp add: jm_get_set)
      with s on_db_run [where m = "in_dbos (init_userdb kind True)", OF Some p'] show ?thesis by (simp add: same_tables_def)
    qed
  qed
qed

lemma keeps_debug_init:
  assumes "bt_debugMode b"
  shows "keeps (\<lambda>t. same_tables v (lx_server t) \<and> lx_dbos t = d) (init b classes)"
proof -
  let ?I = "\<lambda>t. same_tables v (lx_server t) \<and> lx_dbos t = d"
  have db: "keeps ?I (init_databases b kind)" for kind
  proof -
    have "keeps ?I (init_user_database b kind)"
    proof (cases "kind = TYPEORM")
      case True
      have "keeps (same_tables v) (bindE (connect (bt_pg b) (dc_poolConfig (bt_config b))) (\<lambda>d. on_db d (in_dbos (init_userdb kind True))))"
        by (intro keeps_bind keeps_same_tables)
      then show ?thesis using True assms unfolding init_user_database_def on_server_def
        by (auto intro!: keeps_zoom [where J = "same_tables v"])
    next
      case False
      with assms show ?thesis by (simp add: init_user_database_def keeps_ret)
    qed
    then show ?thesis using assms unfolding init_databases_def whenE_def by (auto intro!: keeps_rules)
  qed
  show ?thesis unfolding init_def init_executor_def using assms
    by (intro keeps_rules keeps_modify keeps_prepare keeps_registerClass_of db) simp_all
qed

end
