(* ===== verification/Runtime.thy ===== *)
theory Runtime
  imports Startup
begin

text \<open>
  The application around the executor (\<open>src/src/dbos-runtime/runtime.ts\<close>, class \<open>DBOSRuntime\<close>): loading of the classes, the order in
  which the parts are started, what happens when one of them fails, and the shutdown.

  The parts that are modelled elsewhere appear here as what is running. Parameters are the modules on disk, the outcomes of the steps that are
  input and output, and what the databases do during the last flush.
\<close>

record ('u, 'x, 'a) runtime_env =
  re_exports :: "string \<Rightarrow> (jserror + (string \<times> bool) list) option" \<comment> \<open>the exports of a file that exists, with \<open>isObject\<close>\<close>
  re_entrypoints :: "string list"
  re_executor :: "jserror + ('u, 'x, 'a) live" \<comment> \<open>\<open>new DBOSExecutor\<close>\<close>
  re_boot :: "('u, 'x, 'a) boot"
  re_listen :: "jserror option"
  re_initScheduler :: "jserror option"
  re_initReceiver :: "nat \<Rightarrow> jserror option"
  re_destroyReceiver :: "nat \<Rightarrow> jserror option"
  re_settle :: "('u, 'x) dbos \<Rightarrow> ('u, 'x) dbos"
  re_rest :: "('u, 'x) dbos \<Rightarrow> ('u, 'x) dbos"
  re_flush :: flush_io

record ('u, 'x, 'a) runtime_state =
  rt_dbosExec :: "('u, 'x, 'a) live option"
  rt_destroyed :: bool
  rt_servers :: bool
  rt_scheduler :: bool
  rt_wfQueueRunner :: bool
  rt_receivers :: "nat list" \<comment> \<open>those that have been initialized and not destroyed\<close>

definition no_runtime :: "('u, 'x, 'a) runtime_state" where
  "no_runtime = \<lparr>rt_dbosExec = None, rt_destroyed = False, rt_servers = False, rt_scheduler = False, rt_wfQueueRunner = False, rt_receivers = []\<rparr>"

section \<open>Loading\<close>

definition load_entrypoint :: "('u, 'x, 'a) runtime_env \<Rightarrow> string \<Rightarrow> jserror + string list" where
  "load_entrypoint env entrypoint = (case re_exports env entrypoint of
      None \<Rightarrow> Inl (DBOSFailLoadOperationsError (''Failed to load operations from the entrypoint '' @ entrypoint))
    | Some r \<Rightarrow> bindR r (\<lambda>exports. Inr (map fst (filter snd exports))))"

definition loadClasses :: "('u, 'x, 'a) runtime_env \<Rightarrow> jserror + string list" where
  "loadClasses env = bindR (traverse (load_entrypoint env) (re_entrypoints env)) (\<lambda>cs.
     if concat cs = [] then Inl (DBOSFailLoadOperationsError ''operations not found'') else Inr (concat cs))"

section \<open>Starting and stopping\<close>

definition step_or :: "jserror option \<Rightarrow> (('u, 'x, 'a) runtime_state \<Rightarrow> ('u, 'x, 'a) runtime_state) \<Rightarrow> (('u, 'x, 'a) runtime_state, unit) meth" where
  "step_or failure f = (case failure of Some e \<Rightarrow> raiseE e | None \<Rightarrow> modifyE f)"

definition on_live :: "(('u, 'x, 'a) live, unit) meth \<Rightarrow> (('u, 'x, 'a) runtime_state, unit) meth" where
  "on_live m = (\<lambda>s. case rt_dbosExec s of None \<Rightarrow> (Inr (), s)
     | Some lx \<Rightarrow> (case m lx of (r, lx') \<Rightarrow> (r, s\<lparr>rt_dbosExec := Some lx'\<rparr>)))"

definition receivers_of :: "('u, 'x, 'a) runtime_state \<Rightarrow> nat list" where
  "receivers_of s = (case rt_dbosExec s of None \<Rightarrow> [] | Some lx \<Rightarrow> lx_eventReceivers lx)"

definition init_receiver :: "('u, 'x, 'a) runtime_env \<Rightarrow> nat \<Rightarrow> (('u, 'x, 'a) runtime_state, unit) meth" where
  "init_receiver env rcvr = step_or (re_initReceiver env rcvr) (\<lambda>s. s\<lparr>rt_receivers := rt_receivers s @ [rcvr]\<rparr>)"

definition destroy_receiver :: "('u, 'x, 'a) runtime_env \<Rightarrow> nat \<Rightarrow> (('u, 'x, 'a) runtime_state, unit) meth" where
  "destroy_receiver env rcvr = step_or (re_destroyReceiver env rcvr) (\<lambda>s. s\<lparr>rt_receivers := filter (\<lambda>r. r \<noteq> rcvr) (rt_receivers s)\<rparr>)"

definition start_services :: "('u, 'x, 'a) runtime_env \<Rightarrow> (('u, 'x, 'a) runtime_state, unit) meth" where
  "start_services env =
     bindE (liftE (re_executor env)) (\<lambda>dbosExec.
     seqE (modifyE (\<lambda>s. s\<lparr>rt_dbosExec := Some dbosExec\<rparr>))
     (seqE (liftE (loadClasses env))
     (seqE (on_live (init (re_boot env) []))
     (seqE (step_or (re_listen env) (\<lambda>s. s\<lparr>rt_servers := True\<rparr>))
     (seqE (step_or (re_initScheduler env) (\<lambda>s. s\<lparr>rt_scheduler := True\<rparr>))
     (modifyE (\<lambda>s. s\<lparr>rt_wfQueueRunner := True\<rparr>)))))))"

definition start_parts :: "('u, 'x, 'a) runtime_env \<Rightarrow> (('u, 'x, 'a) runtime_state, unit) meth" where
  "start_parts env =
     seqE (start_services env)
     (bindE (getsE receivers_of) (\<lambda>eventReceivers.
     bindE (mapE (init_receiver env) eventReceivers) (\<lambda>_. retE ())))"

definition destroy_runtime :: "('u, 'x, 'a) runtime_env \<Rightarrow> (('u, 'x, 'a) runtime_state, unit) meth" where
  "destroy_runtime env =
     seqE (modifyE (\<lambda>s. s\<lparr>rt_scheduler := False\<rparr>))
     (seqE (modifyE (\<lambda>s. s\<lparr>rt_wfQueueRunner := False\<rparr>))
     (bindE (getsE receivers_of) (\<lambda>eventReceivers.
     seqE (mapE (destroy_receiver env) eventReceivers)
     (seqE (modifyE (\<lambda>s. s\<lparr>rt_servers := False\<rparr>))
     (seqE (on_live (destroy (re_boot env) (re_settle env) (re_rest env) (re_flush env)))
     (modifyE (\<lambda>s. s\<lparr>rt_destroyed := True\<rparr>)))))))"

text \<open>The exit code, or none when the application runs.\<close>

definition initAndStart :: "('u, 'x, 'a) runtime_env \<Rightarrow> (('u, 'x, 'a) runtime_state, nat option) meth" where
  "initAndStart env = catchE (seqE (start_parts env) (retE None)) (\<lambda>error. case error of
      DBOSFailLoadOperationsError _ \<Rightarrow> retE (Some 1)
    | _ \<Rightarrow> seqE (destroy_runtime env) (retE (Some 1)))"

definition onSigterm :: "('u, 'x, 'a) runtime_env \<Rightarrow> (('u, 'x, 'a) runtime_state, nat option) meth" where
  "onSigterm env = catchE (seqE (destroy_runtime env) (retE (Some 1))) (\<lambda>_. retE (Some 1))"

section \<open>A failed start is undone\<close>

text \<open>What runs beside the executor.\<close>

definition all_running :: "('u, 'x, 'a) runtime_state \<Rightarrow> bool" where
  "all_running s \<longleftrightarrow> rt_servers s \<and> rt_scheduler s \<and> rt_wfQueueRunner s \<and> rt_receivers s = receivers_of s \<and> rt_dbosExec s \<noteq> None"

definition all_stopped :: "('u, 'x, 'a) runtime_state \<Rightarrow> bool" where
  "all_stopped s \<longleftrightarrow> \<not> rt_servers s \<and> \<not> rt_scheduler s \<and> \<not> rt_wfQueueRunner s \<and> rt_receivers s = []"

definition receivers_known :: "('u, 'x, 'a) runtime_state \<Rightarrow> bool" where
  "receivers_known s \<longleftrightarrow> set (rt_receivers s) \<subseteq> set (receivers_of s)"

lemma step_or_InrD: "step_or failure f s = (Inr x, t) \<Longrightarrow> failure = None \<and> t = f s"
  by (auto simp: step_or_def raiseE_def modifyE_def split: option.splits)

lemma step_or_InlD: "step_or failure f s = (Inl e, t) \<Longrightarrow> failure = Some e \<and> t = s"
  by (auto simp: step_or_def raiseE_def modifyE_def split: option.splits)

lemma init_receivers_run:
  "mapE (init_receiver env) rs s = (r, t) \<Longrightarrow> \<exists>k \<le> length rs. t = s\<lparr>rt_receivers := rt_receivers s @ take k rs\<rparr> \<and> ((\<exists>x. r = Inr x) \<longrightarrow> k = length rs)"
proof (induction rs arbitrary: s r t)
  case Nil
  then show ?case by (auto simp: retE_def intro!: exI [of _ 0])
next
  case (Cons rcvr rs)
  obtain x u where u: "init_receiver env rcvr s = (x, u)" by fastforce
  show ?case
  proof (cases x)
    case (Inl e)
    with u Cons.prems have "r = Inl e" "t = u" by (auto simp: bindE_def)
    moreover have "u = s" using u Inl by (auto simp: init_receiver_def dest: step_or_InlD)
    ultimately show ?thesis by (intro exI [of _ 0]) auto
  next
    case (Inr y)
    obtain x' v where v: "mapE (init_receiver env) rs u = (x', v)" by fastforce
    with u Inr Cons.prems have t: "t = v" "(\<exists>x. r = Inr x) \<longrightarrow> (\<exists>x. x' = Inr x)" by (auto simp: bindE_def retE_def split: sum.splits)
    have "u = s\<lparr>rt_receivers := rt_receivers s @ [rcvr]\<rparr>" using u Inr by (auto simp: init_receiver_def dest: step_or_InrD)
    with Cons.IH [OF v] obtain k where "k \<le> length rs" "v = s\<lparr>rt_receivers := rt_receivers s @ rcvr # take k rs\<rparr>"
      "(\<exists>x. x' = Inr x) \<longrightarrow> k = length rs" by auto
    with t show ?thesis by (intro exI [of _ "Suc k"]) auto
  qed
qed

lemma destroy_receivers_run:
  "(\<And>r. re_destroyReceiver env r = None) \<Longrightarrow>
   \<exists>x. mapE (destroy_receiver env) rs s = (Inr x, s\<lparr>rt_receivers := filter (\<lambda>r. r \<notin> set rs) (rt_receivers s)\<rparr>)"
proof (induction rs arbitrary: s)
  case Nil
  then show ?case by (simp add: retE_def)
next
  case (Cons rcvr rs)
  have "destroy_receiver env rcvr s = (Inr (), s\<lparr>rt_receivers := filter (\<lambda>r. r \<noteq> rcvr) (rt_receivers s)\<rparr>)"
    using Cons.prems by (simp add: destroy_receiver_def step_or_def modifyE_def)
  with Cons.IH [OF Cons.prems, of "s\<lparr>rt_receivers := filter (\<lambda>r. r \<noteq> rcvr) (rt_receivers s)\<rparr>"]
  show ?case by (auto simp: bindE_def retE_def conj_commute)
qed

text \<open>The last flush returns.\<close>

definition flush_returns :: "('u, 'x, 'a) runtime_env \<Rightarrow> bool" where
  "flush_returns env \<longleftrightarrow> (\<forall>lx. \<exists>lx'. destroy (re_boot env) (re_settle env) (re_rest env) (re_flush env) lx = (Inr (), lx'))"

lemma destroy_runtime_run:
  assumes "\<And>r. re_destroyReceiver env r = None" "flush_returns env" "receivers_known s"
  shows "\<exists>t. destroy_runtime env s = (Inr (), t) \<and> all_stopped t \<and> rt_destroyed t"
proof -
  let ?s = "s\<lparr>rt_scheduler := False, rt_wfQueueRunner := False\<rparr>"
  have rs: "receivers_of ?s = receivers_of s" by (simp add: receivers_of_def)
  obtain x where x: "mapE (destroy_receiver env) (receivers_of s) ?s = (Inr x, ?s\<lparr>rt_receivers := filter (\<lambda>r. r \<notin> set (receivers_of s)) (rt_receivers ?s)\<rparr>)"
    using destroy_receivers_run [OF assms(1), of "receivers_of s" ?s] by auto
  have none: "filter (\<lambda>r. r \<notin> set (receivers_of s)) (rt_receivers s) = []"
    using assms(3) by (auto simp: receivers_known_def filter_empty_conv)
  let ?u = "?s\<lparr>rt_receivers := [], rt_servers := False\<rparr>"
  obtain v where v: "on_live (destroy (re_boot env) (re_settle env) (re_rest env) (re_flush env)) ?u = (Inr (), v)" "all_stopped v"
  proof (cases "rt_dbosExec s")
    case None
    then show ?thesis using that [of ?u] by (simp add: on_live_def all_stopped_def)
  next
    case (Some lx)
    from assms(2) obtain lx' where "destroy (re_boot env) (re_settle env) (re_rest env) (re_flush env) lx = (Inr (), lx')"
      unfolding flush_returns_def by blast
    with Some show ?thesis using that [of "?u\<lparr>rt_dbosExec := Some lx'\<rparr>"] by (simp add: on_live_def all_stopped_def)
  qed
  have "destroy_runtime env s = (Inr (), v\<lparr>rt_destroyed := True\<rparr>)"
    using x none v(1) rs by (simp add: destroy_runtime_def seqE_def bindE_def modifyE_def getsE_def)
  with v(2) show ?thesis by (simp add: all_stopped_def)
qed

lemma start_services_run:
  assumes "start_services env no_runtime = (r, t)"
  shows "rt_receivers t = [] \<and> (r = Inr () \<longrightarrow> rt_servers t \<and> rt_scheduler t \<and> rt_wfQueueRunner t \<and> rt_dbosExec t \<noteq> None)"
proof -
  have live: "keeps (\<lambda>s. rt_receivers s = []) (on_live m)" for m :: "(('a, 'b, 'c) live, unit) meth"
    by (auto simp: keeps_def on_live_def split: option.split prod.split)
  have step: "keeps (\<lambda>s. rt_receivers s = []) (step_or e f)" if "\<And>s. rt_receivers (f s) = rt_receivers s"
    for e and f :: "('a, 'b, 'c) runtime_state \<Rightarrow> ('a, 'b, 'c) runtime_state"
    unfolding step_or_def using that by (cases e) (auto intro!: keeps_modify keeps_rules)
  have "keeps (\<lambda>s. rt_receivers s = []) (start_services env)"
    unfolding start_services_def by (intro keeps_rules keeps_modify live step) simp_all
  from keeps_result [OF this _ assms] have "rt_receivers t = []" by (simp add: no_runtime_def)
  moreover have "rt_servers t \<and> rt_scheduler t \<and> rt_wfQueueRunner t \<and> rt_dbosExec t \<noteq> None" if "r = Inr ()"
  proof -
    from assms that obtain lx cs where "re_executor env = Inr lx" "loadClasses env = Inr cs"
      by (cases "re_executor env"; cases "loadClasses env") (auto simp: start_services_def em_simps)
    moreover obtain x lx' where "init (re_boot env) [] lx = (x, lx')" by fastforce
    ultimately show ?thesis using assms that
      by (cases x; cases "re_listen env"; cases "re_initScheduler env")
        (auto simp: start_services_def em_simps on_live_def step_or_def no_runtime_def)
  qed
  ultimately show ?thesis by blast
qed

lemma start_parts_run:
  assumes "start_parts env no_runtime = (r, t)"
  shows "receivers_known t \<and> (r = Inr () \<longrightarrow> all_running t)"
proof -
  obtain x u where u: "start_services env no_runtime = (x, u)" by fastforce
  note base = start_services_run [OF u]
  show ?thesis
  proof (cases x)
    case (Inl e)
    with assms u have "r = Inl e" "t = u" by (auto simp: start_parts_def seqE_def bindE_def)
    with base show ?thesis by (simp add: receivers_known_def)
  next
    case (Inr y)
    obtain z v where v: "mapE (init_receiver env) (receivers_of u) u = (z, v)" by fastforce
    from init_receivers_run [OF v] base obtain k where k: "v = u\<lparr>rt_receivers := take k (receivers_of u)\<rparr>" "(\<exists>x. z = Inr x) \<longrightarrow> k = length (receivers_of u)"
      by auto
    have t: "t = v" "r = Inr () \<longrightarrow> (\<exists>x. z = Inr x)" using assms u v Inr
      by (auto simp: start_parts_def seqE_def bindE_def getsE_def retE_def split: sum.splits)
    have "receivers_of v = receivers_of u" using k(1) by (simp add: receivers_of_def)
    moreover have "rt_servers v = rt_servers u" "rt_scheduler v = rt_scheduler u" "rt_wfQueueRunner v = rt_wfQueueRunner u" "rt_dbosExec v = rt_dbosExec u"
      using k(1) by simp_all
    ultimately show ?thesis using t k base Inr by (auto simp: receivers_known_def all_running_def dest: in_set_takeD)
  qed
qed

lemma initAndStart_run:
  assumes "\<And>r. re_destroyReceiver env r = None" "flush_returns env" "initAndStart env no_runtime = (r, t)"
  shows "r = Inr None \<and> all_running t \<or> r = Inr (Some 1) \<and> (all_stopped t \<and> rt_destroyed t \<or>
    (\<exists>m. fst (start_parts env no_runtime) = Inl (DBOSFailLoadOperationsError m)))"
proof -
  obtain x u where u: "start_parts env no_runtime = (x, u)" by fastforce
  note parts = start_parts_run [OF u]
  show ?thesis
  proof (cases x)
    case (Inr y)
    with u assms(3) have "r = Inr None" "t = u" by (auto simp: initAndStart_def catchE_def seqE_def bindE_def retE_def)
    with parts Inr show ?thesis by simp
  next
    case (Inl e)
    show ?thesis
    proof (cases "\<exists>m. e = DBOSFailLoadOperationsError m")
      case True
      with u Inl assms(3) show ?thesis by (auto simp: initAndStart_def catchE_def seqE_def bindE_def retE_def)
    next
      case False
      obtain v where v: "destroy_runtime env u = (Inr (), v)" "all_stopped v" "rt_destroyed v"
        using destroy_runtime_run [OF assms(1,2)] parts by blast
      have "initAndStart env no_runtime = seqE (destroy_runtime env) (retE (Some 1)) u"
        using u Inl False by (cases e) (auto simp: initAndStart_def catchE_def seqE_def bindE_def)
      with v assms(3) show ?thesis by (simp add: seqE_def bindE_def retE_def)
    qed
  qed
qed

end
