(* ===== verification/Endpoints.thy ===== *)
theory Endpoints
  imports Http
begin

text \<open>
  Decorators of endpoints (\<open>src/src/httpServer/handler.ts\<close> from \<open>generateApiDec\<close> on, and \<open>middleware.ts\<close>), and \<open>mainInvoke\<close> of
  \<open>HandlerContextImpl\<close>, which calls a registered operation from a handler.

  What these decorators store beside the registrations of \<open>Registration\<close> is kept in maps of its own, by class and method, by
  parameter, and by class. Middlewares are values of a type parameter; \<open>None\<close> stands for \<open>undefined\<close> where one is passed.
\<close>

section \<open>Decorators\<close>

record 'm middleware_reg =
  mw_authMiddleware :: "'m option"
  mw_koaBodyParser :: "'m option"
  mw_koaCors :: "'m option"
  mw_koaMiddlewares :: "'m list option"
  mw_koaGlobalMiddlewares :: "'m list option"

definition no_middleware :: "'m middleware_reg" where
  "no_middleware = \<lparr>mw_authMiddleware = None, mw_koaBodyParser = None, mw_koaCors = None, mw_koaMiddlewares = None, mw_koaGlobalMiddlewares = None\<rparr>"

record 'm http_decls =
  hd_decls :: decls
  hd_api :: "(string \<times> string, APITypes \<times> string) jmap"
  hd_argSource :: "((nat \<times> string) \<times> nat, ArgSources) jmap"
  hd_middleware :: "(string, 'm middleware_reg) jmap"

definition on_decls :: "(decls, 'b) meth \<Rightarrow> ('m http_decls, 'b) meth" where
  "on_decls = zoomE hd_decls (\<lambda>d s. s\<lparr>hd_decls := d\<rparr>)"

definition generateApiDec :: "js_env \<Rightarrow> APITypes \<Rightarrow> string \<Rightarrow> target \<Rightarrow> string \<Rightarrow> func option \<Rightarrow> ('m http_decls, func) meth" where
  "generateApiDec env verb url tgt propertyKey inDescriptor =
     bindE (on_decls (registerAndWrapFunction env tgt propertyKey inDescriptor)) (\<lambda>descriptor.
     seqE (modifyE (\<lambda>s. s\<lparr>hd_api := jm_set (ct_name (ctor_of tgt), propertyKey) (verb, url) (hd_api s)\<rparr>)) (retE descriptor))"

definition GetApi :: "js_env \<Rightarrow> string \<Rightarrow> target \<Rightarrow> string \<Rightarrow> func option \<Rightarrow> ('m http_decls, func) meth" where
  "GetApi env = generateApiDec env GET"

definition PostApi :: "js_env \<Rightarrow> string \<Rightarrow> target \<Rightarrow> string \<Rightarrow> func option \<Rightarrow> ('m http_decls, func) meth" where
  "PostApi env = generateApiDec env POST"

definition PutApi :: "js_env \<Rightarrow> string \<Rightarrow> target \<Rightarrow> string \<Rightarrow> func option \<Rightarrow> ('m http_decls, func) meth" where
  "PutApi env = generateApiDec env PUT"

definition PatchApi :: "js_env \<Rightarrow> string \<Rightarrow> target \<Rightarrow> string \<Rightarrow> func option \<Rightarrow> ('m http_decls, func) meth" where
  "PatchApi env = generateApiDec env PATCH"

definition DeleteApi :: "js_env \<Rightarrow> string \<Rightarrow> target \<Rightarrow> string \<Rightarrow> func option \<Rightarrow> ('m http_decls, func) meth" where
  "DeleteApi env = generateApiDec env DELETE"

definition ArgSource :: "js_env \<Rightarrow> ArgSources \<Rightarrow> target \<Rightarrow> string \<Rightarrow> nat \<Rightarrow> ('m http_decls, unit) meth" where
  "ArgSource env source tgt propertyKey parameterIndex =
     bindE (on_decls (getOrCreateMethodArgsRegistration env tgt propertyKey)) (\<lambda>existingParameters.
     if parameterIndex < length existingParameters
     then modifyE (\<lambda>s. s\<lparr>hd_argSource := jm_set (args_key tgt propertyKey, parameterIndex) source (hd_argSource s)\<rparr>)
     else raiseE (runtime_error ''TypeError'' (''Cannot set properties of undefined (setting '' @ CHR 39 # ''argSource'' @ CHR 39 # '')'')))"

definition upd_middleware :: "('m middleware_reg \<Rightarrow> 'm middleware_reg) \<Rightarrow> ctor \<Rightarrow> ('m http_decls, unit) meth" where
  "upd_middleware f c =
     seqE (on_decls (getOrCreateClassRegistration c))
     (modifyE (\<lambda>s. s\<lparr>hd_middleware := jm_set (ct_name c)
        (f (case jm_get (hd_middleware s) (ct_name c) of None \<Rightarrow> no_middleware | Some r \<Rightarrow> r)) (hd_middleware s)\<rparr>))"

definition Authentication :: "'m option \<Rightarrow> ctor \<Rightarrow> ('m http_decls, unit) meth" where
  "Authentication authMiddlw c = (case authMiddlw of
      None \<Rightarrow> raiseE (DBOSUndefinedDecoratorInputError ''Authentication'')
    | Some a \<Rightarrow> upd_middleware (\<lambda>r. r\<lparr>mw_authMiddleware := Some a\<rparr>) c)"

definition KoaBodyParser :: "'m option \<Rightarrow> ctor \<Rightarrow> ('m http_decls, unit) meth" where
  "KoaBodyParser koaBodyParser = upd_middleware (\<lambda>r. r\<lparr>mw_koaBodyParser := koaBodyParser\<rparr>)"

definition KoaCors :: "'m option \<Rightarrow> ctor \<Rightarrow> ('m http_decls, unit) meth" where
  "KoaCors koaCors = upd_middleware (\<lambda>r. r\<lparr>mw_koaCors := koaCors\<rparr>)"

definition defined_all :: "string \<Rightarrow> 'm option list \<Rightarrow> jserror + 'm list" where
  "defined_all dec ms = traverse (\<lambda>i. case i of None \<Rightarrow> Inl (DBOSUndefinedDecoratorInputError dec) | Some x \<Rightarrow> Inr x) ms"

definition KoaMiddleware :: "'m option list \<Rightarrow> ctor \<Rightarrow> ('m http_decls, unit) meth" where
  "KoaMiddleware koaMiddlw c =
     bindE (liftE (defined_all ''KoaMiddleware'' koaMiddlw)) (\<lambda>ms. upd_middleware (\<lambda>r. r\<lparr>mw_koaMiddlewares := Some ms\<rparr>) c)"

definition KoaGlobalMiddleware :: "'m option list \<Rightarrow> ctor \<Rightarrow> ('m http_decls, unit) meth" where
  "KoaGlobalMiddleware koaMiddlw c =
     bindE (liftE (defined_all ''KoaGlobalMiddleware'' koaMiddlw)) (\<lambda>ms. upd_middleware (\<lambda>r. r\<lparr>mw_koaGlobalMiddlewares := Some ms\<rparr>) c)"

section \<open>Operations called from a handler\<close>

datatype invoked = InvokedValue jsval | InvokedWorkflow WorkflowHandle

definition not_a_function :: "string \<Rightarrow> jserror" where
  "not_a_function nm = runtime_error ''TypeError'' (nm @ '' is not a function'')"

text \<open>The property of the proxy for one registered operation, called with arguments; operations of no kind have the property \<open>undefined\<close>.\<close>

definition mainInvoke ::
    "('u, 'x) DBOSExecutor \<Rightarrow> (sysdb \<Rightarrow> sysdb) list \<Rightarrow> parentCtx \<Rightarrow> uuid option \<Rightarrow> bool \<Rightarrow> string option \<Rightarrow> WorkflowQueue option \<Rightarrow>
     ('u, 'x) MethodRegistration \<Rightarrow> jsval list \<Rightarrow> (('u, 'x) dbos, invoked) meth" where
  "mainInvoke dx others parent wfUUID asyncWf inst queue op args =
     (let params = plain_params\<lparr>p_workflowUUID := wfUUID, p_parentCtx := parent, p_configuredInstance := inst, p_queueName := map_option q_name queue\<rparr>;
          cls = mr_className op; nm = mr_name op in
      if asyncWf then (case mr_config op of
          TransactionOp _ \<Rightarrow> bindE (exec_transaction dx others cls nm params args) (\<lambda>v. retE (InvokedValue v))
        | WorkflowOp i \<Rightarrow> bindE (workflow dx others (wi_workflow i) params args) (\<lambda>h. retE (InvokedWorkflow h))
        | StepOp _ \<Rightarrow> bindE (exec_external dx others cls nm params args) (\<lambda>v. retE (InvokedValue v))
        | ProcedureOp _ \<Rightarrow> bindE (exec_procedure dx others cls nm params args) (\<lambda>v. retE (InvokedValue v))
        | OtherOp \<Rightarrow> raiseE (not_a_function nm))
      else (case mr_config op of
          WorkflowOp i \<Rightarrow> bindE (await_result dx others (workflow dx others (wi_workflow i) params args)) (\<lambda>v. retE (InvokedValue v))
        | _ \<Rightarrow> raiseE (not_a_function nm)))"

section \<open>Endpoints are guarded\<close>

text \<open>
  For the registration of its method, a decorator of an endpoint does what a decorator does that changes nothing: a method it
  registers first is wrapped, with role checks and validation; one that is registered stays as it is.
\<close>

lemma generateApiDec_registers:
  assumes "generateApiDec env verb url tgt key (Some value) s = (Inr g, t)"
    and "\<And>m. method_of (hd_decls s) (ct_name (ctor_of tgt)) key = Some m \<Longrightarrow> \<not> reg_needInitialized m"
  shows "jm_get (hd_api t) (ct_name (ctor_of tgt), key) = Some (verb, url) \<and>
    (case method_of (hd_decls s) (ct_name (ctor_of tgt)) key of
       Some m \<Rightarrow> g = value \<and> method_of (hd_decls t) = method_of (hd_decls s)
     | None \<Rightarrow> g = Wrapped (ct_name (ctor_of tgt)) key \<and> method_of (hd_decls t) (ct_name (ctor_of tgt)) key = Some (wrapped_reg tgt key value))"
proof -
  obtain x u where u: "getOrCreateMethodRegistration env tgt key value (hd_decls s) = (x, u)" by fastforce
  with assms(1) have t: "x = Inr g" "t = s\<lparr>hd_decls := u, hd_api := jm_set (ct_name (ctor_of tgt), key) (verb, url) (hd_api s)\<rparr>"
    by (cases x; auto simp: generateApiDec_def registerAndWrapFunction_def on_decls_def zoomE_def seqE_def bindE_def modifyE_def retE_def)+
  from registration_cases [OF u [unfolded t(1)] assms(2)] t(2) show ?thesis
    by (auto simp: jm_get_set split: option.splits)
qed

text \<open>\<open>undefined\<close> is refused by \<open>Authentication\<close> before anything is registered; the body parser and the CORS policy accept it, which
  resets them.\<close>

lemma authentication_undefined: "Authentication None c s = (Inl (DBOSUndefinedDecoratorInputError ''Authentication''), s)"
  by (simp add: Authentication_def raiseE_def)

lemma cors_undefined: "KoaCors None c s = (Inr (), t) \<Longrightarrow> \<exists>r. jm_get (hd_middleware t) (ct_name c) = Some r \<and> mw_koaCors r = None"
  by (auto simp: KoaCors_def upd_middleware_def on_decls_def zoomE_def seqE_def bindE_def modifyE_def jm_get_set split: prod.splits sum.splits)

end
