(* ===== verification/Spec2Isabelle.thy ===== *)
theory Spec2Isabelle
  imports Demo S3 Telemetry Runtime Endpoints
begin

text \<open>
  A verification library of DBOS Transact for TypeScript (\<open>src/src\<close>): durable workflows over Postgres.

  \<^bold>\<open>The program.\<close> An application is a set of classes whose methods are decorated as workflows, transactions, steps (communicators),
  stored procedures or HTTP handlers. The executor runs a workflow under an identifier; every operation a workflow calls through its
  context is numbered, and its outcome is recorded: transactions in the application's database, in the same database transaction as
  their effects, everything else in the system database. A process that dies leaves workflows in status \<open>PENDING\<close>; recovery runs
  them again, and operations that are recorded return their recorded outcome. Around this are queues of workflows, scheduled
  workflows, a debugger that steps through recorded workflows, validation of arguments and roles, and an HTTP server.

  \<^bold>\<open>Style.\<close> A method is a function from a state to a result and a state (\<open>meth\<close> in \<open>Errors\<close>): an exception is \<open>Inl\<close> of a \<open>jserror\<close>, and
  the state at the throw stays. JavaScript values are \<open>jsval\<close>, \<open>Map\<close> objects association lists in insertion order (\<open>jmap\<close>), tables
  lists of rows. Code outside the repository (drivers, \<open>serialize-error\<close>, \<open>uuid\<close>, Koa, FoundationDB's client, floating-point functions)
  enters as parameters. What other processes do while the program waits is a parameter, too: a list of changes, a wake-up, a failing query.

  \<^bold>\<open>Theories and sources.\<close>
  \<^item> \<open>Prelude\<close>: the state-and-error monad with its rules, \<open>traverse\<close>, maps (locale \<open>js_map\<close>), decimal numbers. \<open>Tables\<close>: rows with a
    primary key (locale \<open>pk_table\<close>). \<open>Strings\<close>: the string functions of JavaScript. \<open>Dates\<close>: \<open>toISOString\<close> and \<open>Date.parse\<close>.
  \<^item> \<open>Errors\<close>: \<open>error.ts\<close>. \<open>Json\<close>: \<open>DBOSJSON\<close> of \<open>utils.ts\<close>; the round trip of storable values.
  \<^item> \<open>OpStore\<close>: the contract of the operation log (locale \<open>op_store\<close>): look up, run, record once. Interpreted on the Postgres system
    database (\<open>SysDb\<close>), on FoundationDB (\<open>Fdb\<close>) and on the state of a workflow (\<open>WfContext\<close>).
  \<^item> \<open>SysDb\<close>, \<open>Buffers\<close>, \<open>Messaging\<close>, \<open>Queues\<close>: \<open>system_database.ts\<close> and \<open>wfqueue.ts\<close>: workflow status, inputs and outputs; the write-behind
    buffers; messages, events and durable sleep; queues with their limits. \<open>SysInvariant\<close>: every state reached by these operations, in any order, keeps the keys
    and foreign keys of the tables (an inductive step relation, by rule induction).
  \<^item> \<open>Fdb\<close>: \<open>foundationdb/fdb_system_database.ts\<close>, the other implementation of the same interface.
  \<^item> \<open>UserDb\<close>: \<open>user_database.ts\<close>: the transaction bracket and the error classification of the five drivers.
  \<^item> \<open>WfContext\<close>, \<open>Transactions\<close>, \<open>Steps\<close>: \<open>WorkflowContextImpl\<close> of \<open>workflow.ts\<close>: its operations, and what a transaction and a step
    leave behind, on every branch. \<open>Replay\<close>: programs over these operations; a second run after a crash (locale \<open>replayer\<close>).
  \<^item> \<open>Executor\<close>, \<open>Lifecycle\<close>: \<open>dbos-executor.ts\<close> and \<open>dispatchLoop\<close>: registries, start, run, recovery, temporary workflows, flushes.
  \<^item> \<open>Debugger\<close>: \<open>debugger/debug_workflow.ts\<close> and \<open>debugWorkflow\<close>, a second interpretation of \<open>replayer\<close>.
  \<^item> \<open>Crontab\<close>, \<open>CronFields\<close>, \<open>Scheduler\<close>: \<open>scheduler/crontab.ts\<close> as the string rewriting it is, what patterns mean, and the loop of
    \<open>scheduler/scheduler.ts\<close>.
  \<^item> \<open>Validation\<close>, \<open>Registration\<close>: \<open>data_validation.ts\<close> and \<open>decorators.ts\<close>: declared types and argument checks, decorators, the wrapper of a method.
  \<^item> \<open>Http\<close>: \<open>httpServer/server.ts\<close>, \<open>handler.ts\<close>. \<open>Management\<close>: \<open>dbos-runtime/workflow_management.ts\<close>.
  \<^item> \<open>Config\<close>: \<open>dbos-runtime/config.ts\<close>. \<open>Kafka\<close>, \<open>Sqs\<close>: the receivers of \<open>kafka/kafka.ts\<close> and \<open>packages/dbos-sqs/index.ts\<close>, which start workflows
    for messages. \<open>Telemetry\<close>: \<open>telemetry/\<close>, collector, exporter, log records (locale \<open>telemetry_sink\<close>, interpreted for logs and for traces).
  \<^item> \<open>Aws\<close>, \<open>S3\<close>: \<open>packages/aws-config/index.ts\<close>, and \<open>packages/component-aws-s3/src/s3_utils.ts\<close>: steps and workflows written with the library, over the context of
    \<open>WfContext\<close>.
  \<^item> \<open>Migrate\<close>: \<open>dbos-runtime/migrate.ts\<close>, \<open>runAndLog\<close> of \<open>cli.ts\<close>, and the initialization of \<open>PostgresSystemDatabase\<close>, over a Postgres server with its
    databases. \<open>Startup\<close>: \<open>init\<close> and \<open>destroy\<close> of the executor, with its flags. \<open>Runtime\<close>: \<open>dbos-runtime/runtime.ts\<close>. \<open>Endpoints\<close>: the decorators of \<open>handler.ts\<close>
    and \<open>middleware.ts\<close>, and what a handler may invoke.
  \<^item> \<open>Demo\<close>: a small application, on which the theorems below are evaluated.

  \<^bold>\<open>What is shown.\<close> C1 to C11 and C20 to C23: exactly-once execution of transactions, steps, messages and events, across crashes, and the life of a
  workflow up to its recovery. C12 to C17: limits of queues, the invariant of the system database, and that flushes of buffers lose nothing.
  C18 and C19: counting of recovery attempts, serialization. C24 to C35: schedules and crontabs, the debugger, FoundationDB's
  message queues, types of arguments, role checks and HTTP statuses, messages of Kafka and SQS, configuration, telemetry, files in S3. C36 to C40: start, shutdown and migration, where the
  executor, its databases, the servers and the receivers come together. Where the code departs from what its comments promise, a lemma of the
  component shows it: \<open>replayed_error_becomes_conflict\<close>, \<open>weekday_range_reversed\<close>, \<open>failed_upgrade_passes\<close>, \<open>capital_name_fails\<close>, \<open>second_method_skipped\<close>.

  \<^bold>\<open>Bounds.\<close> The retry loop of a transaction has no bound in the code; it takes fuel (\<open>dx_fuel\<close>), and \<open>Diverges\<close> stands for running out of it.
  Fuel above the number of failing commits is enough (C4). Polling loops (\<open>getWorkflowResult\<close>, the queue and scheduler loops) take the list of what happens
  at each turn, and \<open>Diverges\<close>, or the end of the list, is a loop that outlives it. Flush loops are total functions with a measure. \<open>setTimeout\<close> is modelled with its
  limit of 2147483647 milliseconds.

  \<^bold>\<open>Not modelled.\<close> Interleaving inside one operation: a workflow that is started runs to its end where it is started, one of the orders
  its promise allows. winston, OpenTelemetry and the creation of spans, the testing runtime, the prompts of the command line and the cloud packages are input and output or
  separate programs. The TypeScript compiler plug-ins under \<open>packages\<close> work on syntax trees of a third-party compiler.
\<close>



text \<open>C2. A transaction that returns has run its function exactly once on the application's data, in one database
  transaction with the record of its output; or it was recorded before, and then nothing changed. One that throws has
  left the application's data as they were, however often it was retried.\<close>

theorem transaction_exactly_once:
  assumes "transactionInfoMap ex nm = Some info" "\<not> is_readOnly (ti_config info)" "transaction ex ctx fuel nm args s = (r, t)"
  shows "case r of
     Inl e \<Rightarrow> app_of t = app_of s
   | Inr v \<Rightarrow> ran_and_logged ctx info (functionID s) args s v t \<or>
      (\<exists>row. presetUUID ctx \<and> txn_log s (workflowUUID ctx, functionID s) = Some row \<and> decode_txn (ex_runtime ex) row = Inr v \<and>
         app_of t = app_of s \<and> txn_log t = txn_log s)"
proof -
  have "txn_attempts ex ctx info (functionID s) args fuel 1 (s\<lparr>functionID := Suc (functionID s)\<rparr>) = (r, t)"
    using assms(1,3) by (simp add: transaction_def bind_functionID)
  from txn_attempts_atomic [OF this assms(2)] show ?thesis
    by (auto simp: ran_and_logged_def app_of_def txn_log_def split: sum.splits)
qed

theorem transaction_exactly_once_witness:
  "case transaction d_ex d_ctx 1 ''Bank.add'' [JNum 5] d_state of (r, t) \<Rightarrow> (case r of
     Inl e \<Rightarrow> app_of t = app_of d_state
   | Inr v \<Rightarrow> ran_and_logged d_ctx d_add (functionID d_state) [JNum 5] d_state v t \<or>
      (\<exists>row. presetUUID d_ctx \<and> txn_log d_state (workflowUUID d_ctx, functionID d_state) = Some row \<and>
         decode_txn (ex_runtime d_ex) row = Inr v \<and> app_of t = app_of d_state \<and> txn_log t = txn_log d_state))"
proof -
  obtain r t where run: "transaction d_ex d_ctx 1 ''Bank.add'' [JNum 5] d_state = (r, t)" by fastforce
  have info: "transactionInfoMap d_ex ''Bank.add'' = Some d_add" "\<not> is_readOnly (ti_config d_add)"
    by (simp_all add: d_ex_def d_add_def is_readOnly_def)
  from transaction_exactly_once [OF info run] show ?thesis unfolding run prod.case .
qed

text \<open>C3. A transaction whose output is recorded returns the recorded output and has no effect, even when the
  read of the record has to be retried after serialization failures.\<close>

theorem transaction_replayed:
  assumes "transactionInfoMap ex nm = Some info" "presetUUID ctx" "txn_log s (workflowUUID ctx, functionID s) = Some row"
    and "decode_txn (ex_runtime ex) row = Inr v" "\<And>e. Some e \<in> set (faults s) \<Longrightarrow> isRetriableTransactionError (ex_kind ex) e"
    and "length (faults s) < fuel"
  shows "\<exists>t. transaction ex ctx fuel nm args s = (Inr v, t) \<and> same_effects (s\<lparr>functionID := Suc (functionID s)\<rparr>) t"
proof -
  let ?s = "s\<lparr>functionID := Suc (functionID s)\<rparr>"
  have "txn_log ?s (workflowUUID ctx, functionID s) = Some row" "faults ?s = faults s"
    using assms(3) by (simp_all add: txn_log_def faults_def)
  from txn_attempts_replay [OF assms(2,4) this(1), of fuel info args 1] this(2) assms(5,6)
  show ?thesis by (simp add: transaction_def assms(1) bind_functionID)
qed

theorem transaction_replayed_witness:
  "\<exists>t. transaction d_ex d_ctx 2 ''Bank.add'' [JNum 5] d_logged = (Inr (JNum 105), t) \<and>
     same_effects (d_logged\<lparr>functionID := Suc (functionID d_logged)\<rparr>) t"
proof (rule transaction_replayed)
  show "transactionInfoMap d_ex ''Bank.add'' = Some d_add" by (simp add: d_ex_def)
  show "txn_log d_logged (workflowUUID d_ctx, functionID d_logged) =
    Some \<lparr>to_output = Some (Num 105), to_error = None, to_txn_id = None, to_txn_snapshot = [], to_created_at = None\<rparr>"
    by (simp add: txn_log_def d_logged_def d_ctx_def d_state_def)
  show "isRetriableTransactionError (ex_kind d_ex) e" if "Some e \<in> set (faults d_logged)" for e
    using that by (simp add: faults_def d_logged_def d_ex_def isRetriableTransactionError_def has_code_def pg_err_def or_undefined_def)
qed (simp_all add: d_ctx_def decode_txn_def d_ex_def parse_num faults_def d_logged_def)



text \<open>C5. A step with a recorded outcome is not run again: it returns the recorded value or throws the recorded
  error, and the outside world is not touched.\<close>

theorem step_runs_once:
  assumes "stepInfoMap ex nm = Some info" "resultBuffer s = []" "next_fault (userDatabase s) = None"
    and "recorded_op (ex_runtime ex) (systemDatabase s) (workflowUUID ctx, functionID s) = Some r"
  shows "\<exists>t. external ex ctx nm args s = (r, t) \<and> same_effects (s\<lparr>functionID := Suc (functionID s)\<rparr>) t"
  using external_replay [OF assms] by blast

theorem step_runs_once_witness:
  "\<exists>t. external d_ex d_ctx ''Bank.inc'' [] d_stepped = (Inr (JNum 8), t) \<and>
     same_effects (d_stepped\<lparr>functionID := Suc (functionID d_stepped)\<rparr>) t"
  by (rule step_runs_once [where info = d_inc])
    (simp_all add: d_ex_def d_stepped_def d_state_def next_fault_def recorded_op_def d_ctx_def parse_num)



text \<open>C7. The retry loop of a step runs the function at most the configured number of times: it stops at the first
  success, and gives up only after every attempt has thrown.\<close>

theorem step_retries_bounded:
  "case step_attempts body rate n i s of (r, t) \<Rightarrow>
   \<exists>k \<le> n. outside t = (run_on body ^^ k) (outside s) \<and>
     (case r of
        Inl e \<Rightarrow> False
      | Inr None \<Rightarrow> k = n \<and> throws_first body n (outside s)
      | Inr (Some v) \<Rightarrow> \<exists>j. k = Suc j \<and> throws_first body j (outside s) \<and> fst (body ((run_on body ^^ j) (outside s))) = Inr v)"
proof -
  obtain r t where run: "step_attempts body rate n i s = (r, t)" by fastforce
  from step_attempts_bound [OF run] show ?thesis
    unfolding run prod.case by (auto split: sum.splits option.splits)
qed

text \<open>C8. Sending appends one message for the destination and records the operation; the same operation sent
  again, with whatever arguments, changes nothing.\<close>

theorem send_exactly_once:
  assumes "operation_outputs db (u, f) = None" "find_wf u db \<noteq> None" "find_wf dest db \<noteq> None" "stringify m = Inr c"
  shows "\<exists>db'. send u f dest m topic db = (Inr (), db') \<and>
    notifications db' = notifications db @ [\<lparr>nt_destination_uuid = dest, nt_topic = topic_or_null topic, nt_message = c, nt_created_at_epoch_ms = now db\<rparr>] \<and>
    (\<forall>dest' m' topic'. send u f dest' m' topic' db' = (Inr (), db'))"
  using assms by (auto simp: send_eq)

theorem send_exactly_once_witness:
  "\<exists>db'. send ''a'' 0 ''b'' (JStr ''hi'') None d_sys = (Inr (), db') \<and>
    notifications db' = notifications d_sys @ [\<lparr>nt_destination_uuid = ''b'', nt_topic = topic_or_null None, nt_message = Some (Str ''hi''),
      nt_created_at_epoch_ms = now d_sys\<rparr>] \<and>
    (\<forall>dest' m' topic'. send ''a'' 0 dest' m' topic' db' = (Inr (), db'))"
  by (rule send_exactly_once) (simp_all add: d_sys_def empty_sysdb_def row_find_def d_row_def stringify_def)



text \<open>C10. Durable sleep: a workflow that sleeps, crashes before its wake-up time and sleeps again wakes at the time
  first set, not a full duration later (for sleeps Node's timers can express).\<close>

theorem sleep_survives_crash:
  assumes "operation_outputs db (u, f) = None" "find_wf u db \<noteq> None" "0 \<le> d" "now db \<le> t" "t \<le> now db + d" "d \<le> 2147483647" "1 \<le> now db + d - t"
  shows "\<exists>db1. sleepms rt u f d db = (Inr (), db1) \<and> now db1 = max (now db + d) (now db + 1) \<and>
    (\<exists>db2. sleepms rt u f d (db1\<lparr>now := t\<rparr>) = (Inr (), db2) \<and> now db2 = now db + d)"
proof -
  from sleepms_wakes [OF assms(1-3)] obtain db1 where db1: "sleepms rt u f d db = (Inr (), db1)" "now db1 = now db + node_timeout d"
    "operation_outputs db1 (u, f) = Some \<lparr>oo_output = Some (Num (of_int (now db + d))), oo_error = None\<rparr>" by blast
  have "operation_outputs (db1\<lparr>now := t\<rparr>) (u, f) = Some \<lparr>oo_output = Some (Num (of_int (now db + d))), oo_error = None\<rparr>"
    using db1(3) by simp
  from sleepms_resumed [OF this] have "sleepms rt u f d (db1\<lparr>now := t\<rparr>) =
      (Inr (), (db1\<lparr>now := t\<rparr>)\<lparr>now := t + node_timeout (max (now db + d - t) 0)\<rparr>)" by simp
  moreover have "t + node_timeout (max (now db + d - t) 0) = now db + d" using assms by (simp add: node_timeout_def max_def)
  moreover have "now db1 = max (now db + d) (now db + 1)" using assms db1(2) by (auto simp: node_timeout_def max_def)
  ultimately show ?thesis using db1(1) by auto
qed

theorem sleep_survives_crash_witness:
  "\<exists>db1. sleepms demo_rt ''a'' 0 5000 d_sys = (Inr (), db1) \<and> now db1 = max (now d_sys + 5000) (now d_sys + 1) \<and>
    (\<exists>db2. sleepms demo_rt ''a'' 0 5000 (db1\<lparr>now := 3000\<rparr>) = (Inr (), db2) \<and> now db2 = now d_sys + 5000)"
  by (rule sleep_survives_crash) (simp_all add: d_sys_def empty_sysdb_def row_find_def d_row_def)









text \<open>C15. A flush of the status buffer never throws and loses no buffered status, whatever queries fail and whatever
  other workflows buffer meanwhile: each is written, or still buffered, or replaced by a newer one of the same workflow.\<close>

theorem status_buffer_no_loss:
  assumes "distinct (map fst (workflowStatusBuffer db))" "map_of (workflowStatusBuffer db) u = Some st"
    and "flushWorkflowStatusBuffer evs db = (r, db')"
  shows "r = Inr () \<and> (written db' u st \<or> map_of (workflowStatusBuffer db') u = Some st \<or>
     (\<exists>e \<in> set evs. \<exists>st'. (u, st') \<in> set (io_outputs e) \<and> map_of (workflowStatusBuffer db') u = Some st'))"
  using flushWorkflowStatusBuffer_no_loss [OF assms] .

theorem status_buffer_no_loss_witness:
  "case flushWorkflowStatusBuffer [d_break] d_full of (r, db') \<Rightarrow> r = Inr () \<and>
     (written db' ''a'' (d_wsi ''a'' (JNum 3)) \<or> map_of (workflowStatusBuffer db') ''a'' = Some (d_wsi ''a'' (JNum 3)) \<or>
     (\<exists>e \<in> set [d_break]. \<exists>st'. (''a'', st') \<in> set (io_outputs e) \<and> map_of (workflowStatusBuffer db') ''a'' = Some st'))"
proof -
  obtain r db' where run: "flushWorkflowStatusBuffer [d_break] d_full = (r, db')" by fastforce
  have "distinct (map fst (workflowStatusBuffer d_full))" "map_of (workflowStatusBuffer d_full) ''a'' = Some (d_wsi ''a'' (JNum 3))"
    by (simp_all add: d_full_def)
  from status_buffer_no_loss [OF this run] show ?thesis unfolding run prod.case .
qed

text \<open>C16. A flush of the inputs buffer never throws, ends, and loses no inputs: they are stored, or the workflow
  still has an entry in the buffer.\<close>

theorem inputs_buffer_no_loss:
  assumes "distinct (map fst (workflowInputsBuffer db))" "map_of (workflowInputsBuffer db) u = Some args"
    and "\<forall>e \<in> set evs. io_error e \<noteq> Some Diverges" "flushWorkflowInputsBuffer evs db = (r, db')"
  shows "r = Inr () \<and> (stored_input db db' u args \<or> map_of (workflowInputsBuffer db') u \<noteq> None)"
  using flushWorkflowInputsBuffer_no_loss [OF assms] .

theorem inputs_buffer_no_loss_witness:
  "case flushWorkflowInputsBuffer [d_break] d_full of (r, db') \<Rightarrow> r = Inr () \<and>
     (stored_input d_full db' ''a'' [JNum 5] \<or> map_of (workflowInputsBuffer db') ''a'' \<noteq> None)"
proof -
  obtain r db' where run: "flushWorkflowInputsBuffer [d_break] d_full = (r, db')" by fastforce
  have "distinct (map fst (workflowInputsBuffer d_full))" "map_of (workflowInputsBuffer d_full) ''a'' = Some [JNum 5]"
    "\<forall>e \<in> set [d_break]. io_error e \<noteq> Some Diverges"
    by (simp_all add: d_full_def d_break_def pg_err_def)
  from inputs_buffer_no_loss [OF this run] show ?thesis unfolding run prod.case .
qed

text \<open>C17. A flush of the executor's buffer of transaction outputs never throws and loses none: all outputs of the
  workflow are in its log, or its entry is still buffered, or replaced by a newer one.\<close>

theorem result_buffer_no_loss:
  assumes "bufs_ok (workflowResultBuffer s)" "map_of (workflowResultBuffer s) u = Some buf"
    and "flushWorkflowResultBuffer dx evs s = (r, t)"
  shows "r = Inr () \<and> (rows_logged t u buf \<or> map_of (workflowResultBuffer t) u = Some buf \<or>
    (\<exists>e \<in> set evs. \<exists>buf'. (u, buf') \<in> set (snd e) \<and> map_of (workflowResultBuffer t) u = Some buf'))"
  using flushWorkflowResultBuffer_no_loss [OF assms] .

theorem result_buffer_no_loss_witness:
  "case flushWorkflowResultBuffer d_dx [] d_results of (r, t) \<Rightarrow> r = Inr () \<and>
    (rows_logged t ''a'' [(0, \<lparr>br_output = Some (JNum 100), br_txn_snapshot = ''1'', br_created_at = Some 0\<rparr>)] \<or>
     map_of (workflowResultBuffer t) ''a'' = Some [(0, \<lparr>br_output = Some (JNum 100), br_txn_snapshot = ''1'', br_created_at = Some 0\<rparr>)])"
proof -
  let ?b = "[(0, \<lparr>br_output = Some (JNum 100), br_txn_snapshot = ''1'', br_created_at = Some 0\<rparr>)]"
  obtain r t where run: "flushWorkflowResultBuffer d_dx [] d_results = (r, t)" by fastforce
  have "bufs_ok (workflowResultBuffer d_results)" "map_of (workflowResultBuffer d_results) ''a'' = Some ?b"
    by (simp_all add: d_results_def bufs_ok_def)
  from result_buffer_no_loss [OF this run] show ?thesis unfolding run prod.case by simp
qed

text \<open>C18. Starting a workflow that exists: recovery counts an attempt, anything else does not; at the limit the
  start is refused with a dead-letter error and a pending workflow is marked; otherwise the inputs recorded first are returned and
  those given now are ignored.\<close>

theorem start_is_counted:
  assumes "find_wf (wsi_workflowUUID st) db = Some r" "workflow_inputs db (wsi_workflowUUID st) = Some c"
    and "stringify (wsi_request st) = Inr req" "stringify (JArr args) = Inr c'" "parse rt c = Inr (JArr args')"
  shows "initWorkflowStatus rt st args db =
    (if wsi_maxRetries st \<le> attempts_after (wsi_recovery st) r \<and> wsi_recovery st
     then (Inl (DBOSDeadLetterQueueError (wsi_workflowUUID st) (wsi_maxRetries st)),
       update_wf (wsi_workflowUUID st) (\<lambda>r. if ws_status r = PENDING then r\<lparr>ws_status := RETRIES_EXCEEDED\<rparr> else r)
        (update_wf (wsi_workflowUUID st) (\<lambda>r. r\<lparr>ws_recovery_attempts := attempts_after (wsi_recovery st) r\<rparr>) db))
     else (Inr args', update_wf (wsi_workflowUUID st) (\<lambda>r. r\<lparr>ws_recovery_attempts := attempts_after (wsi_recovery st) r\<rparr>) db))"
proof -
  obtain roles where "stringify (roles_val (wsi_authenticatedRoles st)) = Inr roles" using stringify_roles by blast
  from initWorkflowStatus_again [OF assms(1-3) this assms(4,5)] show ?thesis .
qed

theorem start_is_counted_witness:
  "initWorkflowStatus demo_rt ((d_wsi ''a'' JUndefined)\<lparr>wsi_recovery := True, wsi_maxRetries := 1\<rparr>) [JNum 9] d_started =
    (Inl (DBOSDeadLetterQueueError ''a'' 1),
       update_wf ''a'' (\<lambda>r. if ws_status r = PENDING then r\<lparr>ws_status := RETRIES_EXCEEDED\<rparr> else r)
        (update_wf ''a'' (\<lambda>r. r\<lparr>ws_recovery_attempts := attempts_after True r\<rparr>) d_started))"
proof -
  let ?st = "(d_wsi ''a'' JUndefined)\<lparr>wsi_recovery := True, wsi_maxRetries := 1\<rparr>"
  have "find_wf (wsi_workflowUUID ?st) d_started = Some (d_row ''a'')" "workflow_inputs d_started (wsi_workflowUUID ?st) = Some (Some (Arr [Num 5]))"
    by (simp_all add: d_started_def d_sys_def d_wsi_def row_find_def d_row_def)
  moreover have "stringify (wsi_request ?st) = Inr (Some (Obj []))" "stringify (JArr [JNum 9]) = Inr (Some (Arr [Num 9]))"
    by (simp_all add: d_wsi_def stringify_def)
  moreover have "parse demo_rt (Some (Arr [Num 5])) = Inr (JArr [JNum 5])" by (simp add: parse_def)
  ultimately have "initWorkflowStatus demo_rt ?st [JNum 9] d_started =
    (if wsi_maxRetries ?st \<le> attempts_after (wsi_recovery ?st) (d_row ''a'') \<and> wsi_recovery ?st
     then (Inl (DBOSDeadLetterQueueError (wsi_workflowUUID ?st) (wsi_maxRetries ?st)),
       update_wf (wsi_workflowUUID ?st) (\<lambda>r. if ws_status r = PENDING then r\<lparr>ws_status := RETRIES_EXCEEDED\<rparr> else r)
        (update_wf (wsi_workflowUUID ?st) (\<lambda>r. r\<lparr>ws_recovery_attempts := attempts_after (wsi_recovery ?st) r\<rparr>) d_started))
     else (Inr [JNum 5], update_wf (wsi_workflowUUID ?st) (\<lambda>r. r\<lparr>ws_recovery_attempts := attempts_after (wsi_recovery ?st) r\<rparr>) d_started))"
    by (rule start_is_counted)
  then show ?thesis by (simp add: d_wsi_def attempts_after_def d_row_def)
qed

text \<open>C19. A storable value (nested, with dates, big integers and buffers, without \<open>undefined\<close> and without objects that
  look like an encoding) reads back as it was written.\<close>

theorem json_roundtrip:
  assumes "node_buffers rt" "storable v"
  shows "bindR (stringify v) (parse rt) = Inr v"
  using parse_stringify [OF assms] .

theorem json_roundtrip_witness:
  "bindR (stringify (JObj [(''when'', JDate (Some (-1))), (''big'', JBigInt (-7)), (''bytes'', JBuffer [0, 255])])) (parse demo_rt) =
     Inr (JObj [(''when'', JDate (Some (-1))), (''big'', JBigInt (-7)), (''bytes'', JBuffer [0, 255])])"
  by (rule json_roundtrip [OF demo_node_buffers])
    (simp add: valid_time_def isSerializedBuffer_def isSerializedDate_def isSerializedBigInt_def)



text \<open>C21. A workflow that throws is recorded as failed, with its serialized error, before the run throws.\<close>

theorem error_is_recorded:
  assumes "wf_call wfl ctx args s = (Inl e, s1)" "queue_known dx st" "\<And>u. e \<noteq> DBOSWorkflowConflictUUIDError u"
    and "stringify (serializeError (dx_runtime dx) e) = Inr c" "stringify (wsi_request st) = Inr req"
  shows "\<exists>t r. runWorkflow dx others wfl params st ctx args s = (Inl e, t) \<and>
    find_wf (workflowUUID ctx) (systemDatabase t) = Some r \<and> ws_status r = ERROR \<and> ws_error r = c"
  using runWorkflow_error [OF assms] .

theorem error_is_recorded_witness:
  "\<exists>t r. runWorkflow d_dx [] d_fail plain_params (d_wsi ''a'' JUndefined) d_ctx [] d_state = (Inl (runtime_error ''Error'' ''no funds''), t) \<and>
    find_wf (workflowUUID d_ctx) (systemDatabase t) = Some r \<and> ws_status r = ERROR \<and>
    ws_error r = Some (Obj [(''name'', Str ''Error''), (''message'', Str ''no funds'')])"
proof (rule error_is_recorded)
  show "wf_call d_fail d_ctx [] d_state = (Inl (runtime_error ''Error'' ''no funds''), d_state)" by (simp add: d_fail_def raiseE_def)
  show "stringify (serializeError (dx_runtime d_dx) (runtime_error ''Error'' ''no funds'')) =
    Inr (Some (Obj [(''name'', Str ''Error''), (''message'', Str ''no funds'')]))" by code_simp
  show "stringify (wsi_request (d_wsi ''a'' JUndefined)) = Inr (Some (Obj []))" by code_simp
qed (simp_all add: queue_known_def d_wsi_def or_undefined_def runtime_error_def)

text \<open>C22. Recovery never throws. It starts exactly the pending workflows of the given executors (leaving out local
  ones on a cloud machine), and a workflow that cannot be recovered does not stop the others.\<close>

theorem recovery_is_total:
  "\<exists>ids hs. recoverPendingWorkflows dx others eids s = (Inr hs, foldl (\<lambda>t u. recover_one dx others u t) s ids) \<and>
    (\<forall>u. u \<in> set ids \<longleftrightarrow> (\<exists>r. r \<in> set (workflow_status (systemDatabase s)) \<and> ws_workflow_uuid r = u \<and> ws_status r = PENDING \<and>
       ws_executor_id r \<in> set eids \<and> \<not> (ws_executor_id r = ''local'' \<and> or_undefined (dx_vmid dx) \<noteq> None)))"
proof -
  obtain ids hs where r: "recoverPendingWorkflows dx others eids s = (Inr hs, foldl (\<lambda>t u. recover_one dx others u t) s ids)"
    and ids: "\<And>u. u \<in> set ids \<longleftrightarrow> (\<exists>r \<in> set (workflow_status (systemDatabase s)). ws_workflow_uuid r = u \<and> ws_status r = PENDING \<and>
       ws_executor_id r \<in> set eids \<and> \<not> (ws_executor_id r = ''local'' \<and> or_undefined (dx_vmid dx) \<noteq> None))"
    using recoverPendingWorkflows_total [of dx others eids s] by blast
  show ?thesis by (intro exI [of _ ids] exI [of _ hs]) (use r ids in blast)
qed

text \<open>C23. The name recorded for a single transaction leads recovery back to the registered transaction.\<close>

theorem temporary_transaction_recovered:
  assumes "jm_get (transactionInfos (dx_registry dx)) (full_name cls nm) = Some info" "ti_name info = nm" "CHR ''-'' \<notin> set nm"
    and "p_tempWfType params = ''transaction''" "p_tempWfName params = nm" "p_tempWfClass params = cls" "is_temp wfl"
    and "wst_workflowName st = wsi_name (internalStatus dx wfl winfo params u t)"
    and "wst_workflowClassName st = wsi_className (internalStatus dx wfl winfo params u t)"
  shows "temp_by_name dx u st = Inr (''transaction'', nm, cls, temp_workflow (\<lambda>ctx. transaction (exec_of dx) ctx (dx_fuel dx) (full_name cls nm)))"
  by (rule temp_transaction_found [OF assms(1-3)]) (use assms(4-9) in \<open>simp_all add: internalStatus_def\<close>)

theorem temporary_transaction_recovered_witness:
  "temp_by_name d_dx ''u'' \<lparr>wst_status = PENDING, wst_workflowName = ''temp_workflow-transaction-add'', wst_workflowClassName = ''Bank'',
      wst_workflowConfigName = [], wst_queueName = None, wst_authenticatedUser = [], wst_assumedRole = [], wst_authenticatedRoles = JArr [], wst_request = JObj []\<rparr> =
   Inr (''transaction'', ''add'', ''Bank'', temp_workflow (\<lambda>ctx. transaction (exec_of d_dx) ctx (dx_fuel d_dx) (full_name ''Bank'' ''add'')))"
  by (rule temporary_transaction_recovered [where info = d_add and wfl = "temp_workflow (\<lambda>_ _. retE JUndefined)" and winfo = temp_info and t = 0
      and params = "plain_params\<lparr>p_tempWfType := ''transaction'', p_tempWfName := ''add'', p_tempWfClass := ''Bank''\<rparr>"])
    (simp_all add: d_dx_def full_name_def d_add_def is_temp_def temp_workflow_def internalStatus_def plain_params_def tempWorkflowName_def)





text \<open>C26. The FoundationDB system database implements a queue per destination and topic: messages sent one after the other and
  then received come out complete and in the order they were sent, as JSON stores them, and the queue is empty again.\<close>

theorem fdb_messages_in_order:
  assumes "fdb_ok db" "u \<noteq> dest" "fdb_queue db (dest, fdb_topic topic) = []" "traverse json_elem ms = Inr ws"
    and "\<And>i. f \<le> i \<Longrightarrow> operationOutputsDB db (u, i) = None" "\<And>i. g \<le> i \<Longrightarrow> operationOutputsDB db (dest, i) = None"
  shows "\<exists>db'. bindE (fdb_send_all u f dest topic ms) (\<lambda>_. fdb_recv_all wk dest g topic (length ms)) db = (Inr ws, db') \<and>
    fdb_queue db' (dest, fdb_topic topic) = []"
proof -
  obtain xs d where d: "fdb_send_all u f dest topic ms db = (Inr xs, d)" "fdb_ok d" "fdb_queue d (dest, fdb_topic topic) = ws"
    "\<And>i. operationOutputsDB d (dest, i) = operationOutputsDB db (dest, i)"
    using fdb_send_all_queue [where u = u and f = f and dest = dest and topic = topic, OF assms(1,5,4)] assms(2,3) by auto
  have "length ws = length ms" using assms(4) by (rule traverse_length)
  with fdb_recv_all_queue [where f = g and u = dest and ws = ws and rest = "[]" and wk = wk and topic = topic, OF d(2)] d(1,3,4) assms(6) show ?thesis by (auto simp: em_simps)
qed

theorem fdb_messages_in_order_witness:
  "\<exists>db'. bindE (fdb_send_all ''a'' 0 ''b'' None [JNum 1, JStr ''x'']) (\<lambda>_. fdb_recv_all id ''b'' 0 None 2) d_fdb = (Inr [JNum 1, JStr ''x''], db') \<and>
    fdb_queue db' (''b'', fdb_topic None) = []"
proof -
  have "fdb_ok d_fdb" "fdb_queue d_fdb (''b'', fdb_topic None) = []" by (simp_all add: fdb_ok_def fdb_queue_def d_fdb_def)
  then show ?thesis
    using fdb_messages_in_order [of d_fdb "''a''" "''b''" None "[JNum 1, JStr ''x'']" "[JNum 1, JStr ''x'']" 0 0 id]
    by (simp add: json_elem_def numeral_2_eq_2 d_fdb_def)
qed

text \<open>C27. Arguments that pass validation have the declared types of their parameters (after the conversions the code makes), an argument that is missing
  or undefined is not a required one, and validating them a second time changes nothing.\<close>

theorem validated_arguments:
  assumes "validateMethodArgs lib reg args = Inr out"
  shows "length out = length args \<and> validateMethodArgs lib reg out = Inr out \<and>
    (\<forall>i. 0 < i \<and> i < length (as_args reg) \<longrightarrow>
      (if i < length args then arg_ok lib reg (as_args reg ! i) (out ! i) else \<not> is_required reg (as_args reg ! i)))"
  using validateMethodArgs_typed [OF assms] validateMethodArgs_idem [OF assms] by auto

theorem validated_arguments_witness:
  "let out = [Prim JUndefined, Prim (JNum 12), Prim (JBool True)] in
   validateMethodArgs d_lib d_params out = Inr out \<and>
   (\<forall>i. 0 < i \<and> i < 3 \<longrightarrow> arg_ok d_lib d_params (as_args d_params ! i) (out ! i))"
proof -
  have "validateMethodArgs d_lib d_params [Prim JUndefined, Prim (JStr ''12''), StringObj ''T''] =
    Inr [Prim JUndefined, Prim (JNum 12), Prim (JBool True)]" by code_simp
  from validated_arguments [OF this] show ?thesis by (auto simp: d_params_def)
qed



text \<open>C29. Requests that may not run: a request for a plain endpoint from a user without any of the roles its method requires is answered with
  status 403, and one from a permitted user whose arguments fail validation with status 400; in both cases nothing has changed and the handler was not called.\<close>

theorem http_rejects_before_the_handler:
  assumes "plain_endpoint ro st" "authenticate ro rq = Inr (user, roles)" "parse_args ro rq = Inr args"
  shows "(getRequiredRoles st (hr_method ro) \<noteq> [] \<and> set (getRequiredRoles st (hr_method ro)) \<inter> set roles = {} \<longrightarrow>
      (\<exists>resp. wrappedHandler dx others lib st handlers ro newID rq s = (resp, s) \<and> rs_status resp = Some 403)) \<and>
    ((getRequiredRoles st (hr_method ro) = [] \<or> set (getRequiredRoles st (hr_method ro)) \<inter> set roles \<noteq> {}) \<and>
      validateMethodArgs lib (spec_of st (hr_method ro)) (Prim JUndefined # map Prim args) = Inl e \<longrightarrow>
      (\<exists>resp. wrappedHandler dx others lib st handlers ro newID rq s = (resp, s) \<and> rs_status resp = Some 400))"
proof (intro conjI impI; elim conjE)
  let ?m = "hr_method ro" and ?ctx = "\<lparr>cc_authenticatedRoles = roles, cc_assumedRole = []\<rparr>"
  note run = plain_endpoint_run [OF assms, of dx others lib handlers]
  assume "getRequiredRoles st ?m \<noteq> []" "set (getRequiredRoles st ?m) \<inter> set roles = {}"
  with wrappedMethod_denied [OF refl, of st ?m ?ctx lib handlers "Prim JUndefined # map Prim args" s]
  have "run_endpoint dx others lib st handlers ro rq s =
      (Inl (DBOSNotAuthorizedError (''User does not have a role with permission to call '' @ reg_name ?m) 403), s)"
    by (simp add: run bindE_def)
  from wrappedHandler_error [OF this, of newID]
  show "\<exists>resp. wrappedHandler dx others lib st handlers ro newID rq s = (resp, s) \<and> rs_status resp = Some 403" by simp
next
  let ?m = "hr_method ro" and ?ctx = "\<lparr>cc_authenticatedRoles = roles, cc_assumedRole = []\<rparr>"
  note run = plain_endpoint_run [OF assms, of dx others lib handlers]
  assume roles: "getRequiredRoles st ?m = [] \<or> set (getRequiredRoles st ?m) \<inter> set roles \<noteq> {}"
    and v: "validateMethodArgs lib (spec_of st ?m) (Prim JUndefined # map Prim args) = Inl e"
  obtain ctx' where "authorize (reg_name ?m) (getRequiredRoles st ?m) ?ctx = Inr ctx'" using authorize_held [of "getRequiredRoles st ?m" ?ctx "reg_name ?m"] roles by auto
  from wrappedMethod_invalid [OF this v, of handlers s]
  have "run_endpoint dx others lib st handlers ro rq s = (Inl e, s)" by (simp add: run bindE_def)
  from wrappedHandler_error [OF this, of newID] validateMethodArgs_client [OF v]
  show "\<exists>resp. wrappedHandler dx others lib st handlers ro newID rq s = (resp, s) \<and> rs_status resp = Some 400" by auto
qed

theorem http_rejects_before_the_handler_witness:
  "(\<exists>resp. wrappedHandler d_dx [] d_lib d_guarded (\<lambda>_ _ _. retE JNull) (d_handler ''guest'') ''r1'' d_request (d_state, JUndefined) =
      (resp, d_state, JUndefined) \<and> rs_status resp = Some 403) \<and>
   (\<exists>resp. wrappedHandler d_dx [] d_lib d_guarded (\<lambda>_ _ _. retE JNull) (d_handler ''teller'') ''r1'' d_request (d_state, JUndefined) =
      (resp, d_state, JUndefined) \<and> rs_status resp = Some 400)"
proof -
  note rej = http_rejects_before_the_handler [OF d_handler_plain d_handler_auth d_handler_args,
      where dx = d_dx and others = "[]" and lib = d_lib and handlers = "\<lambda>_ _ _. retE JNull" and newID = "''r1''" and s = "(d_state, JUndefined)"]
  have "hr_method (d_handler x) = d_method" for x by (simp add: d_handler_def)
  moreover have "getRequiredRoles d_guarded d_method = [''teller'']" by code_simp
  moreover obtain e where "validateMethodArgs d_lib (spec_of d_guarded d_method) [Prim JUndefined, Prim JUndefined] = Inl e"
    using d_handler_missing by blast
  ultimately show ?thesis using rej [of "''guest''"] rej [of "''teller''"] by simp
qed

text \<open>C30. Crontab patterns mean what they should: a pattern of six fields of the documented forms (every value, every
  n-th value, a range, a list) with values in range is accepted, and it matches exactly the times whose second, minute, hour, day, month and week day are among the
  numbers the fields stand for. (The week day must not be written with the digit 7.)\<close>

theorem cron_meaning:
  assumes "cron_ok fs"
  shows "\<exists>tm. new_TimeMatcher (join_on (CHR '' '') (map cron_text fs)) dtf = Inr tm \<and>
    (\<forall>off t. tm_match off tm t = list_all2 (\<lambda>v ns. v \<in> set ns) (time_fields off (tm_apply tm t)) (cron_lists fs))"
proof -
  have len: "length fs = 6" using assms by (auto simp: cron_ok_def star_bounds_def dest: list_all2_lengthD)
  have "cron_lists fs ! i \<noteq> []" if "i < 6" for i
    using assms that by (auto simp: cron_ok_def list_all2_conv_all_nth star_bounds_def cron_lists_def split_def)
  then show ?thesis using cron_accepted [OF assms, of dtf] len
    by (auto intro!: tm_match_fields simp: cron_lists_def star_bounds_def)
qed

theorem cron_meaning_witness:
  "\<exists>tm. new_TimeMatcher ''0 */20 9,17 * * 1-5'' None = Inr tm \<and>
     tm_match (\<lambda>_. 0) tm 33600000 = list_all2 (\<lambda>v ns. v \<in> set ns) (time_fields (\<lambda>_. 0) (tm_apply tm 33600000))
       (cron_lists [OneOf [0], EveryNth 20, OneOf [9, 17], Every, Every, Span 1 5])"
proof -
  have ok: "cron_ok [OneOf [0], EveryNth 20, OneOf [9, 17], Every, Every, Span 1 5]" by code_simp
  have t: "join_on (CHR '' '') (map cron_text [OneOf [0], EveryNth 20, OneOf [9, 17], Every, Every, Span 1 5]) = ''0 */20 9,17 * * 1-5''"
    by code_simp
  from cron_meaning [OF ok, of None, unfolded t] show ?thesis by blast
qed

text \<open>C31. Messages of Kafka: a message whose transaction method returns has run it once on the application's data; delivered again, at any later
  time, to the same or another process on the same database, it is acknowledged without running the method and without a change anywhere. The identifiers of messages that differ in
  topic, partition or offset differ.\<close>

theorem kafka_message_exactly_once:
  assumes "kafka_transaction dx method info" "\<not> is_readOnly (ti_config info)" "txn_log s (kafka_uuid tp part (km_offset m), 0) = None"
    and "transaction (exec_of dx) \<lparr>workflowUUID = kafka_uuid tp part (km_offset m), presetUUID = True\<rparr> (dx_fuel dx)
      (full_name (km_className method) (km_name method)) (kafka_args tp part m) (fresh_ctx s) = (Inr v, w)"
    and "canon_val (dx_runtime dx) v = Inr v'"
    and "km_offset m' = km_offset m" "\<forall>k row. txn_log w k = Some row \<longrightarrow> txn_log s' k = Some row"
    and "CHR ''-'' \<notin> set (km_offset m)"
    and "\<And>e. Some e \<in> set (faults s') \<Longrightarrow> isRetriableTransactionError (dx_kind dx) e" "length (faults s') < dx_fuel dx"
  shows "\<exists>t t' b. eachMessage dx others method tp part m s = (Inr (), t) \<and>
    ti_transaction info (kafka_args tp part m) (app_of s, False) = (Inr v, (app_of t, b)) \<and> txn_log t = txn_log w \<and>
    eachMessage dx others' method tp part m' s' = (Inr (), t') \<and> app_of t' = app_of s' \<and> txn_log t' = txn_log s' \<and> outside t' = outside s' \<and>
    (\<forall>tp2 part2 off2. CHR ''-'' \<notin> set off2 \<longrightarrow>
       (kafka_uuid tp2 part2 off2 = kafka_uuid tp part (km_offset m) \<longleftrightarrow> tp2 = tp \<and> part2 = part \<and> off2 = km_offset m))"
proof -
  obtain t row b where t: "eachMessage dx others method tp part m s = (Inr (), t)" "userDatabase t = userDatabase w"
    "ti_transaction info (kafka_args tp part m) (app_of s, False) = (Inr v, (app_of t, b))"
    and row: "txn_log t (kafka_uuid tp part (km_offset m), 0) = Some row" "to_error row = None" "stringify v = Inr (to_output row)"
    using eachMessage_first [OF assms(1,3,2,4), of others] by blast
  have log: "txn_log t = txn_log w" using t(2) by (simp add: txn_log_def)
  with row(1) assms(6,7) have "txn_log s' (kafka_uuid tp part (km_offset m'), 0) = Some row" by simp
  from eachMessage_redelivered [OF assms(1) this decode_logged [OF row(2,3) assms(5)] assms(9,10), of others'] t log
  show ?thesis using kafka_uuid_inject [OF _ assms(8)] by blast
qed

theorem kafka_message_exactly_once_witness:
  "\<exists>dx consumed t t'. eachMessage dx [] consumed ''orders'' 0 \<lparr>km_offset = ''17'', km_message = JNull\<rparr> d_state = (Inr (), t) \<and>
     eachMessage dx [] consumed ''orders'' 0 \<lparr>km_offset = ''17'', km_message = JNull\<rparr> t = (Inr (), t') \<and> app_of t = 100 \<and> app_of t' = app_of t \<and>
     txn_log t' = txn_log t"
proof -
  define dx where "dx = d_dx\<lparr>dx_registry := (dx_registry d_dx)\<lparr>workflowInfoMap := [(tempWorkflowName, temp_info)]\<rparr>\<rparr>"
  define consumed :: "(int, int) kafka_method" where "consumed = \<lparr>km_className = ''Bank'', km_name = ''add'', km_txn = True, km_workflow = None\<rparr>"
  define m where "m = \<lparr>km_offset = ''17'', km_message = JNull\<rparr>"
  define r where "r = transaction (exec_of dx) \<lparr>workflowUUID = kafka_uuid ''orders'' 0 (km_offset m), presetUUID = True\<rparr> (dx_fuel dx)
      (full_name (km_className consumed) (km_name consumed)) (kafka_args ''orders'' 0 m) (fresh_ctx d_state)"
  have ev: "fst r = Inr (JNum 100)" "commit_faults (userDatabase (snd r)) = []" "app_of (snd r) = 100"
    unfolding r_def dx_def consumed_def m_def by code_simp+
  have k: "kafka_transaction dx consumed d_add"
    by (auto simp: kafka_transaction_def dx_def consumed_def d_dx_def exec_of_def full_name_def)
  have run: "transaction (exec_of dx) \<lparr>workflowUUID = kafka_uuid ''orders'' 0 (km_offset m), presetUUID = True\<rparr> (dx_fuel dx)
      (full_name (km_className consumed) (km_name consumed)) (kafka_args ''orders'' 0 m) (fresh_ctx d_state) = (Inr (JNum 100), snd r)"
    using ev(1) by (simp add: r_def prod_eq_iff)
  have conc: "\<exists>t t' b. eachMessage dx [] consumed ''orders'' 0 m d_state = (Inr (), t) \<and>
    ti_transaction d_add (kafka_args ''orders'' 0 m) (app_of d_state, False) = (Inr (JNum 100), (app_of t, b)) \<and> txn_log t = txn_log (snd r) \<and>
    eachMessage dx [] consumed ''orders'' 0 m (snd (eachMessage dx [] consumed ''orders'' 0 m d_state)) = (Inr (), t') \<and>
    app_of t' = app_of (snd (eachMessage dx [] consumed ''orders'' 0 m d_state)) \<and>
    txn_log t' = txn_log (snd (eachMessage dx [] consumed ''orders'' 0 m d_state)) \<and> outside t' = outside (snd (eachMessage dx [] consumed ''orders'' 0 m d_state)) \<and>
    (\<forall>tp2 part2 off2. CHR ''-'' \<notin> set off2 \<longrightarrow>
       (kafka_uuid tp2 part2 off2 = kafka_uuid ''orders'' 0 (km_offset m) \<longleftrightarrow> tp2 = ''orders'' \<and> part2 = 0 \<and> off2 = km_offset m))"
  proof (rule kafka_message_exactly_once [OF k _ _ run _ refl])
    obtain t where t: "eachMessage dx [] consumed ''orders'' 0 m d_state = (Inr (), t)" "userDatabase t = userDatabase (snd r)"
      using eachMessage_transaction [OF k run] by blast
    show "\<forall>k row. txn_log (snd r) k = Some row \<longrightarrow> txn_log (snd (eachMessage dx [] consumed ''orders'' 0 m d_state)) k = Some row"
      using t by (simp add: txn_log_def)
    show "length (faults (snd (eachMessage dx [] consumed ''orders'' 0 m d_state))) < dx_fuel dx" using t ev(2) by (simp add: faults_def dx_def d_dx_def)
    show "isRetriableTransactionError (dx_kind dx) e" if "Some e \<in> set (faults (snd (eachMessage dx [] consumed ''orders'' 0 m d_state)))" for e
      using t ev(2) that by (simp add: faults_def)
    show "canon_val (dx_runtime dx) (JNum 100) = Inr (JNum 100)" unfolding dx_def by code_simp
  qed (simp_all add: d_add_def is_readOnly_def txn_log_def d_state_def m_def)
  then obtain t t' b where c: "eachMessage dx [] consumed ''orders'' 0 m d_state = (Inr (), t)"
    "ti_transaction d_add (kafka_args ''orders'' 0 m) (app_of d_state, False) = (Inr (JNum 100), (app_of t, b))"
    "eachMessage dx [] consumed ''orders'' 0 m (snd (eachMessage dx [] consumed ''orders'' 0 m d_state)) = (Inr (), t')"
    "app_of t' = app_of (snd (eachMessage dx [] consumed ''orders'' 0 m d_state))" "txn_log t' = txn_log (snd (eachMessage dx [] consumed ''orders'' 0 m d_state))" by blast
  have "app_of t = 100" using c(2) by (simp add: d_add_def d_num_def kafka_args_def app_of_def d_state_def)
  with c show ?thesis unfolding m_def by (metis snd_conv)
qed



text \<open>C33. A configuration that is accepted has a database name of the allowed characters and length, a password and a port; and the
  connection is unencrypted only when that is asked for, or when nothing is said about encryption and the host is local. With a certificate authority the
  server is verified, unless encryption is switched off.\<close>

theorem configuration_is_safe:
  assumes "parseConfigFile pf opts useProxy = Inr (cfg, rc)"
  shows "\<exists>c nm. loadConfigFile pf (or_undefined (po_appDir opts)) (config_path opts) = Inr c \<and>
    pl_database (dc_poolConfig cfg) = JStr nm \<and> isValidDBname nm \<and> nm = str_of (getProp (getProp c ''database'') ''app_db_name'') \<and>
    js_truthy (pl_password (dc_poolConfig cfg)) \<and>
    (pl_ssl (dc_poolConfig cfg) = NoTLS \<longleftrightarrow> getProp (getProp c ''database'') ''ssl'' = JBool False \<or>
       \<not> js_truthy (getProp (getProp c ''database'') ''ssl_ca'') \<and> getProp (getProp c ''database'') ''ssl'' = JUndefined \<and>
       pl_host (dc_poolConfig cfg) \<in> {JStr ''localhost'', JStr ''127.0.0.1''}) \<and>
    (getProp (getProp c ''database'') ''ssl'' \<noteq> JBool False \<and> js_truthy (getProp (getProp c ''database'') ''ssl_ca'') \<longrightarrow>
       (\<exists>ca. pl_ssl (dc_poolConfig cfg) = VerifyTLS ca)) \<and>
    rc_port rc \<noteq> 0"
proof -
  obtain c0 c1 c2 where s: "loadConfigFile pf (or_undefined (po_appDir opts)) (config_path opts) = Inr c0"
    "ensure_password pf useProxy (config_path opts) c0 = Inr c1" "check_config pf (config_path opts) c1 = Inr ()"
    "constructPoolConfig pf (or_undefined (po_appDir opts)) c1 = Inr (dc_poolConfig cfg)" "rc = runtime_config pf opts c2"
    by (rule parseConfigFile_steps [OF assms])
  obtain nm where nm: "getProp (getProp c1 ''database'') ''app_db_name'' = JStr nm" "isValidDBname nm"
    using check_config_name [OF s(3)] by blast
  note same = ensure_password_database(1) [OF s(2)] and fields = constructPoolConfig_fields [OF s(4)]
  have "getProp (getProp c0 ''database'') ''app_db_name'' = JStr nm" using nm(1) same [of "''app_db_name''"] by simp
  then obtain kvs where "getProp c0 ''database'' = JObj kvs" by (cases "getProp c0 ''database''") auto
  then have "js_truthy (pl_password (dc_poolConfig cfg))" using ensure_password_database(2) [OF s(2)] fields(2) by simp
  moreover note choose_ssl_cases [OF fields(4), unfolded same [of "''ssl''", simplified] same [of "''ssl_ca''", simplified], folded fields(3)]
  moreover have "rc_port rc \<noteq> 0" by (simp add: s(5) runtime_config_def Let_def number_or_def split: option.split)
  ultimately show ?thesis using s(1) nm fields(1) \<open>getProp (getProp c0 ''database'') ''app_db_name'' = JStr nm\<close>
    by (intro exI [of _ c0] exI [of _ nm]) (simp add: str_of_def, blast)
qed

theorem configuration_is_safe_witness:
  "\<exists>pf opts cfg rc. parseConfigFile pf opts False = Inr (cfg, rc) \<and> pl_ssl (dc_poolConfig cfg) = NoTLS \<and> rc_port rc \<noteq> 0 \<and>
     pl_password (dc_poolConfig cfg) = JStr ''secret''"
proof -
  define pf where "pf = \<lparr>env_var = [''PGPASSWORD'' \<mapsto> ''secret''], chdir = (\<lambda>_. Inr ()), readFile = (\<lambda>_ _. Inr []),
    yamlParse = (\<lambda>_. Inr (JObj [(''database'', JObj [(''hostname'', JStr ''localhost''), (''app_db_name'', JStr ''hello'')])])),
    ajvErrors = (\<lambda>_. []), jsonText = (\<lambda>_. []), numberOfString = (\<lambda>_. None)\<rparr>"
  define r where "r = parseConfigFile pf no_options False"
  have ev: "\<not> isl r" "pl_ssl (dc_poolConfig (fst (projr r))) = NoTLS" "pl_password (dc_poolConfig (fst (projr r))) = JStr ''secret''"
    unfolding r_def pf_def by code_simp+
  from ev(1) obtain cfg rc where r: "r = Inr (cfg, rc)" by (cases r) auto
  then have run: "parseConfigFile pf no_options False = Inr (cfg, rc)" by (simp add: r_def)
  from configuration_is_safe [OF run] have "rc_port rc \<noteq> 0" by blast
  with run ev(2,3) r show ?thesis by auto
qed

text \<open>C34. Signals that arrive at the collector, the timer firing in between, are handed to the exporter once each and in their order,
  sorted into logs and traces; and after the collector is destroyed, none is left.\<close>

theorem telemetry_handed_over_once:
  shows "(\<exists>handed. handed @ tl_signals (collected cfg es x) = arriving es \<and>
      ot_logs (tl_exporter (collected cfg es x)) = ot_logs x @ filter (wants_logs cfg) handed \<and>
      ot_traces (tl_exporter (collected cfg es x)) = ot_traces x @ filter (wants_traces cfg) handed) \<and>
    ot_logs (tl_exporter (snd (collector_destroy (Some (exporter_export cfg)) exporter_flush (collected cfg es x)))) = ot_logs x @ filter (wants_logs cfg) (arriving es) \<and>
    ot_traces (tl_exporter (snd (collector_destroy (Some (exporter_export cfg)) exporter_flush (collected cfg es x)))) = ot_traces x @ filter (wants_traces cfg) (arriving es)"
proof -
  let ?c0 = "\<lparr>tl_signals = [], tl_exporter = x\<rparr>"
  obtain handed where h: "handed @ tl_signals (collected cfg es x) = arriving es" "ot_logs (tl_exporter (collected cfg es x)) = ot_logs x @ filter (wants_logs cfg) handed"
    using logs.run_gives [of cfg es ?c0] by (auto simp: collected_def)
  obtain handed' where h': "handed' @ tl_signals (collected cfg es x) = arriving es" "ot_traces (tl_exporter (collected cfg es x)) = ot_traces x @ filter (wants_traces cfg) handed'"
    using traces.run_gives [of cfg es ?c0] by (auto simp: collected_def)
  from h(1) h'(1) have "handed' = handed" using append_same_eq by metis
  with h h' logs.destroy_gives [of exporter_flush cfg es ?c0] traces.destroy_gives [of exporter_flush cfg es ?c0] show ?thesis
    by (auto simp: exporter_flush_def collected_def)
qed

text \<open>C35. Saving a file in S3 (a workflow of the package \<open>component-aws-s3\<close> over the operations of the context). When it returns, the content is in the bucket and the step
  is recorded, and then the call-back for a new file has run; the workflow run again, on databases that kept the record, reaches the call-back without calling the service.
  When it throws, the object is not in the bucket, or deleting it has failed, or the call-back has failed after the content was stored.\<close>

theorem file_saved_exactly_once:
  assumes "s3_objects s3 obj" "s3client this = Some s3" "s3_registered ex this" "free_from (workflowUUID ctx) (functionID s) s"
    and "saveStringToFile ex this ctx (JObj kvs) content ct s = (r, t)"
  shows "case r of
      Inr res \<Rightarrow> res = JObj kvs \<and> (\<exists>v w. obj (outside w) (s3_bucket this) (getProp (JObj kvs) ''key'') = Some content \<and>
        recorded_op (ex_runtime ex) (systemDatabase w) (workflowUUID ctx, functionID s) = Some (canon_val (ex_runtime ex) v) \<and>
        call_back this newActiveFile ctx (JObj kvs) w = (Inr (), t) \<and>
        (\<forall>s' v' content' ct'. idle s' \<and> functionID s' = functionID s \<and> canon_val (ex_runtime ex) v = Inr v' \<and>
           recorded_op (ex_runtime ex) (systemDatabase s') (workflowUUID ctx, functionID s) = recorded_op (ex_runtime ex) (systemDatabase w) (workflowUUID ctx, functionID s) \<longrightarrow>
           (\<exists>w'. same_effects (s'\<lparr>functionID := Suc (functionID s')\<rparr>) w' \<and>
             saveStringToFile ex this ctx (JObj kvs) content' ct' s' = seqE (call_back this newActiveFile ctx (JObj kvs)) (retE (JObj kvs)) w')))
    | Inl e \<Rightarrow> obj (outside t) (s3_bucket this) (getProp (JObj kvs) ''key'') = None \<or>
        (\<exists>w. invoke_s3 ex ctx ''delete'' (JObj kvs) [] w = (Inl e, t)) \<or>
        (\<exists>w. obj (outside w) (s3_bucket this) (getProp (JObj kvs) ''key'') = Some content \<and>
          call_back this newActiveFile ctx (JObj kvs) w = (Inl e, t))"
proof (cases r)
  case (Inl e)
  with saveStringToFile_first [OF assms] show ?thesis by simp
next
  case (Inr res)
  with saveStringToFile_first [OF assms] obtain v w where w: "res = JObj kvs"
    "obj (outside w) (s3_bucket this) (getProp (JObj kvs) ''key'') = Some content"
    "recorded_op (ex_runtime ex) (systemDatabase w) (workflowUUID ctx, functionID s) = Some (canon_val (ex_runtime ex) v)"
    "call_back this newActiveFile ctx (JObj kvs) w = (Inr (), t)" by auto
  have again: "\<forall>s' v' content' ct'. idle s' \<and> functionID s' = functionID s \<and> canon_val (ex_runtime ex) v = Inr v' \<and>
      recorded_op (ex_runtime ex) (systemDatabase s') (workflowUUID ctx, functionID s) = recorded_op (ex_runtime ex) (systemDatabase w) (workflowUUID ctx, functionID s) \<longrightarrow>
      (\<exists>w'. same_effects (s'\<lparr>functionID := Suc (functionID s')\<rparr>) w' \<and>
        saveStringToFile ex this ctx (JObj kvs) content' ct' s' = seqE (call_back this newActiveFile ctx (JObj kvs)) (retE (JObj kvs)) w')"
    (is "\<forall>s' v' content' ct'. ?A s' v' \<longrightarrow> ?B s' content' ct'")
  proof (intro allI impI)
    fix s' v' content' ct' assume "?A s' v'"
    then have s': "idle s'" "functionID s' = functionID s" "canon_val (ex_runtime ex) v = Inr v'"
      "recorded_op (ex_runtime ex) (systemDatabase s') (workflowUUID ctx, functionID s) = recorded_op (ex_runtime ex) (systemDatabase w) (workflowUUID ctx, functionID s)" by auto
    show "?B s' content' ct'"
      by (rule saveStringToFile_again [OF assms(3) s'(1)]) (simp add: s' w(3))
  qed
  show ?thesis unfolding Inr sum.case
    by (rule conjI, rule w(1), rule exI [of _ v], rule exI [of _ w], intro conjI w(2-4) again)
qed

theorem file_saved_exactly_once_witness:
  "\<exists>ex (this :: (int, int) S3Ops) t t'. saveStringToFile ex this d_ctx (JObj [(''key'', JStr ''a'')]) (JStr ''hello'') JUndefined d_state = (Inr (JObj [(''key'', JStr ''a'')]), t) \<and>
     outside t = 1 \<and> saveStringToFile ex this d_ctx (JObj [(''key'', JStr ''a'')]) (JStr ''hello'') JUndefined (t\<lparr>functionID := 0\<rparr>) = (Inr (JObj [(''key'', JStr ''a'')]), t') \<and> outside t' = 1"
proof -
  define s3 :: "int s3_service" where "s3 = \<lparr>DeleteObject = (\<lambda>b k x. (Inr JNull, 0)),
    PutObject = (\<lambda>b k c ct x. if k = JStr ''a'' \<and> c = JStr ''hello'' then (Inr (JNum 1), 1) else (Inl (pg_err ''1''), x)),
    GetObject = (\<lambda>b k x. (Inr None, x)), getSignedUrl = (\<lambda>b k e o' x. (Inr JNull, x)), presignPost = (\<lambda>b k e l ct x. (Inr (JNull, JNull), x))\<rparr>"
  define obj :: "int \<Rightarrow> jsval \<Rightarrow> jsval \<Rightarrow> jsval option" where "obj = (\<lambda>x b k. if k = JStr ''a'' \<and> x = 1 then Some (JStr ''hello'') else None)"
  define this :: "(int, int) S3Ops" where "this = \<lparr>s3_name = ''files'', s3_awscfgname = None, s3_awscfg = None, s3_bucket = JStr ''b'',
    s3_Callbacks = None, s3client = Some s3\<rparr>"
  define ex where "ex = d_ex\<lparr>stepInfoMap := jm_get (s3_steps this)\<rparr>"
  define run where "run = saveStringToFile ex this d_ctx (JObj [(''key'', JStr ''a'')]) (JStr ''hello'') JUndefined d_state"
  have ev: "fst run = Inr (JObj [(''key'', JStr ''a'')])" "resultBuffer (snd run) = []" "commit_faults (userDatabase (snd run)) = []" "outside (snd run) = 1"
    "recorded_op demo_rt (systemDatabase (snd run)) (''a'', 0) = Some (Inr (JNum 1))"
    unfolding run_def ex_def this_def s3_def by code_simp+
  have r: "saveStringToFile ex this d_ctx (JObj [(''key'', JStr ''a'')]) (JStr ''hello'') JUndefined d_state = (Inr (JObj [(''key'', JStr ''a'')]), snd run)"
    using ev(1) by (simp add: run_def prod_eq_iff)
  have ex_rt: "ex_runtime ex = demo_rt" "workflowUUID d_ctx = ''a''" "functionID d_state = 0" by (simp_all add: ex_def d_ex_def d_ctx_def d_state_def)
  have p: "s3_objects s3 obj" "s3client this = Some s3" "s3_registered ex this" "free_from (workflowUUID d_ctx) (functionID d_state) d_state"
    by (auto simp: s3_objects_def s3_def obj_def this_def s3_registered_def s3_steps_def ex_def full_name_def free_from_def op_rows_def
        d_state_def d_sys_def empty_sysdb_def split: if_splits)
  from file_saved_exactly_once [OF p r, unfolded sum.case ex_rt] obtain v w where w: "recorded_op demo_rt (systemDatabase w) (''a'', 0) = Some (canon_val demo_rt v)"
    "call_back this newActiveFile d_ctx (JObj [(''key'', JStr ''a'')]) w = (Inr (), snd run)"
    and rest: "\<forall>s' v' content' ct'. idle s' \<and> functionID s' = 0 \<and> canon_val demo_rt v = Inr v' \<and>
           recorded_op demo_rt (systemDatabase s') (''a'', 0) = recorded_op demo_rt (systemDatabase w) (''a'', 0) \<longrightarrow>
           (\<exists>w'. same_effects (s'\<lparr>functionID := Suc (functionID s')\<rparr>) w' \<and>
             saveStringToFile ex this d_ctx (JObj [(''key'', JStr ''a'')]) content' ct' s' = seqE (call_back this newActiveFile d_ctx (JObj [(''key'', JStr ''a'')])) (retE (JObj [(''key'', JStr ''a'')])) w')"
    by (elim conjE exE)
  have ww: "w = snd run" using w(2) by (simp add: call_back_def this_def retE_def)
  then have v: "canon_val demo_rt v = Inr (JNum 1)" using w(1) ev(5) by simp
  obtain w' where w': "same_effects ((snd run)\<lparr>functionID := 0\<rparr>\<lparr>functionID := Suc 0\<rparr>) w'"
    "saveStringToFile ex this d_ctx (JObj [(''key'', JStr ''a'')]) (JStr ''hello'') JUndefined ((snd run)\<lparr>functionID := 0\<rparr>) =
       seqE (call_back this newActiveFile d_ctx (JObj [(''key'', JStr ''a'')])) (retE (JObj [(''key'', JStr ''a'')])) w'"
    using rest [rule_format, of "(snd run)\<lparr>functionID := 0\<rparr>" "JNum 1" "JStr ''hello''" JUndefined] v ev(2,3) ww by (auto simp: idle_def faults_def)
  have "outside w' = 1" using w'(1) ev(4) by (simp add: same_effects_def)
  moreover have "seqE (call_back this newActiveFile d_ctx (JObj [(''key'', JStr ''a'')])) (retE (JObj [(''key'', JStr ''a'')])) w' = (Inr (JObj [(''key'', JStr ''a'')]), w')"
    by (simp add: call_back_def this_def seqE_def bindE_def retE_def)
  ultimately show ?thesis using r ev(4) w'(2) by metis
qed







text \<open>C39. In debug mode, initialization creates no table, applies no migration, recovers no workflow and runs no initializer, whatever it finds and
  whether or not it succeeds.\<close>

theorem debug_initialization:
  assumes "bt_debugMode b" "init b classes s = (r, t)"
  shows "same_tables (lx_server s) (lx_server t) \<and> lx_dbos t = lx_dbos s"
  using keeps_result [OF keeps_debug_init [OF assms(1), of "lx_server s" "lx_dbos s" classes] _ assms(2)] by (simp add: same_tables_def)

theorem debug_initialization_witness:
  "\<exists>(b :: (int, int, unit) boot) cls s t. init b [cls] s = (Inr (), t) \<and> lx_initialized t \<and> same_tables (lx_server s) (lx_server t) \<and> lx_dbos t = lx_dbos s"
proof -
  define env :: "unit pg_env" where "env = \<lparr>pg_refuses = (\<lambda>_. None), pg_forbids = (\<lambda>_. None),
    knex_latest = (\<lambda>p. (Inr (), if ''20240123183021_tables.js'' \<in> set (pd_migrations p) then p
      else p\<lparr>pd_migrations := pd_migrations p @ [''20240123183021_tables.js'']\<rparr>)), execSync = (\<lambda>_ s. (Inr [], s))\<rparr>"
  define cfg where "cfg = \<lparr>dc_poolConfig = \<lparr>pl_host = JStr ''localhost'', pl_port = JNum 5432, pl_user = JStr ''me'', pl_password = JStr ''x'',
      pl_connectionTimeoutMillis = JNum 3000, pl_database = JStr ''shop'', pl_ssl = NoTLS\<rparr>, dc_userDbclient = JStr ''knex'', dc_telemetry = JUndefined,
    dc_system_database = JStr ''shop_dbos_sys'', dc_application = JUndefined, dc_env = JObj [], dc_http = JUndefined, dc_appVersion = None\<rparr>"
  define cls :: "(int, int) class_info" where "cls = \<lparr>ci_ormEntities = JArr [], ci_operations = [\<lparr>io_registration =
      \<lparr>mr_className = ''Bank'', mr_name = ''add'', mr_config = TransactionOp d_add\<rparr>, io_receivers = [], io_init = True, io_origFunction = retE ()\<rparr>],
    ci_configuredInstances = []\<rparr>"
  define b :: "(int, int, unit) boot" where "b = \<lparr>bt_executor = d_dx, bt_config = cfg, bt_debugMode = True, bt_pg = env, bt_require = (\<lambda>_. None),
    bt_dataSource = None, bt_aggregate = (\<lambda>_. None), bt_others = [], bt_allClasses = []\<rparr>"
  define s :: "(int, int, unit) live" where "s = \<lparr>lx_dbos = d_state, lx_server = \<lparr>sv_databases = [(''shop'', new_database)], sv_app = ()\<rparr>,
    lx_registry = empty_registry, lx_registeredOperations = [], lx_eventReceivers = [], lx_typeormEntities = [], lx_drizzleEntities = [],
    lx_userDatabase = None, lx_initialized = False, lx_isFlushingBuffers = False\<rparr>"
  define r where "r = init b [cls] s"
  have ev: "fst r = Inr ()" "lx_initialized (snd r)" unfolding r_def b_def s_def env_def cfg_def cls_def by code_simp+
  then have run: "init b [cls] s = (Inr (), snd r)" by (metis r_def prod.collapse)
  have "bt_debugMode b" by (simp add: b_def)
  from debug_initialization [OF this run] run ev(2) show ?thesis by blast
qed



end
